(* ===== verification/GoErrors.thy ===== *)
theory GoErrors
  imports Main
begin

text \<open>
  Error values. Every package of the program declares its errors as package-level variables
  created with \<open>errors.New\<close>; such a value is only compared by identity, so it is modelled by a
  constructor with the variable's name, one datatype per \<open>var\<close> block. A Go error is one of these
  sentinels, an error that comes from outside the program, or \<open>errors.Join\<close> of several of
  them. The datatype also holds what a panic carries.
\<close>

section \<open>The sentinel errors of the program, one datatype per file\<close>

text \<open>\<^verbatim>\<open>pkg/common/vm_state.go\<close>\<close>

datatype vm_state_err =
    ErrCouldNotSuspendAndCloseAgentServer
  | ErrCouldNotMsyncRunner

text \<open>\<^verbatim>\<open>pkg/common/dirty_manager.go\<close>\<close>

datatype dirty_manager_err =
    ErrCouldNotSuspendAndMsyncVM

text \<open>\<^verbatim>\<open>pkg/common/migrations.go\<close>\<close>

datatype migrations_err =
    ErrCouldNotCreateDeviceDirectory
  | ErrCouldNotGetBaseDeviceStat
  | ErrCouldNotCreateOverlayDirectory
  | ErrCouldNotCreateStateDirectory
  | ErrCouldNotUseOverlays
  | ErrCouldNotGetNBDDeviceStat
  | ErrCouldNotCreateDeviceNode

text \<open>\<^verbatim>\<open>pkg/common/package.go\<close>\<close>

datatype package_err =
    ErrMissingDevice
  | ErrCouldNotOpenPackageOutputFile
  | ErrCouldNotCreateCompressor
  | ErrCouldNotStatDevice
  | ErrCouldNotCreateTarHeader
  | ErrCouldNotWriteTarHeader
  | ErrCouldNotOpenDevice
  | ErrCouldNotCopyToArchive
  | ErrCouldNotOpenPackageInputFile
  | ErrCouldNotCreateUncompressor
  | ErrCouldNotReadNextHeader
  | ErrCouldNotCreateOutputDir
  | ErrCouldNotOpenOutputFile
  | ErrCouldNotCopyToOutput

text \<open>\<^verbatim>\<open>pkg/utils/loop.go\<close>\<close>

datatype loop_err =
    ErrCouldNotGetDeviceStat
  | ErrCouldNotAttachDevice
  | ErrCouldNotDetachDevice

text \<open>\<^verbatim>\<open>pkg/network/ipmanager.go\<close>\<close>

datatype ipmanager_err =
    ErrInvalidCIDRSize
  | ErrCouldNotParseCIDR
  | ErrCouldNotCreateNewPrefix
  | ErrCouldNotAcquireIP
  | ErrCouldNotReleaseIP
  | ErrCouldNotAcquireChildPrefix
  | ErrCouldNotReleaseChildPrefix

text \<open>\<^verbatim>\<open>pkg/network/namespace.go\<close>\<close>

datatype namespace_err =
    ErrCouldNotGetOriginalNamespace
  | ErrCouldNotNewNamespace
  | ErrCouldNotAddTapInterface
  | ErrCouldNotParseGatewaySubnet
  | ErrCouldNotAddAddressToInterface
  | ErrCouldNotParseMACAddress
  | ErrCouldNotSetHardwareAddress
  | ErrCouldNotSetLinkUp
  | ErrCouldNotAddVethInterface
  | ErrCouldNotGetVethInterface
  | ErrCouldNotSetNamespacePid
  | ErrCouldNotParseInternalVethSubnet
  | ErrCouldNotSetOriginalNamespace
  | ErrCouldNotParseExternalVethSubnet
  | ErrCouldNotParseDefaultAddress
  | ErrCouldNotAddRoute
  | ErrCouldNotNewIPTable
  | ErrCouldNotAppendIPTableRule
  | ErrCouldNotDeleteIPTableRule
  | ErrCouldNotDeleteRoute
  | ErrCouldNotDeleteLink
  | ErrCouldNotSetLinkDown
  | ErrCouldNotDeleteNamespace

text \<open>\<^verbatim>\<open>pkg/network/nat.go\<close>\<close>

datatype host_nat_err =
    ErrCouldNotWriteIPForwarding
  | ErrCouldNotCreateIPTablesInstance
  | ErrCouldNotAppendPostRoutingRule
  | ErrCouldNotAppendForwardRule
  | ErrCouldNotDeleteForwardRule
  | ErrCouldNotDeletePostRoutingRule

text \<open>\<^verbatim>\<open>pkg/network/nat/errors.go\<close>\<close>

datatype nat_err =
    ErrNotEnoughAvailableIPsInHostCIDR
  | ErrNotEnoughAvailableIPsInNamespaceCIDR
  | ErrAllNamespacesClaimed
  | ErrCouldNotFindHostInterface
  | ErrCouldNotCreateNAT
  | ErrCouldNotOpenHostVethIPs
  | ErrCouldNotOpenNamespaceVethIPs
  | ErrCouldNotReleaseHostVethIP
  | ErrCouldNotReleaseNamespaceVethIP
  | ErrCouldNotOpenNamespace
  | ErrCouldNotCloseNamespace
  | ErrCouldNotRemoveNAT
  | ErrNATContextCancelled

text \<open>\<^verbatim>\<open>pkg/network/forwarder/errors.go\<close>\<close>

datatype forwarder_err =
    ErrCouldNotFindInternalHostVeth
  | ErrCouldNotCreatingIPTables
  | ErrCouldNotSplitHostPort
  | ErrCouldNotResolveIPAddr
  | ErrCouldNotWriteFileRouteLocalnetAll
  | ErrCouldNotWriteFileRouteLocalnetLo
  | ErrCouldNotGetOriginalNSHandle
  | ErrCouldNotSetOriginalNSHandle
  | ErrCouldNotGetNSHandle
  | ErrCouldNotSetNSHandle
  | ErrCouldNotListInterfaces
  | ErrCouldNotGetInterfaceAddresses
  | ErrCouldNotAppendIPTablesFilterForwardD
  | ErrCouldNotDeleteIPTablesFilterForwardD
  | ErrCouldNotAppendIPTablesFilterForwardS
  | ErrCouldNotDeleteIPTablesFilterForwardS
  | ErrCouldNotAppendIPTablesNatOutput
  | ErrCouldNotDeleteIPTablesNatOutput
  | ErrCouldNotAppendIPTablesNatPrerouting
  | ErrCouldNotDeleteIPTablesNatPrerouting
  | ErrCouldNotAppendIPTablesNatPostrouting
  | ErrCouldNotDeleteIPTablesNatPostrouting

text \<open>\<^verbatim>\<open>pkg/ipc/agent_rpc.go\<close>\<close>

datatype agent_rpc_err =
    ErrNoRemoteFound
  | ErrAgentClientDisconnected
  | ErrCouldNotAcceptAgentClient
  | ErrCouldNotListenInAgentServer
  | ErrCouldNotCloseAcceptingAgentServer
  | ErrCouldNotLinkRegistry

text \<open>\<^verbatim>\<open>pkg/ipc/agent_client.go\<close>\<close>

datatype agent_client_err =
    ErrAgentServerDisconnected
  | ErrCouldNotDialVSock
  | ErrAgentContextCancelled

text \<open>\<^verbatim>\<open>pkg/ipc/liveness.go\<close>\<close>

datatype liveness_err =
    ErrCouldNotDialLivenessVSockConnection
  | ErrCouldNotCloseLivenessVSockConnection
  | ErrCouldNotAcceptLivenessClient
  | ErrCouldNotListenInLivenessServer
  | ErrLivenessServerContextCancelled

text \<open>\<^verbatim>\<open>pkg/runtimes/firecracker/vsock/conn.go\<close>\<close>

datatype vsock_conn_err =
    ErrVSockConnectionBadFileDescriptor
  | ErrCouldNotShutdownVSockConnection
  | ErrCouldNotCloseVSockConn

text \<open>\<^verbatim>\<open>pkg/runtimes/firecracker/vsock/dialer.go\<close>\<close>

datatype vsock_dial_err =
    ErrVSockSocketCreationFailed
  | ErrVSockDialContextCancelled
  | ErrVSockConnectFailed

text \<open>\<^verbatim>\<open>pkg/runtimes/firecracker/machine.go\<close>\<close>

datatype machine_err =
    ErrCouldNotSetBootSource
  | ErrCouldNotSetDrive
  | ErrCouldNotSetMachineConfig
  | ErrCouldNotSetVSock
  | ErrCouldNotSetNetworkInterfaces
  | ErrCouldNotStartInstance
  | ErrSignalKilled
  | ErrNoSocketCreated
  | ErrFirecrackerExited
  | ErrCouldNotCreateVMPathDirectory
  | ErrCouldNotCreateInotifyWatcher
  | ErrCouldNotAddInotifyWatch
  | ErrCouldNotReadNUMACPUList
  | ErrCouldNotStartFirecrackerServer
  | ErrCouldNotCloseWatcher
  | ErrCouldNotCloseServer
  | ErrCouldNotWaitForFirecracker

text \<open>\<^verbatim>\<open>pkg/runtimes/firecracker/snapshotter.go\<close>\<close>

datatype snapshotter_err =
    ErrCouldNotOpenInputFile
  | ErrCouldNotCreateOutputFile
  | ErrCouldNotCopyFile
  | ErrCouldNotWritePadding
  | ErrCouldNotCopyDeviceFile
  | ErrCouldNotStartVM
  | ErrCouldNotMarshalPackageConfig
  | ErrCouldNotOpenPackageConfigFile
  | ErrCouldNotWritePackageConfig
  | ErrCouldNotChownPackageConfigFile
  | ErrCouldNotCreateChrootBaseDirectory
  | ErrCouldNotCreateSnapshot
  | ErrCouldNotOpenSourceFile
  | ErrCouldNotCreateDestinationFile
  | ErrCouldNotCopyFileContent
  | ErrCouldNotChangeFileOwner
  | ErrCouldNotStartAgentServer
  | ErrCouldNotCloseAcceptingAgent
  | ErrCouldNotOpenLivenessServer
  | ErrCouldNotChownLivenessServerVSock
  | ErrCouldNotChownAgentServerVSock
  | ErrCouldNotReceiveAndCloseLivenessServer
  | ErrCouldNotAcceptAgentConnection
  | ErrCouldNotBeforeSuspend
  | ErrCouldNotChownVSockPath
  | ErrCouldNotAcceptAgent
  | ErrCouldNotCallAfterResumeRPC
  | ErrCouldNotCallBeforeSuspendRPC

text \<open>\<^verbatim>\<open>pkg/runtimes/firecracker/runtime.go\<close>\<close>

datatype runtime_err =
    ErrConfigFileNotFound
  | ErrCouldNotOpenConfigFile
  | ErrCouldNotDecodeConfigFile
  | ErrCouldNotResumeRunner
  | ErrCouldNotRemoveVMDir
  | ErrCouldNotResumeSnapshot

section \<open>Error values\<close>

text \<open>
  \<open>Ext n\<close> is an error returned by the operating system or by a third-party package; nothing is
  known about it but its identity. \<open>Joined es\<close> is the value \<open>errors.Join\<close> builds. The runtime
  panics the program can reach are values too, because a panic is an outcome of the model.
\<close>

datatype goerr =
    VmStateErr vm_state_err
  | DirtyManagerErr dirty_manager_err
  | MigrationsErr migrations_err
  | PackageErr package_err
  | LoopErr loop_err
  | IpmanagerErr ipmanager_err
  | NamespaceErr namespace_err
  | HostNatErr host_nat_err
  | NatErr nat_err
  | ForwarderErr forwarder_err
  | AgentRpcErr agent_rpc_err
  | AgentClientErr agent_client_err
  | LivenessErr liveness_err
  | VsockConnErr vsock_conn_err
  | VsockDialErr vsock_dial_err
  | MachineErr machine_err
  | SnapshotterErr snapshotter_err
  | RuntimeErr runtime_err
  | Ext nat
  | Plain string
  | CtxCanceled
  | CtxDeadlineExceeded
  | IoEOF
  | NetErrClosed
  | UnixEBADF
  | NilDeref
  | IndexOutOfRange
  | CloseOfClosedChannel
  | Joined "goerr list"

text \<open>\<open>errors.Join\<close> drops its nil arguments and is nil when nothing is left.\<close>

definition errors_Join :: "goerr option list \<Rightarrow> goerr option" where
  "errors_Join es =
     (let present = [e. Some e \<leftarrow> es] in if present = [] then None else Some (Joined present))"

text \<open>\<open>errors.Is\<close>: the target itself, or one of the errors a joined error holds.\<close>

fun errors_Is :: "goerr \<Rightarrow> goerr \<Rightarrow> bool" where
  "errors_Is target (Joined es) \<longleftrightarrow>
     target = Joined es \<or> list_ex (\<lambda>e. errors_Is target e) es"
| "errors_Is target e \<longleftrightarrow> target = e"

lemma errors_Join_None [simp]: "errors_Join es = None \<longleftrightarrow> (\<forall>e \<in> set es. e = None)"
  by (induction es) (auto simp: errors_Join_def Let_def split: option.splits)

lemma errors_Join_Some_iff:
  "errors_Join es = Some x \<longleftrightarrow> (\<exists>e \<in> set es. e \<noteq> None) \<and> x = Joined [e. Some e \<leftarrow> es]"
proof -
  have "[e. Some e \<leftarrow> es] = [] \<longleftrightarrow> (\<forall>e \<in> set es. e = None)"
    by (induction es) (auto split: option.splits)
  then show ?thesis
    by (auto simp: errors_Join_def Let_def)
qed

lemma errors_Is_refl [simp]: "errors_Is e e"
  by (cases e) simp_all

lemma errors_Is_Joined:
  "errors_Is t (Joined es) \<longleftrightarrow> t = Joined es \<or> (\<exists>e \<in> set es. errors_Is t e)"
  by (simp add: list_ex_iff)

text \<open>A joined error is found by \<open>errors.Is\<close> through every one of its members.\<close>

lemma errors_Is_member: "e \<in> set es \<Longrightarrow> errors_Is t e \<Longrightarrow> errors_Is t (Joined es)"
  by (auto simp: errors_Is_Joined simp del: errors_Is.simps)

end
