(* ===== verification/Prelude.thy ===== *)
theory Prelude
  imports Main GoErrors "HOL-Library.AList" "HOL-Library.Sublist"
begin

text \<open>
  What every component of the development shares.
  \<^item> The outcome of a Go call (a value, an error or a panic) and state-passing computations over
    it, with the few control patterns the program is written in: return the error as it is, wrap
    it in a sentinel with \<open>errors.Join\<close>, defer, loop over a slice, test for an error.
  \<^item> The world outside the program: a trace of the calls made to it and an environment that
    decides, from the calls so far, what each call returns. Operating system and third-party
    packages are parameters of the model in this form; nothing is assumed about their answers.
  \<^item> Weakest preconditions of the combinators, collected in \<open>go_wp\<close>.
  \<^item> Go's maps, decimal printing, and the functions of \<open>strings\<close> and \<open>path/filepath\<close> in use.
  \<^item> Reachability in a step relation and the invariant rule, as a locale.
\<close>

named_theorems go_wp "weakest precondition equations of the combinators"
named_theorems go_defs "definitions of the combinators, to evaluate a computation"

section \<open>Outcomes and computations\<close>

datatype 'a res = Ok 'a | Err goerr | Panic goerr

type_synonym ('s, 'a) go = "'s \<Rightarrow> 'a res \<times> 's"

definition ret :: "'a \<Rightarrow> ('s, 'a) go" where
  "ret x = (\<lambda>s. (Ok x, s))"

definition throw :: "goerr \<Rightarrow> ('s, 'a) go" where
  "throw e = (\<lambda>s. (Err e, s))"

definition panic :: "goerr \<Rightarrow> ('s, 'a) go" where
  "panic e = (\<lambda>s. (Panic e, s))"

text \<open>\<open>x, err := m; if err != nil { return err }\<close> and then the rest \<open>k x\<close>.\<close>

definition andThen :: "('s, 'a) go \<Rightarrow> ('a \<Rightarrow> ('s, 'b) go) \<Rightarrow> ('s, 'b) go" where
  "andThen m k = (\<lambda>s. case m s of
      (Ok x, s') \<Rightarrow> k x s'
    | (Err e, s') \<Rightarrow> (Err e, s')
    | (Panic e, s') \<Rightarrow> (Panic e, s'))"

text \<open>\<open>x, err := m; if err != nil { return errors.Join(E, err) }\<close> and then \<open>k x\<close>.\<close>

definition wrapErr :: "goerr \<Rightarrow> ('s, 'a) go \<Rightarrow> ('a \<Rightarrow> ('s, 'b) go) \<Rightarrow> ('s, 'b) go" where
  "wrapErr E m k = (\<lambda>s. case m s of
      (Ok x, s') \<Rightarrow> k x s'
    | (Err e, s') \<Rightarrow> (Err (Joined [E, e]), s')
    | (Panic e, s') \<Rightarrow> (Panic e, s'))"

text \<open>\<open>x, err := m\<close> where the code looks at \<open>err\<close> itself: the rest gets both.\<close>

definition attempt :: "('s, 'a) go \<Rightarrow> (goerr + 'a \<Rightarrow> ('s, 'b) go) \<Rightarrow> ('s, 'b) go" where
  "attempt m k = (\<lambda>s. case m s of
      (Ok x, s') \<Rightarrow> k (Inr x) s'
    | (Err e, s') \<Rightarrow> k (Inl e) s'
    | (Panic e, s') \<Rightarrow> (Panic e, s'))"

text \<open>
  \<open>defer d()\<close> in front of \<open>m\<close>: \<open>d\<close> runs after \<open>m\<close> on every outcome, its own error is dropped,
  and a panic in it replaces the outcome.
\<close>

definition deferring :: "('s, unit) go \<Rightarrow> ('s, 'a) go \<Rightarrow> ('s, 'a) go" where
  "deferring d m = (\<lambda>s. case m s of (r, s1) \<Rightarrow>
     (case d s1 of (Panic e, s2) \<Rightarrow> (Panic e, s2) | (_, s2) \<Rightarrow> (r, s2)))"

definition update :: "('s \<Rightarrow> 's) \<Rightarrow> ('s, unit) go" where
  "update f = (\<lambda>s. (Ok (), f s))"

definition reading :: "('s \<Rightarrow> 'a) \<Rightarrow> ('a \<Rightarrow> ('s, 'b) go) \<Rightarrow> ('s, 'b) go" where
  "reading f k = (\<lambda>s. k (f s) s)"

definition whenM :: "bool \<Rightarrow> ('s, unit) go \<Rightarrow> ('s, unit) go" where
  "whenM b m = (if b then m else ret ())"

text \<open>\<open>for _, x := range xs\<close> with a body that may return an error.\<close>

fun forEach :: "'x list \<Rightarrow> ('x \<Rightarrow> ('s, unit) go) \<Rightarrow> ('s, unit) go" where
  "forEach [] f = ret ()"
| "forEach (x # xs) f = andThen (f x) (\<lambda>_. forEach xs f)"

lemmas combinator_defs [go_defs] =
  ret_def throw_def panic_def andThen_def wrapErr_def attempt_def deferring_def update_def
  reading_def whenM_def

section \<open>The world outside\<close>

record 'c world =
  trace :: "('c \<times> bool) list"

record 'c env =
  fails :: "('c \<times> bool) list \<Rightarrow> 'c \<Rightarrow> goerr option"

text \<open>
  \<open>act e c\<close> makes the call \<open>c\<close>: the environment says whether it fails, and the call is recorded
  with whether it succeeded.
  \<open>ask e f c\<close> makes a call that also returns a value, which \<open>f\<close> (a field of the environment)
  computes from the calls made before it.
\<close>

definition record_call :: "('c, 'y) env_scheme \<Rightarrow> 'c \<Rightarrow> ('c, 'z) world_scheme \<Rightarrow> ('c, 'z) world_scheme" where
  "record_call e c w = w\<lparr>trace := trace w @ [(c, fails e (trace w) c = None)]\<rparr>"

definition act :: "('c, 'y) env_scheme \<Rightarrow> 'c \<Rightarrow> (('c, 'z) world_scheme, unit) go" where
  "act e c = (\<lambda>w. (case fails e (trace w) c of None \<Rightarrow> Ok () | Some x \<Rightarrow> Err x, record_call e c w))"

definition ask ::
    "('c, 'y) env_scheme \<Rightarrow> (('c \<times> bool) list \<Rightarrow> 'a) \<Rightarrow> 'c \<Rightarrow> (('c, 'z) world_scheme, 'a) go" where
  "ask e f c = (\<lambda>w. (case fails e (trace w) c of None \<Rightarrow> Ok (f (trace w)) | Some x \<Rightarrow> Err x,
                     record_call e c w))"

text \<open>\<open>_ = f()\<close>: the call is made and its error dropped.\<close>

definition actIgnore :: "('c, 'y) env_scheme \<Rightarrow> 'c \<Rightarrow> (('c, 'z) world_scheme, unit) go" where
  "actIgnore e c = (\<lambda>w. (Ok (), record_call e c w))"

lemmas world_defs [go_defs] = act_def ask_def actIgnore_def record_call_def

text \<open>The calls made, in order, and those of them that succeeded.\<close>

definition called :: "('c, 'z) world_scheme \<Rightarrow> 'c list" where
  "called w = map fst (trace w)"

definition succeeded :: "('c, 'z) world_scheme \<Rightarrow> 'c list" where
  "succeeded w = map fst (filter snd (trace w))"

section \<open>Weakest preconditions\<close>

definition wp :: "('s, 'a) go \<Rightarrow> ('a res \<Rightarrow> 's \<Rightarrow> bool) \<Rightarrow> 's \<Rightarrow> bool" where
  "wp m Q s \<longleftrightarrow> (case m s of (r, s') \<Rightarrow> Q r s')"

lemma wpI: "(\<And>r s'. m s = (r, s') \<Longrightarrow> Q r s') \<Longrightarrow> wp m Q s"
  by (simp add: wp_def split: prod.splits)

lemma wpD: "wp m Q s \<Longrightarrow> m s = (r, s') \<Longrightarrow> Q r s'"
  by (simp add: wp_def)

lemma wp_mono: "wp m Q s \<Longrightarrow> (\<And>r s'. Q r s' \<Longrightarrow> R r s') \<Longrightarrow> wp m R s"
  by (simp add: wp_def split: prod.splits)

lemma wp_conj: "wp m Q s \<Longrightarrow> wp m R s \<Longrightarrow> wp m (\<lambda>r s'. Q r s' \<and> R r s') s"
  by (simp add: wp_def split: prod.splits)

text \<open>
  For a computation nothing is known about: the postcondition holds for every outcome.
\<close>

lemma wp_any:
  "(\<And>x s'. Q (Ok x) s') \<Longrightarrow> (\<And>e s'. Q (Err e) s') \<Longrightarrow> (\<And>e s'. Q (Panic e) s') \<Longrightarrow> wp m Q s"
  by (auto simp: wp_def split: prod.splits intro: res.induct)

text \<open>
  The postconditions a combinator gives its first computation. They are constants with one
  equation per outcome, so that the final postcondition is not copied until an outcome is known.
\<close>

fun thenQ :: "('a \<Rightarrow> ('s, 'b) go) \<Rightarrow> ('b res \<Rightarrow> 's \<Rightarrow> bool) \<Rightarrow> 'a res \<Rightarrow> 's \<Rightarrow> bool" where
  "thenQ k Q (Ok x) s \<longleftrightarrow> wp (k x) Q s"
| "thenQ k Q (Err e) s \<longleftrightarrow> Q (Err e) s"
| "thenQ k Q (Panic e) s \<longleftrightarrow> Q (Panic e) s"

fun wrapQ ::
    "goerr \<Rightarrow> ('a \<Rightarrow> ('s, 'b) go) \<Rightarrow> ('b res \<Rightarrow> 's \<Rightarrow> bool) \<Rightarrow> 'a res \<Rightarrow> 's \<Rightarrow> bool" where
  "wrapQ E k Q (Ok x) s \<longleftrightarrow> wp (k x) Q s"
| "wrapQ E k Q (Err e) s \<longleftrightarrow> Q (Err (Joined [E, e])) s"
| "wrapQ E k Q (Panic e) s \<longleftrightarrow> Q (Panic e) s"

fun attemptQ ::
    "(goerr + 'a \<Rightarrow> ('s, 'b) go) \<Rightarrow> ('b res \<Rightarrow> 's \<Rightarrow> bool) \<Rightarrow> 'a res \<Rightarrow> 's \<Rightarrow> bool" where
  "attemptQ k Q (Ok x) s \<longleftrightarrow> wp (k (Inr x)) Q s"
| "attemptQ k Q (Err e) s \<longleftrightarrow> wp (k (Inl e)) Q s"
| "attemptQ k Q (Panic e) s \<longleftrightarrow> Q (Panic e) s"

fun deferredQ :: "'a res \<Rightarrow> ('a res \<Rightarrow> 's \<Rightarrow> bool) \<Rightarrow> unit res \<Rightarrow> 's \<Rightarrow> bool" where
  "deferredQ r Q (Ok u) s \<longleftrightarrow> Q r s"
| "deferredQ r Q (Err e) s \<longleftrightarrow> Q r s"
| "deferredQ r Q (Panic e) s \<longleftrightarrow> Q (Panic e) s"

definition deferQ ::
    "('s, unit) go \<Rightarrow> ('a res \<Rightarrow> 's \<Rightarrow> bool) \<Rightarrow> 'a res \<Rightarrow> 's \<Rightarrow> bool" where
  "deferQ d Q r s \<longleftrightarrow> wp d (deferredQ r Q) s"

lemma wp_ret [go_wp]: "wp (ret x) Q s \<longleftrightarrow> Q (Ok x) s"
  by (simp add: wp_def ret_def)

lemma wp_throw [go_wp]: "wp (throw e) Q s \<longleftrightarrow> Q (Err e) s"
  by (simp add: wp_def throw_def)

lemma wp_panic [go_wp]: "wp (panic e) Q s \<longleftrightarrow> Q (Panic e) s"
  by (simp add: wp_def panic_def)

lemma wp_andThen [go_wp]: "wp (andThen m k) Q s \<longleftrightarrow> wp m (thenQ k Q) s"
  by (simp add: wp_def andThen_def split: prod.splits res.splits)

lemma wp_wrapErr [go_wp]: "wp (wrapErr E m k) Q s \<longleftrightarrow> wp m (wrapQ E k Q) s"
  by (simp add: wp_def wrapErr_def split: prod.splits res.splits)

lemma wp_attempt [go_wp]: "wp (attempt m k) Q s \<longleftrightarrow> wp m (attemptQ k Q) s"
  by (simp add: wp_def attempt_def split: prod.splits res.splits)

lemma wp_deferring [go_wp]: "wp (deferring d m) Q s \<longleftrightarrow> wp m (deferQ d Q) s"
proof -
  have "deferQ d Q r s1 \<longleftrightarrow> (case d s1 of (Panic e, s2) \<Rightarrow> Q (Panic e) s2 | (_, s2) \<Rightarrow> Q r s2)" for r s1
    by (auto simp: deferQ_def wp_def split: prod.splits res.splits)
  then show ?thesis
    by (auto simp: wp_def deferring_def split: prod.splits res.splits)
qed

lemma deferQ_unfold [go_wp]: "deferQ d Q r s \<longleftrightarrow> wp d (deferredQ r Q) s"
  by (rule deferQ_def)

lemma wp_update [go_wp]: "wp (update f) Q s \<longleftrightarrow> Q (Ok ()) (f s)"
  by (simp add: wp_def update_def)

lemma wp_reading [go_wp]: "wp (reading f k) Q s \<longleftrightarrow> wp (k (f s)) Q s"
  by (simp add: wp_def reading_def)

lemma wp_whenM [go_wp]: "wp (whenM b m) Q s \<longleftrightarrow> (if b then wp m Q s else Q (Ok ()) s)"
  by (simp add: whenM_def wp_ret)

lemma wp_if [go_wp]: "wp (if b then m else m') Q s \<longleftrightarrow> (if b then wp m Q s else wp m' Q s)"
  by simp

lemma wp_let [go_wp]: "wp (let x = a in f x) Q s \<longleftrightarrow> wp (f a) Q s"
  by simp

lemma wp_act [go_wp]:
  "wp (act e c) Q w \<longleftrightarrow> (case fails e (trace w) c of
      None \<Rightarrow> Q (Ok ()) (w\<lparr>trace := trace w @ [(c, True)]\<rparr>)
    | Some x \<Rightarrow> Q (Err x) (w\<lparr>trace := trace w @ [(c, False)]\<rparr>))"
  by (simp add: wp_def act_def record_call_def split: option.splits)

lemma wp_ask [go_wp]:
  "wp (ask e f c) Q w \<longleftrightarrow> (case fails e (trace w) c of
      None \<Rightarrow> Q (Ok (f (trace w))) (w\<lparr>trace := trace w @ [(c, True)]\<rparr>)
    | Some x \<Rightarrow> Q (Err x) (w\<lparr>trace := trace w @ [(c, False)]\<rparr>))"
  by (simp add: wp_def ask_def record_call_def split: option.splits)

lemma wp_actIgnore [go_wp]:
  "wp (actIgnore e c) Q w \<longleftrightarrow>
     Q (Ok ()) (w\<lparr>trace := trace w @ [(c, fails e (trace w) c = None)]\<rparr>)"
  by (simp add: wp_def actIgnore_def record_call_def)

fun loopQ :: "('s \<Rightarrow> bool) \<Rightarrow> ('b res \<Rightarrow> 's \<Rightarrow> bool) \<Rightarrow> unit res \<Rightarrow> 's \<Rightarrow> bool" where
  "loopQ I Q (Ok u) s \<longleftrightarrow> I s"
| "loopQ I Q (Err e) s \<longleftrightarrow> Q (Err e) s"
| "loopQ I Q (Panic e) s \<longleftrightarrow> Q (Panic e) s"

text \<open>The loop rule: an invariant the body keeps as long as it returns no error.\<close>

lemma wp_forEach:
  assumes "I s" and "\<And>x s. x \<in> set xs \<Longrightarrow> I s \<Longrightarrow>
      wp (f x) (loopQ I Q) s"
    and "\<And>s. I s \<Longrightarrow> Q (Ok ()) s"
  shows "wp (forEach xs f) Q s"
  using assms
proof (induction xs arbitrary: s)
  case Nil
  then show ?case by (simp add: wp_ret)
next
  case (Cons x xs)
  have step: "thenQ (\<lambda>_. forEach xs f) Q r s'" if "loopQ I Q r s'" for r s'
    using that Cons by (cases r) auto
  have "wp (f x) (loopQ I Q) s"
    using Cons.prems by simp
  then show ?case
    unfolding forEach.simps wp_andThen by (rule wp_mono) (rule step)
qed

lemma forEach_append:
  "forEach (xs @ ys) f = andThen (forEach xs f) (\<lambda>_. forEach ys f)"
proof (induction xs)
  case Nil
  show ?case by (simp add: fun_eq_iff go_defs)
next
  case (Cons x xs)
  then show ?case
    by (auto simp: fun_eq_iff andThen_def split: prod.splits res.splits)
qed

text \<open>What is read off a computation that returned a value.\<close>

lemma andThen_Ok_iff:
  "andThen m k s = (Ok y, t) \<longleftrightarrow> (\<exists>x s'. m s = (Ok x, s') \<and> k x s' = (Ok y, t))"
  by (auto simp: andThen_def split: prod.splits res.splits)

lemma wrapErr_Ok_iff:
  "wrapErr E m k s = (Ok y, t) \<longleftrightarrow> (\<exists>x s'. m s = (Ok x, s') \<and> k x s' = (Ok y, t))"
  by (auto simp: wrapErr_def split: prod.splits res.splits)

lemma deferring_Ok_iff:
  "deferring d m s = (Ok y, t) \<longleftrightarrow>
     (\<exists>s'. m s = (Ok y, s') \<and> (\<exists>r. d s' = (r, t) \<and> (\<forall>e. r \<noteq> Panic e)))"
  by (auto simp: deferring_def split: prod.splits res.splits)

lemma act_Ok_iff:
  "act e c s = (Ok u, t) \<longleftrightarrow> fails e (trace s) c = None \<and> t = s\<lparr>trace := trace s @ [(c, True)]\<rparr>"
  by (auto simp: act_def record_call_def split: option.splits)

lemma ask_Ok_iff:
  "ask e f c s = (Ok u, t) \<longleftrightarrow>
     fails e (trace s) c = None \<and> u = f (trace s) \<and> t = s\<lparr>trace := trace s @ [(c, True)]\<rparr>"
  by (auto simp: ask_def record_call_def split: option.splits)

lemmas go_Ok_iffs = andThen_Ok_iff wrapErr_Ok_iff deferring_Ok_iff act_Ok_iff ask_Ok_iff

section \<open>What a computation that returns no error has done\<close>

text \<open>
  For a long chain of calls most properties are about the run in which every call succeeded. With
  the postcondition \<open>if_ok P\<close> the branches of the failing calls are closed by the rules, so that
  \<open>intro ok_rules\<close> walks down the one successful path.
\<close>

named_theorems ok_rules "rules for the postcondition if_ok"

definition if_ok :: "('a \<Rightarrow> 's \<Rightarrow> bool) \<Rightarrow> 'a res \<Rightarrow> 's \<Rightarrow> bool" where
  "if_ok P r s \<longleftrightarrow> (case r of Ok x \<Rightarrow> P x s | _ \<Rightarrow> True)"

lemma if_ok_simps [simp]: "if_ok P (Ok x) s = P x s" "if_ok P (Err e) s" "if_ok P (Panic e) s"
  by (simp_all add: if_ok_def)

lemma if_okD: "wp m (if_ok P) s \<Longrightarrow> m s = (Ok x, s') \<Longrightarrow> P x s'"
  by (simp add: wp_def)

lemma if_okI: "(\<And>x s'. m s = (Ok x, s') \<Longrightarrow> P x s') \<Longrightarrow> wp m (if_ok P) s"
  by (simp add: wp_def if_ok_def split: prod.splits res.splits)

lemma if_ok_weaken: "wp m (if_ok R) s \<Longrightarrow> (\<And>x s'. R x s' \<Longrightarrow> P x s') \<Longrightarrow> wp m (if_ok P) s"
  by (auto simp: wp_def if_ok_def split: prod.splits res.splits)

lemma ok_ret [ok_rules]: "P x s \<Longrightarrow> wp (ret x) (if_ok P) s"
  by (simp add: wp_ret)

lemma ok_throw [ok_rules]: "wp (throw e) (if_ok P) s" "wp (panic e) (if_ok P) s"
  by (simp_all add: wp_throw wp_panic)

lemma trace_snoc: "s\<lparr>trace := trace s @ [p]\<rparr> = trace_update (\<lambda>t. t @ [p]) s"
  by (cases s) simp

lemma ok_act [ok_rules]:
  "P () (trace_update (\<lambda>t. t @ [(c, True)]) s) \<Longrightarrow> wp (act e c) (if_ok P) s"
  "P' (f (trace s)) (trace_update (\<lambda>t. t @ [(c, True)]) s) \<Longrightarrow> wp (ask e f c) (if_ok P') s"
  by (simp_all add: wp_act wp_ask trace_snoc split: option.splits)

lemma ok_actIgnore [ok_rules]:
  "(\<And>b. P () (trace_update (\<lambda>t. t @ [(c, b)]) s)) \<Longrightarrow> wp (actIgnore e c) (if_ok P) s"
  by (simp add: wp_actIgnore trace_snoc)

lemma ok_andThen [ok_rules]:
  "wp m (if_ok (\<lambda>x. wp (k x) (if_ok P))) s \<Longrightarrow> wp (andThen m k) (if_ok P) s"
  "wp m (if_ok (\<lambda>x. wp (k x) (if_ok P))) s \<Longrightarrow> wp (wrapErr E m k) (if_ok P) s"
  by (auto simp: wp_def if_ok_def andThen_def wrapErr_def split: prod.splits res.splits)

lemma ok_attempt [ok_rules]:
  "wp m (\<lambda>r s'. case r of Ok x \<Rightarrow> wp (k (Inr x)) (if_ok P) s' | Err e \<Rightarrow> wp (k (Inl e)) (if_ok P) s'
     | Panic e \<Rightarrow> True) s \<Longrightarrow> wp (attempt m k) (if_ok P) s"
  by (auto simp: wp_def attempt_def split: prod.splits res.splits)

text \<open>A deferred function may return an error, which is dropped; only a panic matters.\<close>

definition if_calm :: "('s \<Rightarrow> bool) \<Rightarrow> 'a res \<Rightarrow> 's \<Rightarrow> bool" where
  "if_calm P r s \<longleftrightarrow> (\<exists>e. r = Panic e) \<or> P s"

lemma ok_deferring [ok_rules]:
  "wp m (if_ok (\<lambda>x. wp d (if_calm (P x)))) s \<Longrightarrow> wp (deferring d m) (if_ok P) s"
  by (auto simp: wp_def if_ok_def if_calm_def deferring_def split: prod.splits res.splits)

lemma calm_actIgnore [ok_rules]:
  "(\<And>b. P (trace_update (\<lambda>t. t @ [(c, b)]) s)) \<Longrightarrow> wp (actIgnore e c) (if_calm P) s"
  "(\<And>b. wp (k ()) (if_calm P) (trace_update (\<lambda>t. t @ [(c, b)]) s)) \<Longrightarrow>
     wp (andThen (actIgnore e c) k) (if_calm P) s"
  by (simp_all add: wp_andThen wp_actIgnore trace_snoc if_calm_def)

lemma calm_update [ok_rules]: "P (f s) \<Longrightarrow> wp (update f) (if_calm P) s"
  by (simp add: wp_update if_calm_def)

lemma calm_ret [ok_rules]: "P s \<Longrightarrow> wp (ret x) (if_calm P) s"
  by (simp add: wp_ret if_calm_def)

lemma ok_update [ok_rules]: "P () (f s) \<Longrightarrow> wp (update f) (if_ok P) s"
  by (simp add: wp_update)

lemma ok_reading [ok_rules]: "wp (k (f s)) (if_ok P) s \<Longrightarrow> wp (reading f k) (if_ok P) s"
  by (simp add: wp_reading)

lemma ok_whenM [ok_rules]:
  "(b \<Longrightarrow> wp m (if_ok P) s) \<Longrightarrow> (\<not> b \<Longrightarrow> P () s) \<Longrightarrow> wp (whenM b m) (if_ok P) s"
  by (simp add: wp_whenM)

lemma ok_if [ok_rules]:
  "(b \<Longrightarrow> wp m (if_ok P) s) \<Longrightarrow> (\<not> b \<Longrightarrow> wp m' (if_ok P) s) \<Longrightarrow>
     wp (if b then m else m') (if_ok P) s"
  by simp

lemma ok_let [ok_rules]: "wp (f a) (if_ok P) s \<Longrightarrow> wp (let x = a in f x) (if_ok P) s"
  by simp

lemma ok_option [ok_rules]:
  "(a = None \<Longrightarrow> wp m (if_ok P) s) \<Longrightarrow> (\<And>x. a = Some x \<Longrightarrow> wp (k x) (if_ok P) s) \<Longrightarrow>
     wp (case a of None \<Rightarrow> m | Some x \<Rightarrow> k x) (if_ok P) s"
  by (simp split: option.split)

lemma ok_forEach_upt:
  assumes "I 0 s" and "\<And>i s. i < n \<Longrightarrow> I i s \<Longrightarrow> wp (f i) (if_ok (\<lambda>_. I (Suc i))) s"
    and "\<And>s. I n s \<Longrightarrow> P () s"
  shows "wp (forEach [0..<n] f) (if_ok P) s"
proof -
  have "wp (forEach [0..<n] f) (if_ok (\<lambda>_. I n)) s"
    using assms(2)
  proof (induction n)
    case 0
    then show ?case using assms(1) by (simp add: go_wp)
  next
    case (Suc n)
    have "wp (forEach [0..<n] f) (if_ok (\<lambda>_. I n)) s" using Suc by simp
    then show ?case
      unfolding upt_Suc_append[OF le0] forEach_append
      by (intro ok_rules, elim if_ok_weaken)
        (auto intro!: if_ok_weaken[OF Suc.prems(1)] ok_rules)
  qed
  then show ?thesis using assms(3) by (elim if_ok_weaken) simp
qed

section \<open>Invariants of a computation\<close>

text \<open>
  \<open>keeps I m\<close>: from a state with \<open>I\<close>, \<open>m\<close> ends in one with \<open>I\<close>, whatever it returns, and does not
  panic.
\<close>

named_theorems keeps "computations that keep an invariant"

definition keeps_inv :: "('s \<Rightarrow> bool) \<Rightarrow> ('s, 'a) go \<Rightarrow> bool" where
  "keeps_inv I m \<longleftrightarrow> (\<forall>s. I s \<longrightarrow> wp m (\<lambda>r s'. I s' \<and> (\<forall>x. r \<noteq> Panic x)) s)"

lemma keepsI: "(\<And>s. I s \<Longrightarrow> wp m (\<lambda>r s'. I s' \<and> (\<forall>x. r \<noteq> Panic x)) s) \<Longrightarrow> keeps_inv I m"
  by (simp add: keeps_inv_def)

lemma keeps_wp: "keeps_inv I m \<Longrightarrow> I s \<Longrightarrow> (\<And>r s'. I s' \<Longrightarrow> (\<And>x. r \<noteq> Panic x) \<Longrightarrow> Q r s') \<Longrightarrow> wp m Q s"
  unfolding keeps_inv_def by (drule spec, drule (1) mp, erule wp_mono) auto

lemma keeps_basic [keeps]: "keeps_inv I (ret x)" "keeps_inv I (throw e)"
  by (simp_all add: keeps_inv_def go_wp)

lemma keeps_andThen [keeps]:
  assumes m: "keeps_inv I m"
  shows "(\<And>x. keeps_inv I (k x)) \<Longrightarrow> keeps_inv I (andThen m k)"
    and "(\<And>x. keeps_inv I (k x)) \<Longrightarrow> keeps_inv I (wrapErr E m k)"
    and "(\<And>y. keeps_inv I (h y)) \<Longrightarrow> keeps_inv I (attempt m h)"
proof -
  show "keeps_inv I (andThen m k)" if k: "\<And>x. keeps_inv I (k x)"
    by (rule keepsI, unfold wp_andThen, erule keeps_wp[OF m], rename_tac r s', case_tac r)
      (use k in \<open>auto simp: keeps_inv_def\<close>)
  show "keeps_inv I (wrapErr E m k)" if k: "\<And>x. keeps_inv I (k x)"
    by (rule keepsI, unfold wp_wrapErr, erule keeps_wp[OF m], rename_tac r s', case_tac r)
      (use k in \<open>auto simp: keeps_inv_def\<close>)
  show "keeps_inv I (attempt m h)" if h: "\<And>y. keeps_inv I (h y)"
    by (rule keepsI, unfold wp_attempt, erule keeps_wp[OF m], rename_tac r s', case_tac r)
      (use h in \<open>auto simp: keeps_inv_def\<close>)
qed

lemma keeps_deferring [keeps]:
  assumes "keeps_inv I d" and "keeps_inv I m"
  shows "keeps_inv I (deferring d m)"
  by (rule keepsI, unfold wp_deferring, erule keeps_wp[OF assms(2)], unfold deferQ_def,
      erule keeps_wp[OF assms(1)], rename_tac r s' r' s'', case_tac r')
    auto

lemma keeps_reading [keeps]: "(\<And>x. keeps_inv I (k x)) \<Longrightarrow> keeps_inv I (reading f k)"
  by (simp add: keeps_inv_def wp_reading)

lemma keeps_update [keeps]: "(\<And>s. I s \<Longrightarrow> I (f s)) \<Longrightarrow> keeps_inv I (update f)"
  by (simp add: keeps_inv_def wp_update)

lemma keeps_whenM [keeps]: "keeps_inv I m \<Longrightarrow> keeps_inv I (whenM b m)"
  by (cases b) (simp_all add: whenM_def keeps_basic)

lemma keeps_if [keeps]: "keeps_inv I m \<Longrightarrow> keeps_inv I m' \<Longrightarrow> keeps_inv I (if b then m else m')"
  by (cases b) simp_all

lemma keeps_let [keeps]: "(\<And>x. keeps_inv I (k x)) \<Longrightarrow> keeps_inv I (let x = a in k x)"
  unfolding Let_def by assumption

lemma keeps_option [keeps]:
  "keeps_inv I m \<Longrightarrow> (\<And>y. keeps_inv I (j y)) \<Longrightarrow> keeps_inv I (case ob of None \<Rightarrow> m | Some y \<Rightarrow> j y)"
  by (cases ob) simp_all

lemma keeps_sum [keeps]:
  "(\<And>y. keeps_inv I (j y)) \<Longrightarrow> (\<And>z. keeps_inv I (h z)) \<Longrightarrow>
     keeps_inv I (case sb of Inl y \<Rightarrow> j y | Inr z \<Rightarrow> h z)"
  by (cases sb) simp_all

lemma keeps_prod [keeps]:
  "(\<And>y z. keeps_inv I (g y z)) \<Longrightarrow> keeps_inv I (case pb of (y, z) \<Rightarrow> g y z)"
  by (cases pb) simp

lemma keeps_act [keeps]:
  assumes "\<And>s b. I s \<Longrightarrow> I (trace_update (\<lambda>t. t @ [(c, b)]) s)"
  shows "keeps_inv I (act e c)" "keeps_inv I (ask e f c)" "keeps_inv I (actIgnore e c)"
  by (rule keepsI; simp add: wp_act wp_ask wp_actIgnore trace_snoc assms split: option.split)+

text \<open>A deferred function that turns one invariant back into another.\<close>

lemma wp_restoring:
  assumes "keeps_inv J m" and "J s"
    and "\<And>t. J t \<Longrightarrow> wp d (\<lambda>r t. I t \<and> (\<forall>x. r \<noteq> Panic x)) t"
  shows "wp (deferring d m) (\<lambda>r t. I t \<and> (\<forall>x. r \<noteq> Panic x)) s"
  unfolding wp_deferring deferQ_def
proof (rule keeps_wp[OF assms(1,2)])
  fix r t assume t: "J t" and r: "\<And>x. r \<noteq> Panic x"
  show "wp d (deferredQ r (\<lambda>r t. I t \<and> (\<forall>x. r \<noteq> Panic x))) t"
    by (rule wp_mono[OF assms(3)[OF t]], rename_tac r' t', case_tac r') (use r in auto)
qed

text \<open>
  \<open>stays I m\<close> is the same without the promise not to panic: \<open>I\<close> holds at the end of every run.
\<close>

named_theorems stays "computations that end where an invariant holds"

definition stays_inv :: "('s \<Rightarrow> bool) \<Rightarrow> ('s, 'a) go \<Rightarrow> bool" where
  "stays_inv I m \<longleftrightarrow> (\<forall>s. I s \<longrightarrow> I (snd (m s)))"

lemma staysI: "(\<And>s. I s \<Longrightarrow> wp m (\<lambda>r s'. I s') s) \<Longrightarrow> stays_inv I m"
  by (simp add: stays_inv_def wp_def case_prod_unfold)

lemma stays_wp: "stays_inv I m \<Longrightarrow> I s \<Longrightarrow> (\<And>r s'. I s' \<Longrightarrow> Q r s') \<Longrightarrow> wp m Q s"
  by (cases "m s") (auto simp: stays_inv_def wp_def)

lemma stays_run: "stays_inv I m \<Longrightarrow> m s = (r, s') \<Longrightarrow> I s \<Longrightarrow> I s'"
  unfolding stays_inv_def by (metis snd_conv)

lemma stays_basic [stays]: "stays_inv I (ret x)" "stays_inv I (throw e)" "stays_inv I (panic e)"
  by (simp_all add: stays_inv_def go_defs)

lemma stays_andThen [stays]:
  "stays_inv I m \<Longrightarrow> (\<And>x. stays_inv I (k x)) \<Longrightarrow> stays_inv I (andThen m k)"
  "stays_inv I m \<Longrightarrow> (\<And>x. stays_inv I (k x)) \<Longrightarrow> stays_inv I (wrapErr E m k)"
  by (auto simp: stays_inv_def andThen_def wrapErr_def split: prod.splits res.splits)

lemma stays_attempt [stays]:
  "stays_inv I m \<Longrightarrow> (\<And>y. stays_inv I (h y)) \<Longrightarrow> stays_inv I (attempt m h)"
  by (auto simp: stays_inv_def attempt_def split: prod.splits res.splits)

lemma stays_deferring [stays]: "stays_inv I d \<Longrightarrow> stays_inv I m \<Longrightarrow> stays_inv I (deferring d m)"
  by (auto simp: stays_inv_def deferring_def split: prod.splits res.splits)

lemma stays_reading [stays]: "(\<And>x. stays_inv I (k x)) \<Longrightarrow> stays_inv I (reading f k)"
  by (simp add: stays_inv_def go_defs)

lemma stays_update [stays]: "(\<And>s. I s \<Longrightarrow> I (f s)) \<Longrightarrow> stays_inv I (update f)"
  by (simp add: stays_inv_def go_defs)

lemma stays_whenM [stays]: "(b \<Longrightarrow> stays_inv I m) \<Longrightarrow> stays_inv I (whenM b m)"
  by (cases b) (simp_all add: whenM_def stays_basic)

lemma stays_if [stays]:
  "(b \<Longrightarrow> stays_inv I m) \<Longrightarrow> (\<not> b \<Longrightarrow> stays_inv I m') \<Longrightarrow> stays_inv I (if b then m else m')"
  by (cases b) simp_all

lemma stays_let [stays]: "(\<And>x. stays_inv I (k x)) \<Longrightarrow> stays_inv I (let x = a in k x)"
  unfolding Let_def by assumption

lemma stays_option [stays]:
  "stays_inv I m \<Longrightarrow> (\<And>y. stays_inv I (j y)) \<Longrightarrow> stays_inv I (case ob of None \<Rightarrow> m | Some y \<Rightarrow> j y)"
  by (cases ob) simp_all

lemma stays_sum [stays]:
  "(\<And>y. stays_inv I (j y)) \<Longrightarrow> (\<And>z. stays_inv I (h z)) \<Longrightarrow>
     stays_inv I (case sb of Inl y \<Rightarrow> j y | Inr z \<Rightarrow> h z)"
  by (cases sb) simp_all

lemma stays_prod [stays]:
  "(\<And>y z. stays_inv I (g y z)) \<Longrightarrow> stays_inv I (case pb of (y, z) \<Rightarrow> g y z)"
  by (cases pb) simp

lemma stays_act [stays]:
  assumes "\<And>s b. I s \<Longrightarrow> I (trace_update (\<lambda>t. t @ [(c, b)]) s)"
  shows "stays_inv I (act e c)" "stays_inv I (ask e f c)" "stays_inv I (actIgnore e c)"
  by (rule staysI; simp add: wp_act wp_ask wp_actIgnore trace_snoc assms split: option.split)+

lemma stays_forEach [stays]: "(\<And>x. x \<in> set xs \<Longrightarrow> stays_inv I (f x)) \<Longrightarrow> stays_inv I (forEach xs f)"
  by (induction xs) (auto intro: stays)

section \<open>Computations that only add to the trace\<close>

text \<open>
  Every computation of the model keeps the calls made before it; the rules follow the combinators,
  so that a whole handler is shown to do so by \<open>intro grows\<close>.
\<close>

named_theorems grows "computations that only add to the trace"

definition grows_trace :: "(('c, 'z) world_scheme, 'a) go \<Rightarrow> bool" where
  "grows_trace m \<longleftrightarrow> (\<forall>s. \<exists>tr. trace (snd (m s)) = trace s @ tr)"

lemma grows_wp:
  assumes "grows_trace m" and "\<And>r s' tr. trace s' = trace s @ tr \<Longrightarrow> Q r s'"
  shows "wp m Q s"
proof -
  obtain tr where "trace (snd (m s)) = trace s @ tr"
    using assms(1) unfolding grows_trace_def by blast
  then show ?thesis
    using assms(2) by (cases "m s") (simp add: wp_def)
qed

lemma grows_ret [grows]: "grows_trace (ret x)" "grows_trace (throw e)" "grows_trace (panic e)"
  by (simp_all add: grows_trace_def go_defs)

lemma grows_act [grows]:
  "grows_trace (act e c)" "grows_trace (ask e f c)" "grows_trace (actIgnore e c)"
  by (simp_all add: grows_trace_def go_defs)

lemma grows_update [grows]: "(\<And>s. trace (f s) = trace s) \<Longrightarrow> grows_trace (update f)"
  by (simp add: grows_trace_def go_defs)

lemma grows_reading [grows]: "(\<And>x. grows_trace (k x)) \<Longrightarrow> grows_trace (reading f k)"
  by (simp add: grows_trace_def go_defs)

lemma grows_andThen [grows]:
  "grows_trace m \<Longrightarrow> (\<And>x. grows_trace (k x)) \<Longrightarrow> grows_trace (andThen m k)"
  "grows_trace m \<Longrightarrow> (\<And>x. grows_trace (k x)) \<Longrightarrow> grows_trace (wrapErr E m k)"
  by (auto simp: grows_trace_def andThen_def wrapErr_def split: prod.splits res.splits)
    (metis append.assoc snd_conv)+

lemma grows_attempt [grows]:
  "grows_trace m \<Longrightarrow> (\<And>x. grows_trace (k x)) \<Longrightarrow> grows_trace (attempt m k)"
  by (auto simp: grows_trace_def attempt_def split: prod.splits res.splits)
    (metis append.assoc snd_conv)+

lemma grows_deferring [grows]: "grows_trace d \<Longrightarrow> grows_trace m \<Longrightarrow> grows_trace (deferring d m)"
  by (auto simp: grows_trace_def deferring_def split: prod.splits res.splits)
    (metis append.assoc snd_conv)+

lemma grows_whenM [grows]: "grows_trace m \<Longrightarrow> grows_trace (whenM b m)"
  by (simp add: whenM_def grows)

lemma grows_if [grows]: "grows_trace m \<Longrightarrow> grows_trace m' \<Longrightarrow> grows_trace (if b then m else m')"
  by simp

lemma grows_let [grows]: "(\<And>x. grows_trace (f x)) \<Longrightarrow> grows_trace (let x = a in f x)"
  by simp

lemma grows_option [grows]:
  "grows_trace m \<Longrightarrow> (\<And>x. grows_trace (k x)) \<Longrightarrow> grows_trace (case a of None \<Rightarrow> m | Some x \<Rightarrow> k x)"
  by (simp split: option.split)

lemma grows_sum [grows]:
  "(\<And>x. grows_trace (j x)) \<Longrightarrow> (\<And>x. grows_trace (k x)) \<Longrightarrow>
     grows_trace (case a of Inl x \<Rightarrow> j x | Inr x \<Rightarrow> k x)"
  by (simp split: sum.split)

lemma grows_forEach [grows]: "(\<And>x. grows_trace (f x)) \<Longrightarrow> grows_trace (forEach xs f)"
  by (induction xs) (simp_all add: grows)

section \<open>Go maps\<close>

text \<open>
  A Go map is an association list with distinct keys; the order of the list is one order of
  iteration, which Go leaves open. Writing to a key keeps its place.
\<close>

type_synonym ('k, 'v) gomap = "('k \<times> 'v) list"

definition gm_wf :: "('k, 'v) gomap \<Rightarrow> bool" where
  "gm_wf m \<longleftrightarrow> distinct (map fst m)"

abbreviation gm_get :: "('k, 'v) gomap \<Rightarrow> 'k \<Rightarrow> 'v option" where
  "gm_get m k \<equiv> map_of m k"

abbreviation gm_put :: "'k \<Rightarrow> 'v \<Rightarrow> ('k, 'v) gomap \<Rightarrow> ('k, 'v) gomap" where
  "gm_put k v m \<equiv> AList.update k v m"

lemma keys_map_entry [simp]: "map fst (AList.map_entry n f ds) = map fst ds"
  by (induction ds) auto

lemma gm_wf_map_entry [simp]: "gm_wf (AList.map_entry n f ds) = gm_wf ds"
  by (simp add: gm_wf_def)

lemma keys_map_entry_set [simp]: "fst ` set (AList.map_entry n f ds) = fst ` set ds"
  by (metis keys_map_entry list.set_map)

lemma keys_iff_get: "n \<in> fst ` set m \<longleftrightarrow> gm_get m n \<noteq> None"
  by (simp add: map_of_eq_None_iff)

lemma gm_get_put: "gm_get (gm_put k v m) k' = (if k' = k then Some v else gm_get m k')"
  by (simp add: update_conv')

lemma keys_put_present: "k \<in> fst ` set m \<Longrightarrow> map fst (gm_put k v m) = map fst m"
  by (induction m) auto

lemma gm_put_new: "k \<notin> fst ` set m \<Longrightarrow> gm_put k v m = m @ [(k, v)]"
  by (induction m) auto

lemma gm_wf_put: "gm_wf m \<Longrightarrow> gm_wf (gm_put k v m)"
  by (simp add: gm_wf_def distinct_update)

lemma gm_wf_Nil [simp]: "gm_wf []"
  by (simp add: gm_wf_def)

lemma gm_wf_Cons [simp]: "gm_wf (p # m) \<longleftrightarrow> fst p \<notin> fst ` set m \<and> gm_wf m"
  by (simp add: gm_wf_def)

lemma gm_wf_get: "gm_wf m \<Longrightarrow> gm_get m k = Some v \<longleftrightarrow> (k, v) \<in> set m"
  by (simp add: gm_wf_def)

section \<open>Decimal printing\<close>

fun show_nat :: "nat \<Rightarrow> string" where
  "show_nat n =
     (if n < 10 then [char_of (48 + n)] else show_nat (n div 10) @ [char_of (48 + n mod 10)])"

declare show_nat.simps [simp del]

fun read_digits :: "string \<Rightarrow> nat \<Rightarrow> nat" where
  "read_digits [] acc = acc"
| "read_digits (c # cs) acc = read_digits cs (10 * acc + (of_char c - 48))"

lemma read_digits_append: "read_digits (s @ t) acc = read_digits t (read_digits s acc)"
  by (induction s arbitrary: acc) auto

lemma read_show_nat: "read_digits (show_nat n) 0 = n"
proof (induction n rule: show_nat.induct)
  case (1 n)
  then show ?case
    by (subst show_nat.simps) (auto simp: read_digits_append)
qed

lemma show_nat_inj: "show_nat m = show_nat n \<longleftrightarrow> m = n"
  by (metis read_show_nat)

lemma show_nat_nonempty [simp]: "show_nat n \<noteq> []"
  by (subst show_nat.simps) simp

section \<open>Reachable states\<close>

inductive reaches :: "('s \<Rightarrow> bool) \<Rightarrow> ('s \<Rightarrow> 's \<Rightarrow> bool) \<Rightarrow> 's \<Rightarrow> bool"
  for init step where
  reaches_init: "init s \<Longrightarrow> reaches init step s"
| reaches_step: "reaches init step s \<Longrightarrow> step s t \<Longrightarrow> reaches init step t"

lemma reaches_rtranclp: "step\<^sup>*\<^sup>* s t \<Longrightarrow> reaches init step s \<Longrightarrow> reaches init step t"
proof (induction rule: rtranclp_induct)
  case base
  then show ?case .
next
  case (step u v)
  then show ?case by (blast intro: reaches_step)
qed

text \<open>
  The interface of every component that is modelled as a step relation: its start states, its
  steps and an invariant the start states have and the steps keep.
\<close>

locale invariant_system =
  fixes init :: "'s \<Rightarrow> bool"
    and step :: "'s \<Rightarrow> 's \<Rightarrow> bool"
    and inv :: "'s \<Rightarrow> bool"
  assumes init_inv: "init s \<Longrightarrow> inv s"
    and step_inv: "inv s \<Longrightarrow> step s t \<Longrightarrow> inv t"
begin

lemma reachable_inv: "reaches init step s \<Longrightarrow> inv s"
  by (induction rule: reaches.induct) (blast intro: init_inv step_inv)+

lemma steps_inv: "step\<^sup>*\<^sup>* s t \<Longrightarrow> inv s \<Longrightarrow> inv t"
  by (induction rule: rtranclp_induct) (blast intro: step_inv)+

lemma reachable_implies:
  assumes "reaches init step s" and "\<And>s. inv s \<Longrightarrow> P s"
  shows "P s"
  using assms reachable_inv by blast

end

end
