(* ===== verification/GoStrings.thy ===== *)
theory GoStrings
  imports Prelude
begin

text \<open>
  The functions of Go's \<open>strings\<close> and \<open>path/filepath\<close> the program uses, on byte strings (Unix paths).
\<close>

section \<open>Strings\<close>

text \<open>\<open>strings.Split\<close> with a separator of one byte: one part more than there are separators.\<close>

fun split_on :: "char \<Rightarrow> string \<Rightarrow> string list" where
  "split_on c [] = [[]]"
| "split_on c (x # xs) = (if x = c then [] # split_on c xs
     else (case split_on c xs of [] \<Rightarrow> [[x]] | w # ws \<Rightarrow> (x # w) # ws))"

fun join_with :: "string \<Rightarrow> string list \<Rightarrow> string" where
  "join_with sep [] = []"
| "join_with sep [w] = w"
| "join_with sep (w # v # ws) = w @ sep @ join_with sep (v # ws)"

lemma split_on_not_Nil [simp]: "split_on c s \<noteq> []"
  by (induction s) (auto split: list.splits)

lemma join_split: "join_with [c] (split_on c s) = s"
proof (induction s)
  case (Cons x s)
  obtain w ws where s: "split_on c s = w # ws"
    using split_on_not_Nil[of c s] by (cases "split_on c s") auto
  with Cons show ?case by (cases ws) auto
qed simp

lemma length_split_on: "length (split_on c s) = Suc (count_list s c)"
  by (induction s) (auto split: list.splits)

text \<open>
  \<open>strings.TrimSpace\<close>. The white space that is not ASCII takes two or three bytes in UTF-8; from
  the right the same bytes are met in the opposite order.
\<close>

definition isSpace1 :: "nat \<Rightarrow> bool" where
  "isSpace1 a \<longleftrightarrow> a = 32 \<or> 9 \<le> a \<and> a \<le> 13"

definition isSpace2 :: "nat \<Rightarrow> nat \<Rightarrow> bool" where
  "isSpace2 a b \<longleftrightarrow> a = 194 \<and> (b = 133 \<or> b = 160)"

definition isSpace3 :: "nat \<Rightarrow> nat \<Rightarrow> nat \<Rightarrow> bool" where
  "isSpace3 a b c \<longleftrightarrow> (a, b, c) = (225, 154, 128) \<or> (a, b, c) = (226, 129, 159) \<or>
     (a, b, c) = (227, 128, 128) \<or>
     a = 226 \<and> b = 128 \<and> (128 \<le> c \<and> c \<le> 138 \<or> c = 168 \<or> c = 169 \<or> c = 175)"

fun trimWith :: "(nat \<Rightarrow> nat \<Rightarrow> bool) \<Rightarrow> (nat \<Rightarrow> nat \<Rightarrow> nat \<Rightarrow> bool) \<Rightarrow> string \<Rightarrow> string" where
  "trimWith two three [] = []"
| "trimWith two three [a] = (if isSpace1 (of_char a) then [] else [a])"
| "trimWith two three [a, b] =
     (if isSpace1 (of_char a) then trimWith two three [b]
      else if two (of_char a) (of_char b) then [] else [a, b])"
| "trimWith two three (a # b # c # s) =
     (if isSpace1 (of_char a) then trimWith two three (b # c # s)
      else if two (of_char a) (of_char b) then trimWith two three (c # s)
      else if three (of_char a) (of_char b) (of_char c) then trimWith two three s
      else a # b # c # s)"

definition TrimSpace :: "string \<Rightarrow> string" where
  "TrimSpace s = rev (trimWith (\<lambda>b a. isSpace2 a b) (\<lambda>c b a. isSpace3 a b c)
     (rev (trimWith isSpace2 isSpace3 s)))"

lemmas trim_defs = TrimSpace_def isSpace1_def isSpace2_def isSpace3_def

definition isBlank :: "string \<Rightarrow> bool" where
  "isBlank s \<longleftrightarrow> TrimSpace s = []"

definition HasPrefix :: "string \<Rightarrow> string \<Rightarrow> bool" where
  "HasPrefix s p \<longleftrightarrow> take (length p) s = p"

lemma HasPrefix_iff: "HasPrefix s p \<longleftrightarrow> (\<exists>t. s = p @ t)"
  unfolding HasPrefix_def by (metis append_eq_conv_conj append_take_drop_id)

section \<open>Paths\<close>

text \<open>
  \<open>filepath.Clean\<close>: the elements are kept on a stack; an empty element and \<open>.\<close> are dropped, and
  \<open>..\<close> takes back the element before it, if there is one.
\<close>

fun clean_steps :: "bool \<Rightarrow> string list \<Rightarrow> string list \<Rightarrow> string list" where
  "clean_steps rooted stack [] = rev stack"
| "clean_steps rooted stack (w # ws) =
     (if w = [] \<or> w = ''.'' then clean_steps rooted stack ws
      else if w = ''..'' then
        (case stack of
           [] \<Rightarrow> if rooted then clean_steps rooted [] ws else clean_steps rooted [w] ws
         | w' # rest \<Rightarrow>
             if w' = ''..'' then clean_steps rooted (w # stack) ws else clean_steps rooted rest ws)
      else clean_steps rooted (w # stack) ws)"

definition filepath_Clean :: "string \<Rightarrow> string" where
  "filepath_Clean p = (let rooted = (p \<noteq> [] \<and> hd p = CHR ''/'');
       out = (if rooted then ''/'' else []) @ join_with ''/'' (clean_steps rooted [] (split_on (CHR ''/'') p))
     in if out = [] then ''.'' else out)"

definition filepath_Join :: "string list \<Rightarrow> string" where
  "filepath_Join ws = (let vs = [w \<leftarrow> ws. w \<noteq> []] in
     if vs = [] then [] else filepath_Clean (join_with ''/'' vs))"

definition filepath_Dir :: "string \<Rightarrow> string" where
  "filepath_Dir p = filepath_Clean (rev (dropWhile (\<lambda>c. c \<noteq> CHR ''/'') (rev p)))"

lemmas path_defs = filepath_Clean_def filepath_Join_def filepath_Dir_def

lemma filepath_Clean_nonempty [simp]: "filepath_Clean p \<noteq> []"
  by (simp add: filepath_Clean_def Let_def)

lemma clean_steps_plain:
  "\<forall>w \<in> set ws. w \<noteq> [] \<and> w \<noteq> ''.'' \<and> w \<noteq> ''..'' \<Longrightarrow> clean_steps rooted stack ws = rev stack @ ws"
  by (induction ws arbitrary: stack) auto

end
