(* ===== verification/DeviceNames.thy ===== *)
theory DeviceNames
  imports Prelude
begin

text \<open>
  The names of the devices of a virtual machine and their file names
  (\<^verbatim>\<open>pkg/common/package.go\<close>).
\<close>

definition DeviceKernelName :: string where "DeviceKernelName = ''kernel''"
definition DeviceDiskName :: string where "DeviceDiskName = ''disk''"
definition DeviceStateName :: string where "DeviceStateName = ''state''"
definition DeviceMemoryName :: string where "DeviceMemoryName = ''memory''"
definition DeviceConfigName :: string where "DeviceConfigName = ''config''"
definition DeviceOCIName :: string where "DeviceOCIName = ''oci''"

lemmas device_name_defs =
  DeviceKernelName_def DeviceDiskName_def DeviceStateName_def DeviceMemoryName_def
  DeviceConfigName_def DeviceOCIName_def

definition KnownNames :: "string list" where
  "KnownNames =
     [DeviceKernelName, DeviceDiskName, DeviceStateName, DeviceMemoryName, DeviceConfigName]"

definition DeviceFilenames :: "(string, string) gomap" where
  "DeviceFilenames =
     [(DeviceKernelName, ''vmlinux''), (DeviceDiskName, ''rootfs.ext4''),
      (DeviceStateName, ''state.bin''), (DeviceMemoryName, ''memory.bin''),
      (DeviceConfigName, ''config.json''), (DeviceOCIName, ''oci.ext4'')]"

lemma KnownNames_distinct: "distinct KnownNames"
  by (simp add: KnownNames_def device_name_defs)

lemma DeviceFilenames_wf: "gm_wf DeviceFilenames"
  by (simp add: DeviceFilenames_def device_name_defs)

lemma KnownNames_have_filenames: "n \<in> set KnownNames \<Longrightarrow> gm_get DeviceFilenames n \<noteq> None"
  by (auto simp: KnownNames_def DeviceFilenames_def)

end
