(* ===== verification/Package.thy ===== *)
theory Package
  imports GoStrings DeviceNames "HOL-Library.Sublist"
begin

text \<open>
  Packages (\<^verbatim>\<open>pkg/common/package.go\<close>, \<^verbatim>\<open>cmd/drafter-packager/main.go\<close>): \<open>ArchivePackage\<close> writes
  the files of the devices into a tar archive, compressed with zstd, and \<open>ExtractPackage\<close> takes
  them out again. The archive is the list of its entries in order; \<open>packBytes\<close> and \<open>unpackBytes\<close> are
  the compressed encoding and its inverse, parameters of the model. The environment decides whether a call
  fails; the file system is a map from paths to contents.
\<close>

section \<open>State and calls\<close>

record packager_device =
  dev_Name :: string
  dev_Path :: string

datatype pkg_call =
    CreatePackage string | NewCompressor | StatDevice string | FileInfoHeader string
  | WriteHeader string | OpenDevice string | CopyToArchive string | CloseDevice string
  | CloseArchive | CloseCompressor | ClosePackage
  | OpenPackage string | NewUncompressor | NextHeader | MkdirAll string | CreateOutput string
  | CopyToOutput string | CloseOutput string | CloseUncompressor

type_synonym pkg_trace = "(pkg_call \<times> bool) list"

type_synonym tar_entry = "string \<times> string"

record pkg_env = "pkg_call env" +
  pkgCtxErr :: "pkg_trace \<Rightarrow> goerr option"
  packBytes :: "tar_entry list \<Rightarrow> string"
  brokenPack :: "tar_entry list \<Rightarrow> string"        \<comment> \<open>what is in the file when closing the writers failed\<close>
  unpackBytes :: "string \<Rightarrow> tar_entry list \<times> goerr option" \<comment> \<open>the entries and the error after them, nil for EOF\<close>
  copiedBytes :: "pkg_trace \<Rightarrow> nat"               \<comment> \<open>how much a copy that failed has written\<close>

record pkg_sys = "pkg_call world" +
  files :: "string \<rightharpoonup> string"
  written :: "tar_entry list"
  headerOpen :: bool                              \<comment> \<open>a header was written and not its contents\<close>

definition pkgCheckCtx :: "('y) pkg_env_scheme \<Rightarrow> (('z) pkg_sys_scheme, unit) go" where
  "pkgCheckCtx e =
     reading (\<lambda>s. pkgCtxErr e (trace s)) (\<lambda>r. case r of None \<Rightarrow> ret () | Some x \<Rightarrow> throw x)"

definition putFile :: "string \<Rightarrow> string \<Rightarrow> (('z) pkg_sys_scheme, unit) go" where
  "putFile p d = update (\<lambda>s. s\<lparr>files := (files s)(p \<mapsto> d)\<rparr>)"

section \<open>Archiving\<close>

text \<open>A file that is not there cannot be opened, whatever the environment says.\<close>

definition archiveDevice ::
    "('y) pkg_env_scheme \<Rightarrow> packager_device \<Rightarrow> (('z) pkg_sys_scheme, unit) go" where
  "archiveDevice e d =
     andThen (pkgCheckCtx e) (\<lambda>_.
     wrapErr (PackageErr ErrCouldNotStatDevice) (act e (StatDevice (dev_Path d))) (\<lambda>_.
     wrapErr (PackageErr ErrCouldNotCreateTarHeader) (act e (FileInfoHeader (dev_Path d))) (\<lambda>_.
     wrapErr (PackageErr ErrCouldNotWriteTarHeader) (act e (WriteHeader (dev_Name d))) (\<lambda>_.
     andThen (update (\<lambda>s. s\<lparr>headerOpen := True\<rparr>)) (\<lambda>_.
     wrapErr (PackageErr ErrCouldNotOpenDevice)
       (andThen (act e (OpenDevice (dev_Path d))) (\<lambda>_.
        reading (\<lambda>s. files s (dev_Path d)) (\<lambda>f. case f of None \<Rightarrow> throw (Plain ''no such file or directory'') | Some data \<Rightarrow> ret data)))
       (\<lambda>data.
     attempt (act e (CopyToArchive (dev_Path d))) (\<lambda>r. case r of
       Inl x \<Rightarrow> andThen (actIgnore e (CloseDevice (dev_Path d))) (\<lambda>_.
         throw (Joined [PackageErr ErrCouldNotCopyToArchive, x]))
     | Inr _ \<Rightarrow>
         andThen (update (\<lambda>s. s\<lparr>headerOpen := False, written := written s @ [(dev_Name d, data)]\<rparr>)) (\<lambda>_.
         wrapErr (PackageErr ErrCouldNotOpenDevice) (act e (CloseDevice (dev_Path d))) ret))))))))"

text \<open>
  The deferred calls close the archive, the compressor and the file; their errors are dropped. What
  is in the file then depends on whether closing the two writers worked.
\<close>

definition closeWriters :: "('y) pkg_env_scheme \<Rightarrow> string \<Rightarrow> (('z) pkg_sys_scheme, unit) go" where
  "closeWriters e out =
     attempt (act e CloseArchive) (\<lambda>a. attempt (act e CloseCompressor) (\<lambda>b.
     reading (\<lambda>s. (written s, headerOpen s)) (\<lambda>(es, open).
     putFile out (case (a, b, open) of (Inr _, Inr _, False) \<Rightarrow> packBytes e es | _ \<Rightarrow> brokenPack e es))))"

definition ArchivePackage ::
    "('y) pkg_env_scheme \<Rightarrow> packager_device list \<Rightarrow> string \<Rightarrow> (('z) pkg_sys_scheme, unit) go" where
  "ArchivePackage e devices out =
     wrapErr (PackageErr ErrCouldNotOpenPackageOutputFile) (act e (CreatePackage out)) (\<lambda>_.
     andThen (putFile out []) (\<lambda>_.
     deferring (actIgnore e ClosePackage) (
     wrapErr (PackageErr ErrCouldNotCreateCompressor) (act e NewCompressor) (\<lambda>_.
     andThen (update (\<lambda>s. s\<lparr>written := [], headerOpen := False\<rparr>)) (\<lambda>_.
     deferring (closeWriters e out) (forEach devices (archiveDevice e)))))))"

section \<open>Extracting\<close>

text \<open>
  One device: the entries in front of it are skipped and gone; the entries after it are returned.
  \<open>None\<close> is the end of the archive.
\<close>

definition extractTo ::
    "('y) pkg_env_scheme \<Rightarrow> string \<Rightarrow> string \<Rightarrow> (('z) pkg_sys_scheme, unit) go" where
  "extractTo e p data =
     wrapErr (PackageErr ErrCouldNotCreateOutputDir) (act e (MkdirAll (filepath_Dir p))) (\<lambda>_.
     wrapErr (PackageErr ErrCouldNotOpenOutputFile) (act e (CreateOutput p)) (\<lambda>_.
     andThen (putFile p []) (\<lambda>_.
     attempt (act e (CopyToOutput p)) (\<lambda>r. case r of
       Inl x \<Rightarrow> reading trace (\<lambda>tr. andThen (putFile p (take (copiedBytes e tr) data)) (\<lambda>_.
         andThen (actIgnore e (CloseOutput p)) (\<lambda>_.
         throw (Joined [PackageErr ErrCouldNotCopyToOutput, x]))))
     | Inr _ \<Rightarrow> andThen (putFile p data) (\<lambda>_.
         wrapErr (PackageErr ErrCouldNotOpenOutputFile) (act e (CloseOutput p)) ret)))))"

fun extractDevice ::
    "('y) pkg_env_scheme \<Rightarrow> goerr option \<Rightarrow> packager_device \<Rightarrow> tar_entry list \<Rightarrow>
     (('z) pkg_sys_scheme, tar_entry list option) go" where
  "extractDevice e tail d [] =
     andThen (pkgCheckCtx e) (\<lambda>_.
     attempt (andThen (act e NextHeader) (\<lambda>_. throw (case tail of None \<Rightarrow> IoEOF | Some x \<Rightarrow> x))) (\<lambda>r. case r of
       Inl x \<Rightarrow> if x = IoEOF then ret None else throw (Joined [PackageErr ErrCouldNotReadNextHeader, x])
     | Inr rest \<Rightarrow> ret (Some rest)))"
| "extractDevice e tail d ((name, data) # rest) =
     andThen (pkgCheckCtx e) (\<lambda>_.
     attempt (act e NextHeader) (\<lambda>r. case r of
       Inl x \<Rightarrow> if x = IoEOF then ret None else throw (Joined [PackageErr ErrCouldNotReadNextHeader, x])
     | Inr _ \<Rightarrow>
         if name \<noteq> dev_Name d then extractDevice e tail d rest
         else andThen (extractTo e (dev_Path d) data) (\<lambda>_. ret (Some rest))))"

fun extractAll ::
    "('y) pkg_env_scheme \<Rightarrow> goerr option \<Rightarrow> packager_device list \<Rightarrow> tar_entry list \<Rightarrow>
     (('z) pkg_sys_scheme, unit) go" where
  "extractAll e tail [] rest = ret ()"
| "extractAll e tail (d # ds) rest =
     andThen (extractDevice e tail d rest) (\<lambda>r. case r of
       None \<Rightarrow> throw (Joined [Plain (''missing device: '' @ dev_Name d), PackageErr ErrMissingDevice])
     | Some rest' \<Rightarrow> extractAll e tail ds rest')"

definition ExtractPackage ::
    "('y) pkg_env_scheme \<Rightarrow> string \<Rightarrow> packager_device list \<Rightarrow> (('z) pkg_sys_scheme, unit) go" where
  "ExtractPackage e input devices =
     wrapErr (PackageErr ErrCouldNotOpenPackageInputFile)
       (andThen (act e (OpenPackage input)) (\<lambda>_.
        reading (\<lambda>s. files s input) (\<lambda>f. case f of None \<Rightarrow> throw (Plain ''no such file or directory'') | Some data \<Rightarrow> ret data)))
       (\<lambda>data.
     deferring (actIgnore e ClosePackage) (
     wrapErr (PackageErr ErrCouldNotCreateUncompressor) (act e NewUncompressor) (\<lambda>_.
     deferring (actIgnore e CloseUncompressor) (
     case unpackBytes e data of (entries, tail) \<Rightarrow> extractAll e tail devices entries))))"

section \<open>The command\<close>

definition packagerDefaultDevices :: "packager_device list" where
  "packagerDefaultDevices = map (\<lambda>n. \<lparr>dev_Name = n,
     dev_Path = filepath_Join [''out'', ''package'', case gm_get DeviceFilenames n of None \<Rightarrow> [] | Some f \<Rightarrow> f]\<rparr>)
     KnownNames"

definition packager_main ::
    "('y) pkg_env_scheme \<Rightarrow> goerr + packager_device list \<Rightarrow> string \<Rightarrow> bool \<Rightarrow> (('z) pkg_sys_scheme, unit) go" where
  "packager_main e decoded packagePath extract = (case decoded of
      Inl x \<Rightarrow> panic x
    | Inr devices \<Rightarrow>
        attempt (if extract then ExtractPackage e packagePath devices
                 else ArchivePackage e devices packagePath) (\<lambda>r. case r of
          Inl x \<Rightarrow> panic x
        | Inr _ \<Rightarrow> ret ()))"

section \<open>What the two operations do when nothing fails\<close>

definition quiet_env :: "('y) pkg_env_scheme \<Rightarrow> bool" where
  "quiet_env e \<longleftrightarrow> (\<forall>tr c. fails e tr c = None) \<and> (\<forall>tr. pkgCtxErr e tr = None)"

lemma quiet_envD [simp]:
  "quiet_env e \<Longrightarrow> fails e tr c = None" "quiet_env e \<Longrightarrow> pkgCtxErr e tr = None"
  by (simp_all add: quiet_env_def)

text \<open>What is extracted: the reference. Each device takes the first entry of its name that is left.\<close>

fun extraction :: "packager_device list \<Rightarrow> tar_entry list \<Rightarrow> packager_device + (string \<times> string) list" where
  "extraction [] es = Inr []"
| "extraction (d # ds) es = (case dropWhile (\<lambda>p. fst p \<noteq> dev_Name d) es of
      [] \<Rightarrow> Inl d
    | p # rest \<Rightarrow> (case extraction ds rest of Inl x \<Rightarrow> Inl x | Inr ws \<Rightarrow> Inr ((dev_Path d, snd p) # ws)))"

definition writeFiles :: "(string \<times> string) list \<Rightarrow> (string \<rightharpoonup> string) \<Rightarrow> (string \<rightharpoonup> string)" where
  "writeFiles ws m = fold (\<lambda>(p, d) m. m(p \<mapsto> d)) ws m"

lemma writeFiles_simps [simp]:
  "writeFiles [] m = m" "writeFiles ((p, d) # ws) m = writeFiles ws (m(p \<mapsto> d))"
  by (simp_all add: writeFiles_def)

lemma writeFiles_other: "p \<notin> fst ` set ws \<Longrightarrow> writeFiles ws m p = m p"
  by (induction ws arbitrary: m) auto

lemma writeFiles_at:
  "distinct (map fst ws) \<Longrightarrow> (p, d) \<in> set ws \<Longrightarrow> writeFiles ws m p = Some d"
  by (induction ws arbitrary: m) (auto simp: writeFiles_other)

lemma subseq_Cons_dropWhile:
  "subseq (x # xs) (map fst es) \<longleftrightarrow> (case dropWhile (\<lambda>p. fst p \<noteq> x) es of
      [] \<Rightarrow> False | p # rest \<Rightarrow> subseq xs (map fst rest))"
  by (induction es) (auto simp: subseq_Cons2_iff)

lemma extraction_iff:
  "(\<exists>ws. extraction ds es = Inr ws) \<longleftrightarrow> subseq (map dev_Name ds) (map fst es)"
proof (induction ds arbitrary: es)
  case (Cons d ds)
  show ?case
    by (cases "dropWhile (\<lambda>p. fst p \<noteq> dev_Name d) es")
      (auto simp: subseq_Cons_dropWhile Cons[symmetric] simp del: dropWhile_eq_Nil_conv split: sum.splits)
qed simp

lemma extraction_paths: "extraction ds es = Inr ws \<Longrightarrow> map fst ws = map dev_Path ds"
  by (induction ds arbitrary: es ws) (auto split: list.splits sum.splits)

lemma extraction_same_names:
  "length ds = length es \<Longrightarrow> map dev_Name ds = map fst es \<Longrightarrow>
     extraction ds es = Inr (zip (map dev_Path ds) (map snd es))"
  by (induction ds es rule: list_induct2) auto

lemma extractDevice_quiet:
  fixes e :: "('y) pkg_env_scheme" and s :: "('z) pkg_sys_scheme"
  assumes "quiet_env e"
  shows "wp (extractDevice e None d es) (\<lambda>r s'. case dropWhile (\<lambda>p. fst p \<noteq> dev_Name d) es of
      [] \<Rightarrow> r = Ok None \<and> files s' = files s
    | p # rest \<Rightarrow> r = Ok (Some rest) \<and> files s' = (files s)(dev_Path d \<mapsto> snd p)) s"
proof (induction es arbitrary: s)
  case Nil
  show ?case using assms by (simp add: pkgCheckCtx_def go_wp)
next
  case (Cons p es)
  obtain n data where p: "p = (n, data)" by (cases p)
  have skip: "wp (extractDevice e None d es) Q t" if "files t = files s"
    "\<And>r s'. (case dropWhile (\<lambda>p. fst p \<noteq> dev_Name d) es of
      [] \<Rightarrow> r = Ok None \<and> files s' = files s
    | p # rest \<Rightarrow> r = Ok (Some rest) \<and> files s' = (files s)(dev_Path d \<mapsto> snd p)) \<Longrightarrow> Q r s'" for Q and t :: "('z) pkg_sys_scheme"
    by (rule wp_mono[OF Cons], rule that(2), simp only: that(1))
  show ?case
    using assms
    by (auto simp: p pkgCheckCtx_def extractTo_def putFile_def go_wp intro!: skip)
qed

lemma extractAll_quiet:
  fixes e :: "('y) pkg_env_scheme" and s :: "('z) pkg_sys_scheme"
  assumes "quiet_env e"
  shows "wp (extractAll e None ds es) (\<lambda>r s'. case extraction ds es of
      Inl d \<Rightarrow> r = Err (Joined [Plain (''missing device: '' @ dev_Name d), PackageErr ErrMissingDevice])
    | Inr ws \<Rightarrow> r = Ok () \<and> files s' = writeFiles ws (files s)) s"
proof (induction ds arbitrary: es s)
  case Nil
  show ?case by (simp add: go_wp)
next
  case (Cons d ds)
  show ?case
    unfolding extractAll.simps wp_andThen
  proof (rule wp_mono[OF extractDevice_quiet[OF assms]], goal_cases)
    case (1 r s')
    show ?case
    proof (cases "dropWhile (\<lambda>p. fst p \<noteq> dev_Name d) es")
      case Nil
      show ?thesis using 1[unfolded Nil] unfolding extraction.simps Nil by (simp add: go_wp)
    next
      case (Cons p rest)
      then have r: "r = Ok (Some rest)" and s': "files s' = (files s)(dev_Path d \<mapsto> snd p)"
        using 1 by simp_all
      show ?thesis
        unfolding r thenQ.simps option.simps
        by (rule wp_mono[OF Cons.IH]) (simp add: Cons s' fun_upd_def split: sum.splits)
    qed
  qed
qed

definition archived :: "('z) pkg_sys_scheme \<Rightarrow> packager_device list \<Rightarrow> tar_entry list" where
  "archived s ds = map (\<lambda>d. (dev_Name d, the (files s (dev_Path d)))) ds"

lemma archiveDevice_wp:
  fixes e :: "('y) pkg_env_scheme" and s :: "('z) pkg_sys_scheme"
  assumes "\<And>tr c. c \<noteq> CloseArchive \<Longrightarrow> c \<noteq> CloseCompressor \<Longrightarrow> fails e tr c = None"
    and "\<And>tr. pkgCtxErr e tr = None" and "files s (dev_Path d) = Some data"
  shows "wp (archiveDevice e d) (\<lambda>r s'. r = Ok () \<and> files s' = files s \<and>
      written s' = written s @ [(dev_Name d, data)] \<and> \<not> headerOpen s') s"
  using assms by (simp add: archiveDevice_def pkgCheckCtx_def go_wp)

lemma archiveDevices_wp:
  fixes e :: "('y) pkg_env_scheme" and s :: "('z) pkg_sys_scheme"
  assumes ok: "\<And>tr c. c \<noteq> CloseArchive \<Longrightarrow> c \<noteq> CloseCompressor \<Longrightarrow> fails e tr c = None"
    and ctx: "\<And>tr. pkgCtxErr e tr = None"
    and "\<forall>d \<in> set ds. files s (dev_Path d) \<noteq> None" and "\<not> headerOpen s"
  shows "wp (forEach ds (archiveDevice e)) (\<lambda>r s'. r = Ok () \<and> files s' = files s \<and>
      written s' = written s @ archived s ds \<and> \<not> headerOpen s') s"
  using assms(3,4)
proof (induction ds arbitrary: s)
  case Nil
  then show ?case by (simp add: go_wp archived_def)
next
  case (Cons d ds)
  then obtain data where data: "files s (dev_Path d) = Some data" by auto
  show ?case
    unfolding forEach.simps wp_andThen
  proof (rule wp_mono[OF archiveDevice_wp[OF ok ctx data]])
    fix r and t :: "('z) pkg_sys_scheme"
    assume t: "r = Ok () \<and> files t = files s \<and> written t = written s @ [(dev_Name d, data)] \<and>
      \<not> headerOpen t"
    then have "wp (forEach ds (archiveDevice e)) (\<lambda>r s'. r = Ok () \<and> files s' = files s \<and>
      written s' = written s @ archived s (d # ds) \<and> \<not> headerOpen s') t"
      using Cons.prems by (intro wp_mono[OF Cons.IH]) (auto simp: archived_def data)
    then show "thenQ (\<lambda>_. forEach ds (archiveDevice e)) (\<lambda>r s'. r = Ok () \<and> files s' = files s \<and>
      written s' = written s @ archived s (d # ds) \<and> \<not> headerOpen s') r t"
      using t by simp
  qed
qed

text \<open>Closing the writers: the contents of the package.\<close>

lemma ArchivePackage_wp:
  fixes e :: "('y) pkg_env_scheme" and s :: "('z) pkg_sys_scheme"
  assumes "\<And>tr c. c \<noteq> CloseArchive \<Longrightarrow> c \<noteq> CloseCompressor \<Longrightarrow> fails e tr c = None"
    and "\<And>tr. pkgCtxErr e tr = None"
    and "\<forall>d \<in> set ds. dev_Path d \<noteq> out \<and> files s (dev_Path d) \<noteq> None"
  shows "wp (ArchivePackage e ds out) (\<lambda>r s'. r = Ok () \<and>
      ((\<forall>tr. fails e tr CloseArchive = None \<and> fails e tr CloseCompressor = None) \<longrightarrow>
         files s' = (files s)(out \<mapsto> packBytes e (archived s ds))) \<and>
      ((\<forall>tr. fails e tr CloseArchive \<noteq> None) \<or> (\<forall>tr. fails e tr CloseCompressor \<noteq> None) \<longrightarrow>
         files s' = (files s)(out \<mapsto> brokenPack e (archived s ds)))) s"
proof -
  have same: "archived (s\<lparr>files := (files s)(out \<mapsto> d)\<rparr>) ds = archived s ds" for d
    using assms(3) by (auto simp: archived_def)
  have loop: "wp (forEach ds (archiveDevice e)) Q t"
    if "files t = (files s)(out \<mapsto> [])" "\<not> headerOpen t" "written t = []"
      "\<And>s'. files s' = (files s)(out \<mapsto> []) \<Longrightarrow>
      written s' = archived s ds \<Longrightarrow> \<not> headerOpen s' \<Longrightarrow> Q (Ok ()) s'" for Q and t :: "('z) pkg_sys_scheme"
    by (rule wp_mono[OF archiveDevices_wp[OF assms(1,2)]])
      (use that assms(3) in \<open>auto simp: archived_def\<close>)
  show ?thesis
    unfolding ArchivePackage_def
    by (simp add: go_wp putFile_def assms(1))
      (rule loop, auto simp: closeWriters_def putFile_def go_wp split: option.splits; metis option.distinct(1))
qed


section \<open>Examples\<close>

text \<open>Two device files, and a format that holds one archive.\<close>

definition demo_devices :: "packager_device list" where
  "demo_devices = [\<lparr>dev_Name = ''state'', dev_Path = ''a''\<rparr>, \<lparr>dev_Name = ''disk'', dev_Path = ''b''\<rparr>]"

definition demo_start :: pkg_sys where
  "demo_start = \<lparr>trace = [], files = [''a'' \<mapsto> ''AA'', ''b'' \<mapsto> ''BB'', ''p'' \<mapsto> ''PP''], written = [],
     headerOpen = False\<rparr>"

definition demo_pkg_env :: "pkg_call option \<Rightarrow> pkg_env" where
  "demo_pkg_env bad = \<lparr>fails = (\<lambda>_ c. if Some c = bad then Some (Ext 5) else None), pkgCtxErr = (\<lambda>_. None),
     packBytes = (\<lambda>_. ''PP''), brokenPack = (\<lambda>_. ''P''),
     unpackBytes = (\<lambda>_. ([(''state'', ''AA''), (''disk'', ''BB'')], None)), copiedBytes = (\<lambda>_. 0)\<rparr>"

lemmas demo_pkg_defs = demo_devices_def demo_start_def demo_pkg_env_def quiet_env_def archived_def

section \<open>Properties\<close>

text \<open>
  C19. A package can be taken apart again. If archiving and extracting fail in no call, the device
  files exist and are not the package file, then \<open>ArchivePackage\<close> succeeds, and \<open>ExtractPackage\<close> of
  the same device names in the same order, to distinct new paths, succeeds and each output file
  holds what the device's file held; no other file is changed but the package.
\<close>

theorem package_roundtrip:
  fixes e :: "('y) pkg_env_scheme" and s :: "('z) pkg_sys_scheme"
  assumes "quiet_env e" and "unpackBytes e (packBytes e (archived s ds)) = (archived s ds, None)"
    and "\<forall>d \<in> set ds. dev_Path d \<noteq> out \<and> files s (dev_Path d) \<noteq> None"
    and "map dev_Name ds' = map dev_Name ds" and "distinct (map dev_Path ds')"
  shows "wp (andThen (ArchivePackage e ds out) (\<lambda>_. ExtractPackage e out ds')) (\<lambda>r s'. r = Ok () \<and>
     (\<forall>i < length ds. files s' (dev_Path (ds' ! i)) = files s (dev_Path (ds ! i))) \<and>
     (\<forall>p. p \<noteq> out \<and> p \<notin> dev_Path ` set ds' \<longrightarrow> files s' p = files s p)) s"
proof -
  have len: "length ds' = length ds"
    using assms(4) map_eq_imp_length_eq by blast
  let ?es = "archived s ds" and ?ws = "zip (map dev_Path ds') (map snd (archived s ds))"
  have lens: "length ?es = length ds" by (simp add: archived_def)
  have ext: "extraction ds' ?es = Inr ?ws"
    by (rule extraction_same_names) (simp_all add: archived_def len assms(4))
  have at: "writeFiles ?ws m (dev_Path (ds' ! i)) = files s (dev_Path (ds ! i))" if "i < length ds" for i m
  proof -
    have "?ws ! i = (dev_Path (ds' ! i), the (files s (dev_Path (ds ! i))))"
      using that by (simp add: archived_def len)
    then have "(dev_Path (ds' ! i), the (files s (dev_Path (ds ! i)))) \<in> set ?ws"
      using that lens len by (metis length_map length_zip min.idem nth_mem)
    moreover have "distinct (map fst ?ws)" using assms(5) lens len by simp
    ultimately show ?thesis
      using assms(3) that by (simp add: writeFiles_at)
  qed
  have others: "writeFiles ?ws m p = m p" if "p \<notin> dev_Path ` set ds'" for m p
    using that by (intro writeFiles_other) (auto dest: set_zip_leftD)
  show ?thesis
    unfolding wp_andThen
  proof (rule wp_mono[OF ArchivePackage_wp[of e ds out s]])
    fix r and t :: "('z) pkg_sys_scheme"
    assume "r = Ok () \<and>
      ((\<forall>tr. fails e tr CloseArchive = None \<and> fails e tr CloseCompressor = None) \<longrightarrow>
         files t = (files s)(out \<mapsto> packBytes e ?es)) \<and>
      ((\<forall>tr. fails e tr CloseArchive \<noteq> None) \<or> (\<forall>tr. fails e tr CloseCompressor \<noteq> None) \<longrightarrow>
         files t = (files s)(out \<mapsto> brokenPack e ?es))"
    then have r: "r = Ok ()" and t: "files t = (files s)(out \<mapsto> packBytes e ?es)"
      using assms(1) by simp_all
    show "thenQ (\<lambda>_. ExtractPackage e out ds') (\<lambda>r s'. r = Ok () \<and>
     (\<forall>i < length ds. files s' (dev_Path (ds' ! i)) = files s (dev_Path (ds ! i))) \<and>
     (\<forall>p. p \<noteq> out \<and> p \<notin> dev_Path ` set ds' \<longrightarrow> files s' p = files s p)) r t"
      unfolding r thenQ.simps ExtractPackage_def
      apply (simp add: go_wp assms(1,2) t)
      apply (rule wp_mono[OF extractAll_quiet[OF assms(1)]])
      apply (simp add: ext go_wp at others t)
      done
  qed (use assms in auto)
qed

theorem package_roundtrip_witness:
  "wp (andThen (ArchivePackage (demo_pkg_env None) demo_devices ''p'') (\<lambda>_. ExtractPackage (demo_pkg_env None) ''p''
     [\<lparr>dev_Name = ''state'', dev_Path = ''x''\<rparr>, \<lparr>dev_Name = ''disk'', dev_Path = ''y''\<rparr>]))
     (\<lambda>r s'. r = Ok () \<and> files s' ''x'' = Some ''AA'' \<and> files s' ''y'' = Some ''BB'') demo_start"
proof -
  let ?ds' = "[\<lparr>dev_Name = ''state'', dev_Path = ''x''\<rparr>, \<lparr>dev_Name = ''disk'', dev_Path = ''y''\<rparr>]"
  have "wp (andThen (ArchivePackage (demo_pkg_env None) demo_devices ''p'')
      (\<lambda>_. ExtractPackage (demo_pkg_env None) ''p'' ?ds')) (\<lambda>r s'. r = Ok () \<and>
     (\<forall>i < length demo_devices. files s' (dev_Path (?ds' ! i)) = files demo_start (dev_Path (demo_devices ! i))) \<and>
     (\<forall>p. p \<noteq> ''p'' \<and> p \<notin> dev_Path ` set ?ds' \<longrightarrow> files s' p = files demo_start p)) demo_start"
    by (rule package_roundtrip) (simp_all add: demo_pkg_defs)
  then show ?thesis
    by (rule wp_mono) (auto simp: demo_devices_def demo_start_def less_Suc_eq)
qed

text \<open>
  C35. When no call fails, \<open>ExtractPackage\<close> succeeds exactly when the names of the devices asked for
  are, in their order, among the names of the archive's entries, in theirs; otherwise it returns an
  error that \<open>errors.Is\<close> finds to be \<open>ErrMissingDevice\<close>.
\<close>

theorem ExtractPackage_succeeds_iff:
  fixes e :: "('y) pkg_env_scheme" and s :: "('z) pkg_sys_scheme"
  assumes "quiet_env e" and "files s input = Some data" and "unpackBytes e data = (es, None)"
  shows "wp (ExtractPackage e input ds) (\<lambda>r s'.
     (r = Ok () \<longleftrightarrow> subseq (map dev_Name ds) (map fst es)) \<and>
     (r = Ok () \<or> (\<exists>x. r = Err x \<and> errors_Is (PackageErr ErrMissingDevice) x))) s"
  unfolding ExtractPackage_def
  by (simp add: go_wp assms, rule wp_mono[OF extractAll_quiet[OF assms(1)]])
    (auto simp: extraction_iff[symmetric] go_wp errors_Is_Joined split: sum.splits)

theorem ExtractPackage_succeeds_iff_witness:
  "wp (ExtractPackage (demo_pkg_env None) ''p'' (rev demo_devices)) (\<lambda>r s'. r \<noteq> Ok ()) demo_start"
  using ExtractPackage_succeeds_iff[of "demo_pkg_env None" demo_start "''p''" "''PP''"
      "[(''state'', ''AA''), (''disk'', ''BB'')]" "rev demo_devices"]
  by (auto simp: demo_pkg_defs elim!: wp_mono)

text \<open>
  An error in closing the archive or the compressor, which is when the last of the data is
  written, is lost: every other call succeeding, \<open>ArchivePackage\<close> reports success and leaves a
  package that is not the archive of the devices.
\<close>

theorem archive_close_error_lost:
  fixes e :: "('y) pkg_env_scheme" and s :: "('z) pkg_sys_scheme"
  assumes "\<And>tr c. c \<noteq> CloseArchive \<Longrightarrow> c \<noteq> CloseCompressor \<Longrightarrow> fails e tr c = None"
    and "\<And>tr. pkgCtxErr e tr = None"
    and "\<forall>d \<in> set ds. dev_Path d \<noteq> out \<and> files s (dev_Path d) \<noteq> None"
    and "(\<forall>tr. fails e tr CloseArchive \<noteq> None) \<or> (\<forall>tr. fails e tr CloseCompressor \<noteq> None)"
  shows "wp (ArchivePackage e ds out) (\<lambda>r s'. r = Ok () \<and>
      files s' out = Some (brokenPack e (archived s ds))) s"
  by (rule wp_mono[OF ArchivePackage_wp[OF assms(1,2,3)]]) (use assms(4) in auto)

theorem archive_close_error_lost_witness:
  "wp (ArchivePackage (demo_pkg_env (Some CloseCompressor)) demo_devices ''p'')
     (\<lambda>r s'. r = Ok () \<and> files s' ''p'' = Some ''P'') demo_start"
  using archive_close_error_lost[of "demo_pkg_env (Some CloseCompressor)" demo_devices "''p''" demo_start]
  by (auto simp: demo_pkg_defs elim!: wp_mono)

end
