(* ===== verification/Utils.thy ===== *)
theory Utils
  imports Prelude "HOL-Library.Word" "HOL-Library.Signed_Division"
begin

text \<open>
  The helpers of \<^verbatim>\<open>pkg/utils\<close>: the padding of a block device (\<^verbatim>\<open>padding.go\<close>) in 64-bit signed
  arithmetic, and the loop mount (\<^verbatim>\<open>loop.go\<close>).
\<close>

section \<open>Padding\<close>

definition maximumBlockSize :: "64 word" where "maximumBlockSize = 4096"

text \<open>Go's \<open>/\<close> on \<open>int64\<close> truncates towards zero.\<close>

definition quot64 :: "64 word \<Rightarrow> 64 word \<Rightarrow> 64 word" where
  "quot64 a b = word_of_int (sint a sdiv sint b)"

definition GetBlockDevicePadding :: "64 word \<Rightarrow> 64 word" where
  "GetBlockDevicePadding resourceSize =
     quot64 (resourceSize + maximumBlockSize * 2 - 1) (maximumBlockSize * 2) * maximumBlockSize * 2
       - resourceSize"

lemma sint_small: "0 \<le> i \<Longrightarrow> i < 2 ^ 63 \<Longrightarrow> sint (word_of_int i :: 64 word) = i"
  by (simp add: signed_of_int signed_take_bit_int_eq_self)

lemma padding_int:
  assumes "0 \<le> n" and "n + 8191 < 2 ^ 63"
  shows "GetBlockDevicePadding (word_of_int n) = word_of_int ((n + 8191) div 8192 * 8192 - n)"
proof -
  have sum: "word_of_int n + maximumBlockSize * 2 - 1 = (word_of_int (n + 8191) :: 64 word)"
    by (simp add: maximumBlockSize_def)
  have sint_sum: "sint (word_of_int (n + 8191) :: 64 word) = n + 8191"
    by (rule sint_small) (use assms in simp_all)
  have sint_block: "sint (maximumBlockSize * 2) = 8192"
    using sint_small[of 8192] by (simp add: maximumBlockSize_def)
  have "(n + 8191) sdiv 8192 = (n + 8191) div 8192"
    using assms by (simp add: signed_divide_int_def sgn_if)
  then have q: "quot64 (word_of_int n + maximumBlockSize * 2 - 1) (maximumBlockSize * 2) =
      word_of_int ((n + 8191) div 8192)"
    unfolding quot64_def sum sint_sum sint_block by simp
  show ?thesis
    unfolding GetBlockDevicePadding_def q by (simp add: maximumBlockSize_def)
qed

text \<open>
  The padding of a resource whose size is not within 8191 bytes of the largest \<open>int64\<close> is at
  least 0, less than 8192 and makes the size a multiple of 8192, the least one not below it.
\<close>

theorem padding_correct:
  assumes "0 \<le> n" and "n + 8191 < 2 ^ 63"
  shows "0 \<le> sint (GetBlockDevicePadding (word_of_int n)) \<and>
    sint (GetBlockDevicePadding (word_of_int n)) < 8192 \<and>
    8192 dvd n + sint (GetBlockDevicePadding (word_of_int n))"
proof -
  define p where "p = (n + 8191) div 8192 * 8192 - n"
  have p: "p = 8191 - (n + 8191) mod 8192"
    unfolding p_def by (simp add: minus_mod_eq_div_mult[symmetric])
  then have b: "0 \<le> p" "p < 8192" by auto
  then have "sint (word_of_int p :: 64 word) = p" by (intro sint_small) auto
  then show ?thesis
    using b padding_int[OF assms] by (simp add: p_def)
qed

theorem padding_correct_witness:
  "sint (GetBlockDevicePadding (word_of_int 1)) < 8192 \<and>
    8192 dvd 1 + sint (GetBlockDevicePadding (word_of_int 1))"
  using padding_correct[of 1] by simp

section \<open>Loop mounts\<close>

datatype loop_call = Attach string | Detach string

record loop_env = "loop_call env" +
  attachedPath :: "(loop_call \<times> bool) list \<Rightarrow> string"

record loop_mount = "loop_call world" +
  loop_file :: string
  loop_device :: "string option"

definition NewLoopMount :: "(loop_call \<times> bool) list \<Rightarrow> string \<Rightarrow> loop_mount" where
  "NewLoopMount tr f = \<lparr>trace = tr, loop_file = f, loop_device = None\<rparr>"

definition LoopMount_Open :: "('y) loop_env_scheme \<Rightarrow> (('z) loop_mount_scheme, string) go" where
  "LoopMount_Open e = reading loop_file (\<lambda>f.
     wrapErr (LoopErr ErrCouldNotAttachDevice) (ask e (attachedPath e) (Attach f)) (\<lambda>d.
     andThen (update (\<lambda>s. s\<lparr>loop_device := Some d\<rparr>)) (\<lambda>_. ret d)))"

definition LoopMount_Close :: "('y) loop_env_scheme \<Rightarrow> (('z) loop_mount_scheme, unit) go" where
  "LoopMount_Close e = reading loop_device (\<lambda>d. case d of
      None \<Rightarrow> ret ()
    | Some p \<Rightarrow> wrapErr (LoopErr ErrCouldNotDetachDevice) (act e (Detach p)) ret)"

end
