(* ===== verification/AgentRpc.thy ===== *)
theory AgentRpc
  imports Prelude
begin

text \<open>
  The remote end of an agent (\<^verbatim>\<open>pkg/ipc/agent_rpc.go\<close>, \<^verbatim>\<open>pkg/ipc/agent_client.go\<close>). A listening goroutine handles one
  connection after the other; while a connection is up, its remote is in a channel of capacity one, where
  \<open>GetRemote\<close> takes it out and puts it back. The goroutines interleave, so they are steps of a relation. A
  remote is the number of its connection. The RPC library is a parameter: when a link is ready, ends, and
  whether it has a remote, is left to the steps. The client side runs the same code with a dialling factory in
  place of the accepting one, and does not hand its remote out.
\<close>

section \<open>State\<close>

text \<open>Where the listening goroutine is: in its own loop, or in \<open>handleRPCConnection\<close>.\<close>

datatype listener =
    AtSelect | Connecting
  | Clearing            \<comment> \<open>a connection was accepted, an old remote is removed next\<close>
  | WaitingReady | Finding | Linked
  | Leaving             \<comment> \<open>the deferred function removes the remote next\<close>
  | ShutDown

text \<open>Where a caller of \<open>GetRemote\<close> is.\<close>

datatype caller = NotAsking | Asking | Holding nat | Got nat | TimedOut

record agent_sys =
  remote :: "nat option"          \<comment> \<open>the channel\<close>
  listener_at :: listener
  conns :: nat
  link_up :: bool
  listenCancelled :: bool
  factoryDown :: bool
  callers :: "nat \<Rightarrow> caller"
  announced :: "nat list"         \<comment> \<open>ghost: the remotes that were put into the channel for the first time\<close>

definition StartAgentServer :: agent_sys where
  "StartAgentServer = \<lparr>remote = None, listener_at = AtSelect, conns = 0, link_up = False, listenCancelled = False,
     factoryDown = False, callers = (\<lambda>_. NotAsking), announced = []\<rparr>"

section \<open>The listening goroutine\<close>

inductive listener_step :: "('z) agent_sys_scheme \<Rightarrow> ('z) agent_sys_scheme \<Rightarrow> bool" where
  select_done: "listener_at s = AtSelect \<Longrightarrow> listenCancelled s \<Longrightarrow>
    listener_step s (s\<lparr>listener_at := ShutDown\<rparr>)"
| select_default: "listener_at s = AtSelect \<Longrightarrow> \<not> listenCancelled s \<Longrightarrow>
    listener_step s (s\<lparr>listener_at := Connecting\<rparr>)"
| conn_error: "listener_at s = Connecting \<Longrightarrow> listener_step s (s\<lparr>listener_at := AtSelect\<rparr>)"
| conn_ok: "listener_at s = Connecting \<Longrightarrow> \<not> factoryDown s \<Longrightarrow>
    listener_step s (s\<lparr>listener_at := Clearing, conns := Suc (conns s)\<rparr>)"
| clear_old: "listener_at s = Clearing \<Longrightarrow>
    listener_step s (s\<lparr>listener_at := WaitingReady, remote := None, link_up := True\<rparr>)"
| ready_timeout: "listener_at s = WaitingReady \<Longrightarrow>
    listener_step s (s\<lparr>listener_at := AtSelect, link_up := False\<rparr>)"
| ready: "listener_at s = WaitingReady \<Longrightarrow> listener_step s (s\<lparr>listener_at := Finding\<rparr>)"
| link_ends: "listener_at s \<in> {WaitingReady, Finding, Linked} \<Longrightarrow> listener_step s (s\<lparr>link_up := False\<rparr>)"
| remote_found: "listener_at s = Finding \<Longrightarrow> remote s = None \<Longrightarrow>
    listener_step s (s\<lparr>listener_at := Linked, remote := Some (conns s), announced := announced s @ [conns s]\<rparr>)"
| no_remote_found: "listener_at s = Finding \<Longrightarrow>
    listener_step s (s\<lparr>listener_at := AtSelect\<rparr>)"
| link_done: "listener_at s = Linked \<Longrightarrow> \<not> link_up s \<Longrightarrow>
    listener_step s (s\<lparr>listener_at := Leaving\<rparr>)"
| clear_remote: "listener_at s = Leaving \<Longrightarrow>
    listener_step s (s\<lparr>listener_at := AtSelect, remote := None\<rparr>)"

section \<open>Callers\<close>

definition setCaller :: "nat \<Rightarrow> caller \<Rightarrow> ('z) agent_sys_scheme \<Rightarrow> ('z) agent_sys_scheme" where
  "setCaller c p s = s\<lparr>callers := (callers s)(c := p)\<rparr>"

text \<open>A goroutine may call again when its last call has returned.\<close>

fun resting :: "caller \<Rightarrow> bool" where
  "resting Asking = False"
| "resting (Holding r) = False"
| "resting p = True"

text \<open>\<open>GetRemote\<close>: take the remote, put it back; if there is another one by then, drop it and go on.\<close>

inductive GetRemote_step :: "('z) agent_sys_scheme \<Rightarrow> ('z) agent_sys_scheme \<Rightarrow> bool" where
  ask: "resting (callers s c) \<Longrightarrow> GetRemote_step s (setCaller c Asking s)"
| take_out: "callers s c = Asking \<Longrightarrow> remote s = Some r \<Longrightarrow>
    GetRemote_step s (setCaller c (Holding r) (s\<lparr>remote := None\<rparr>))"
| put_back: "callers s c = Holding r \<Longrightarrow> remote s = None \<Longrightarrow>
    GetRemote_step s (setCaller c (Got r) (s\<lparr>remote := Some r\<rparr>))"
| loop_round: "callers s c = Holding r \<Longrightarrow> remote s \<noteq> None \<Longrightarrow> GetRemote_step s (setCaller c Asking s)"
| time_out: "callers s c = Asking \<Longrightarrow> GetRemote_step s (setCaller c TimedOut s)"

definition AgentRPC_Close :: "('z) agent_sys_scheme \<Rightarrow> ('z) agent_sys_scheme" where
  "AgentRPC_Close s = s\<lparr>listenCancelled := True, factoryDown := True\<rparr>"

inductive agent_step :: "('z) agent_sys_scheme \<Rightarrow> ('z) agent_sys_scheme \<Rightarrow> bool" where
  listener: "listener_step s t \<Longrightarrow> agent_step s t"
| caller: "GetRemote_step s t \<Longrightarrow> agent_step s t"
| close: "agent_step s (AgentRPC_Close s)"

text \<open>The client's \<open>Close\<close> only cancels: its factory has no shutdown.\<close>

definition AgentClient_Close :: "('z) agent_sys_scheme \<Rightarrow> ('z) agent_sys_scheme" where
  "AgentClient_Close s = s\<lparr>listenCancelled := True\<rparr>"

section \<open>A remote is in one place\<close>

text \<open>No remote is held twice; those that are somewhere were announced; they are numbers of connections.\<close>

definition inv_unique :: "('z) agent_sys_scheme \<Rightarrow> bool" where
  "inv_unique s \<longleftrightarrow> (\<forall>r c. callers s c = Holding r \<longrightarrow> remote s \<noteq> Some r \<and> (\<forall>d. callers s d = Holding r \<longrightarrow> d = c))"

definition inv_known :: "('z) agent_sys_scheme \<Rightarrow> bool" where
  "inv_known s \<longleftrightarrow> (\<forall>r. remote s = Some r \<longrightarrow> r \<in> set (announced s)) \<and>
     (\<forall>c r. callers s c = Holding r \<or> callers s c = Got r \<longrightarrow> r \<in> set (announced s))"

definition inv_numbers :: "('z) agent_sys_scheme \<Rightarrow> bool" where
  "inv_numbers s \<longleftrightarrow> distinct (announced s) \<and> (\<forall>r \<in> set (announced s). r \<le> conns s) \<and>
     (listener_at s \<in> {Clearing, WaitingReady, Finding} \<longrightarrow> conns s \<notin> set (announced s))"

definition agent_inv :: "('z) agent_sys_scheme \<Rightarrow> bool" where
  "agent_inv s \<longleftrightarrow> inv_unique s \<and> inv_known s \<and> inv_numbers s"

lemma listener_unique: "listener_step s t \<Longrightarrow> agent_inv s \<Longrightarrow> inv_unique t"
  by (induction rule: listener_step.induct) (auto simp: agent_inv_def inv_unique_def inv_known_def inv_numbers_def)

lemma listener_known: "listener_step s t \<Longrightarrow> inv_known s \<Longrightarrow> inv_known t"
  by (induction rule: listener_step.induct) (auto simp: inv_known_def)

lemma listener_numbers: "listener_step s t \<Longrightarrow> inv_numbers s \<Longrightarrow> inv_numbers t"
  by (induction rule: listener_step.induct) (auto simp: inv_numbers_def)

lemma setCaller_fields [simp]:
  "callers (setCaller c p s) d = (if d = c then p else callers s d)" "remote (setCaller c p s) = remote s"
  "announced (setCaller c p s) = announced s" "conns (setCaller c p s) = conns s"
  "listener_at (setCaller c p s) = listener_at s"
  by (simp_all add: setCaller_def)

lemma caller_numbers: "GetRemote_step s t \<Longrightarrow> inv_numbers s \<Longrightarrow> inv_numbers t"
  by (induction rule: GetRemote_step.induct) (simp_all add: inv_numbers_def)

lemma caller_known: "GetRemote_step s t \<Longrightarrow> inv_known s \<Longrightarrow> inv_known t"
proof (induction rule: GetRemote_step.induct)
  case (put_back s c r)
  then have "r \<in> set (announced s)" unfolding inv_known_def by blast
  with put_back show ?case by (simp add: inv_known_def)
qed (simp_all add: inv_known_def)

lemma caller_unique: "GetRemote_step s t \<Longrightarrow> inv_unique s \<Longrightarrow> inv_unique t"
proof (induction rule: GetRemote_step.induct)
  case (take_out s c r)
  then have "callers s d \<noteq> Holding r" for d unfolding inv_unique_def by metis
  with take_out show ?case by (simp add: inv_unique_def)
next
  case (put_back s c r)
  then have "d = c" if "callers s d = Holding r" for d using that unfolding inv_unique_def by blast
  with put_back show ?case by (auto simp: inv_unique_def)
qed (simp_all add: inv_unique_def)

lemma agent_step_inv: "agent_step s t \<Longrightarrow> agent_inv s \<Longrightarrow> agent_inv t"
proof (induction rule: agent_step.induct)
  case (listener s t)
  then have "inv_known s" "inv_numbers s" by (simp_all add: agent_inv_def)
  then show ?case
    unfolding agent_inv_def
    by (intro conjI listener_unique[OF listener] listener_known[OF listener(1)] listener_numbers[OF listener(1)])
next
  case (caller s t)
  then have "inv_unique s" "inv_known s" "inv_numbers s" by (simp_all add: agent_inv_def)
  then show ?case
    unfolding agent_inv_def
    by (intro conjI caller_unique[OF caller(1)] caller_known[OF caller(1)] caller_numbers[OF caller(1)])
next
  case (close s)
  then show ?case
    by (simp add: agent_inv_def AgentRPC_Close_def inv_unique_def inv_known_def inv_numbers_def)
qed

interpretation agent: invariant_system "\<lambda>s. s = StartAgentServer" agent_step agent_inv
proof unfold_locales
  show "agent_inv s" if "s = StartAgentServer" for s
    using that by (simp add: agent_inv_def inv_unique_def inv_known_def inv_numbers_def StartAgentServer_def)
qed (rule agent_step_inv)

section \<open>What a caller gets\<close>

text \<open>The connection is up for its caller, and no remote of an earlier one is about.\<close>

definition current :: "('z) agent_sys_scheme \<Rightarrow> bool" where
  "current s \<longleftrightarrow> listener_at s = Linked \<and> (\<forall>r. remote s = Some r \<longrightarrow> r = conns s) \<and>
     (\<forall>c r. callers s c = Holding r \<longrightarrow> r = conns s)"

lemma current_listener:
  "listener_step s t \<Longrightarrow> current s \<Longrightarrow> listener_at t = Linked \<Longrightarrow> current t"
  by (induction rule: listener_step.induct) (auto simp: current_def)

lemma currentD:
  "current s \<Longrightarrow> remote s = Some r \<Longrightarrow> r = conns s"
  "current s \<Longrightarrow> callers s c = Holding r \<Longrightarrow> r = conns s"
  unfolding current_def by blast+

lemma currentI:
  "listener_at s = Linked \<Longrightarrow> (\<And>r. remote s = Some r \<Longrightarrow> r = conns s) \<Longrightarrow>
   (\<And>c r. callers s c = Holding r \<Longrightarrow> r = conns s) \<Longrightarrow> current s"
  unfolding current_def by blast

lemma current_caller:
  assumes "GetRemote_step s t" and c: "current s"
  shows "current t"
proof -
  have l: "listener_at s = Linked" using c unfolding current_def by blast
  note held = currentD[OF c]
  from assms(1) show ?thesis
    by cases (rule currentI; use l in \<open>auto dest: held split: if_splits\<close>)+
qed

lemma got_current:
  "GetRemote_step s t \<Longrightarrow> current s \<Longrightarrow> callers t c = Got r \<Longrightarrow> callers s c = Got r \<or> r = conns s"
  by (induction rule: GetRemote_step.induct) (auto simp: current_def split: if_splits)


section \<open>Examples\<close>

text \<open>A first connection is announced, a caller takes its remote, and the connection ends.\<close>

definition demo_linked :: agent_sys where
  "demo_linked = StartAgentServer\<lparr>listener_at := Linked, conns := 1, link_up := True, remote := Some 1, announced := [1],
     callers := (\<lambda>_. NotAsking)(0 := Asking)\<rparr>"

lemma demo_linked_reached: "reaches (\<lambda>s. s = StartAgentServer) agent_step demo_linked"
proof -
  let ?R = "reaches (\<lambda>s. s = StartAgentServer) agent_step"
  have "?R StartAgentServer" by (rule reaches_init) simp
  then have "?R (setCaller 0 Asking StartAgentServer)"
    by (rule reaches_step) (intro agent_step.caller GetRemote_step.ask; simp add: StartAgentServer_def)
  then have "?R ((setCaller 0 Asking StartAgentServer)\<lparr>listener_at := Connecting\<rparr>)"
    by (rule reaches_step) (intro agent_step.listener select_default; simp add: setCaller_def StartAgentServer_def)
  then have "?R ((setCaller 0 Asking StartAgentServer)\<lparr>listener_at := Clearing, conns := 1\<rparr>)"
    by (rule reaches_step, intro agent_step.listener)
      (use conn_ok[of "(setCaller 0 Asking StartAgentServer)\<lparr>listener_at := Connecting\<rparr>"] in
        \<open>simp add: setCaller_def StartAgentServer_def\<close>)
  then have "?R ((setCaller 0 Asking StartAgentServer)\<lparr>listener_at := WaitingReady, conns := 1, link_up := True\<rparr>)"
    by (rule reaches_step, intro agent_step.listener)
      (use clear_old[of "(setCaller 0 Asking StartAgentServer)\<lparr>listener_at := Clearing, conns := 1\<rparr>"] in
        \<open>simp add: setCaller_def StartAgentServer_def\<close>)
  then have "?R ((setCaller 0 Asking StartAgentServer)\<lparr>listener_at := Finding, conns := 1, link_up := True\<rparr>)"
    by (rule reaches_step, intro agent_step.listener)
      (use ready[of "(setCaller 0 Asking StartAgentServer)\<lparr>listener_at := WaitingReady, conns := 1, link_up := True\<rparr>"] in
        \<open>simp add: setCaller_def StartAgentServer_def\<close>)
  then show ?thesis
    by (rule reaches_step, intro agent_step.listener)
      (use remote_found[of "(setCaller 0 Asking StartAgentServer)\<lparr>listener_at := Finding, conns := 1, link_up := True\<rparr>"] in
        \<open>simp add: setCaller_def StartAgentServer_def demo_linked_def\<close>)
qed

definition demo_held :: agent_sys where
  "demo_held = setCaller 0 (Holding 1) (demo_linked\<lparr>remote := None\<rparr>)"

lemma demo_take: "agent_step demo_linked demo_held"
  unfolding demo_held_def by (intro agent_step.caller take_out) (simp_all add: demo_linked_def)

lemma demo_held_reached: "reaches (\<lambda>s. s = StartAgentServer) agent_step demo_held"
  by (rule reaches_step[OF demo_linked_reached demo_take])

lemma demo_current: "current demo_linked" "current demo_held"
  by (simp_all add: current_def demo_held_def demo_linked_def StartAgentServer_def setCaller_def)

definition demo_given :: agent_sys where
  "demo_given = setCaller 0 (Got 1) (demo_held\<lparr>remote := Some 1\<rparr>)"

lemma demo_give: "agent_step demo_held demo_given"
  unfolding demo_given_def
  by (intro agent_step.caller put_back) (simp_all add: demo_held_def)


text \<open>The same caller, when the connection ends before it puts the remote back.\<close>

definition demo_stale :: agent_sys where
  "demo_stale = setCaller 0 (Got 1)
     (demo_held\<lparr>link_up := False, listener_at := AtSelect, remote := Some 1\<rparr>)"

lemma demo_stale_reached: "reaches (\<lambda>s. s = StartAgentServer) agent_step demo_stale"
proof -
  let ?R = "reaches (\<lambda>s. s = StartAgentServer) agent_step"
  have "?R (demo_held\<lparr>link_up := False\<rparr>)"
    by (rule reaches_step[OF demo_held_reached], intro agent_step.listener link_ends)
      (simp add: demo_held_def demo_linked_def)
  then have "?R (demo_held\<lparr>link_up := False, listener_at := Leaving\<rparr>)"
    by (rule reaches_step, intro agent_step.listener)
      (use link_done[of "demo_held\<lparr>link_up := False\<rparr>"] in \<open>simp add: demo_held_def demo_linked_def\<close>)
  then have "?R (demo_held\<lparr>link_up := False, listener_at := AtSelect, remote := None\<rparr>)"
    by (rule reaches_step, intro agent_step.listener)
      (use clear_remote[of "demo_held\<lparr>link_up := False, listener_at := Leaving\<rparr>"] in \<open>simp\<close>)
  then show ?thesis
    by (rule reaches_step, intro agent_step.caller)
      (use put_back[of "demo_held\<lparr>link_up := False, listener_at := AtSelect, remote := None\<rparr>" 0 1] in
        \<open>simp add: demo_stale_def demo_held_def\<close>)
qed

text \<open>A caller that starts after the connection ended gets its remote too.\<close>

lemma stale_given_again: "GetRemote_step\<^sup>*\<^sup>* demo_stale (setCaller 7 (Got 1) demo_stale)"
proof -
  have s: "callers demo_stale 7 = NotAsking" "remote demo_stale = Some 1"
    by (simp_all add: demo_stale_def demo_held_def demo_linked_def)
  let ?asking = "setCaller 7 Asking demo_stale"
  let ?holding = "setCaller 7 (Holding 1) (?asking\<lparr>remote := None\<rparr>)"
  have "GetRemote_step demo_stale ?asking" by (rule ask) (simp add: s)
  moreover have "GetRemote_step ?asking ?holding" by (rule take_out) (simp_all add: s)
  moreover have "GetRemote_step ?holding (setCaller 7 (Got 1) (?holding\<lparr>remote := Some 1\<rparr>))"
    by (rule put_back) simp_all
  moreover have "setCaller 7 (Got 1) (?holding\<lparr>remote := Some 1\<rparr>) = setCaller 7 (Got 1) demo_stale"
    by (simp add: setCaller_def demo_stale_def)
  ultimately show ?thesis by (metis (no_types, lifting) rtranclp.simps)
qed

text \<open>
  C40. The remote of a connection that has ended can come back. A state is reachable where no connection is
  being handled or up, the channel holds the remote of the ended one, and a call that began after the end has
  returned it.
\<close>

theorem GetRemote_may_return_ended:
  "\<exists>s t. reaches (\<lambda>s. s = StartAgentServer) agent_step s \<and> listener_at s = AtSelect \<and> \<not> link_up s \<and>
     callers s 7 = NotAsking \<and> GetRemote_step\<^sup>*\<^sup>* s t \<and> callers t 7 = Got (conns s) \<and> remote t = Some (conns s)"
proof (intro exI conjI)
  show "reaches (\<lambda>s. s = StartAgentServer) agent_step demo_stale" by (rule demo_stale_reached)
  show "GetRemote_step\<^sup>*\<^sup>* demo_stale (setCaller 7 (Got 1) demo_stale)" by (rule stale_given_again)
qed (simp_all add: demo_stale_def demo_held_def demo_linked_def setCaller_def)

end
