(* ===== verification/Vsock.thy ===== *)
theory Vsock
  imports Prelude "HOL-Library.Word"
begin

text \<open>
  Sockets between the guest and the host (\<^verbatim>\<open>pkg/runtimes/firecracker/vsock/conn.go\<close>, \<^verbatim>\<open>dialer.go\<close>), the ping by
  which the guest reports that it is up (\<^verbatim>\<open>SendLivenessPing\<close> in \<^verbatim>\<open>pkg/ipc/liveness.go\<close>) and the program that sends it
  (\<^verbatim>\<open>cmd/drafter-liveness/main.go\<close>). The system calls are those of the trace; what \<open>socket\<close>, \<open>read\<close> and
  \<open>write\<close> return is a parameter.
\<close>

section \<open>State\<close>

datatype vs_call =
    UnixSocket | UnixConnect nat "32 word" "32 word" | UnixShutdown nat | UnixClose nat
  | UnixRead nat nat | UnixWrite nat nat

type_synonym vs_trace = "(vs_call \<times> bool) list"

record vs_env = "vs_call env" +
  newFd :: "vs_trace \<Rightarrow> nat"
  transferred :: "vs_trace \<Rightarrow> int"     \<comment> \<open>the count that \<open>read\<close> or \<open>write\<close> returns, with or without an error\<close>

type_synonym vs_sys = "vs_call world"

record vsock_conn =
  conn_fd :: nat

section \<open>A connection\<close>

text \<open>An error about the descriptor is reported as that of a closed connection.\<close>

definition closedErr :: "goerr \<Rightarrow> goerr" where
  "closedErr err = (if errors_Is UnixEBADF err
     then Joined [NetErrClosed, VsockConnErr ErrVSockConnectionBadFileDescriptor, err] else err)"

text \<open>A count and an error are returned together; the count is that of the system call.\<close>

definition conn_Read ::
    "('y) vs_env_scheme \<Rightarrow> vsock_conn \<Rightarrow> nat \<Rightarrow> ((vs_call, 'z) world_scheme, int \<times> goerr option) go" where
  "conn_Read e c len = reading trace (\<lambda>tr. let n = transferred e tr in
     attempt (act e (UnixRead (conn_fd c) len)) (\<lambda>r. case r of
       Inl err \<Rightarrow> ret (n, Some (closedErr err))
     | Inr _ \<Rightarrow> if n = 0 then ret (0, Some IoEOF) else ret (n, None)))"

definition conn_Write ::
    "('y) vs_env_scheme \<Rightarrow> vsock_conn \<Rightarrow> nat \<Rightarrow> ((vs_call, 'z) world_scheme, int \<times> goerr option) go" where
  "conn_Write e c len = reading trace (\<lambda>tr. let n = transferred e tr in
     attempt (act e (UnixWrite (conn_fd c) len)) (\<lambda>r. case r of
       Inl err \<Rightarrow> ret (n, Some (closedErr err))
     | Inr _ \<Rightarrow> ret (n, None)))"

definition conn_Close :: "('y) vs_env_scheme \<Rightarrow> vsock_conn \<Rightarrow> ((vs_call, 'z) world_scheme, unit) go" where
  "conn_Close e c =
     attempt (act e (UnixShutdown (conn_fd c))) (\<lambda>r. case r of
       Inl err \<Rightarrow> attempt (act e (UnixClose (conn_fd c))) (\<lambda>r. case r of
           Inl x \<Rightarrow> throw (Joined
             [VsockConnErr ErrCouldNotCloseVSockConn, VsockConnErr ErrCouldNotShutdownVSockConnection, x, err])
         | Inr _ \<Rightarrow> throw (Joined [VsockConnErr ErrCouldNotShutdownVSockConnection, err]))
     | Inr _ \<Rightarrow> wrapErr (VsockConnErr ErrCouldNotCloseVSockConn) (act e (UnixClose (conn_fd c))) ret)"

section \<open>Dialling\<close>

text \<open>What the \<open>select\<close> finds first: the context is done, or the connecting goroutine has a result.\<close>

datatype dial_event = DialCtxDone | ConnectReturned

definition errIn :: "goerr + unit \<Rightarrow> goerr list" where
  "errIn r = (case r of Inl x \<Rightarrow> [x] | Inr _ \<Rightarrow> [])"

definition DialContext ::
    "('y) vs_env_scheme \<Rightarrow> dial_event \<Rightarrow> 32 word \<Rightarrow> 32 word \<Rightarrow> ((vs_call, 'z) world_scheme, vsock_conn) go" where
  "DialContext e ev cid port =
     wrapErr (VsockDialErr ErrVSockSocketCreationFailed) (ask e (newFd e) UnixSocket) (\<lambda>fd. case ev of
       DialCtxDone \<Rightarrow>
         attempt (act e (UnixShutdown fd)) (\<lambda>errShutdown.
         attempt (act e (UnixClose fd)) (\<lambda>errClose.
         throw (Joined (VsockConnErr ErrCouldNotCloseVSockConn # errIn errShutdown @ errIn errClose))))
     | ConnectReturned \<Rightarrow>
         wrapErr (VsockDialErr ErrVSockConnectFailed) (act e (UnixConnect fd cid port)) (\<lambda>_. ret \<lparr>conn_fd = fd\<rparr>))"

text \<open>The connection is not closed: it is reset when the machine's state is loaded.\<close>

definition SendLivenessPing ::
    "('y) vs_env_scheme \<Rightarrow> dial_event \<Rightarrow> 32 word \<Rightarrow> 32 word \<Rightarrow> ((vs_call, 'z) world_scheme, unit) go" where
  "SendLivenessPing e ev cid port =
     wrapErr (LivenessErr ErrCouldNotDialLivenessVSockConnection) (DialContext e ev cid port) (\<lambda>_. ret ())"

definition VSockCIDHost :: "32 word" where "VSockCIDHost = 2"

text \<open>The program ends without an error whether or not the host was reached.\<close>

definition liveness_main ::
    "('y) vs_env_scheme \<Rightarrow> dial_event \<Rightarrow> int \<Rightarrow> ((vs_call, 'z) world_scheme, unit) go" where
  "liveness_main e ev vsockPort =
     attempt (SendLivenessPing e ev VSockCIDHost (word_of_int vsockPort)) (\<lambda>_. ret ())"

section \<open>Descriptors\<close>

text \<open>The descriptors that were handed out, or closed, by the calls made so far.\<close>

definition closedFds :: "(vs_call, 'z) world_scheme \<Rightarrow> nat list" where
  "closedFds s = List.map_filter (\<lambda>c. case c of UnixClose fd \<Rightarrow> Some fd | _ \<Rightarrow> None) (called s)"

lemma closedFds_snoc [simp]:
  "closedFds (s\<lparr>trace := trace s @ tr\<rparr>) =
     closedFds s @ List.map_filter (\<lambda>c. case c of UnixClose fd \<Rightarrow> Some fd | _ \<Rightarrow> None) (map fst tr)"
  by (simp add: closedFds_def called_def map_filter_def)

text \<open>A read or write that fails with the count \<open>-1\<close>, as the system call does, returns that count.\<close>

lemma conn_Read_negative:
  assumes "fails e (trace s) (UnixRead (conn_fd c) len) = Some x" and "transferred e (trace s) = - 1"
  shows "wp (conn_Read e c len) (\<lambda>r _. r = Ok (- 1, Some (closedErr x))) s"
  using assms by (simp add: conn_Read_def Let_def go_wp)

text \<open>A reader that asks for data and gets a count of zero knows that there is none.\<close>

lemma conn_Read_outcomes:
  "wp (conn_Read e c len) (\<lambda>r s'. \<exists>n err. r = Ok (n, err) \<and> closedFds s' = closedFds s \<and>
     (err = None \<longrightarrow> n \<noteq> 0 \<and> n = transferred e (trace s)) \<and>
     (\<forall>x. err = Some x \<and> errors_Is UnixEBADF x \<longrightarrow> errors_Is NetErrClosed x)) s"
  by (auto simp: conn_Read_def closedErr_def Let_def go_wp map_filter_def errors_Is_Joined simp del: errors_Is.simps(1)
      split: option.split)

text \<open>
  Who owns a descriptor. If dialling returns a connection, it is connected and its descriptor is open. If the
  context ended first, the descriptor was closed. If connecting failed, the descriptor is left open although no
  connection is returned. Closing a connection closes its descriptor exactly once whatever fails, and returns no
  error exactly when both calls succeeded.
\<close>

theorem descriptors_owned:
  fixes s :: "(vs_call, 'z) world_scheme"
  shows "wp (DialContext e ev cid port) (\<lambda>r s'. let fd = newFd e (trace s); opened = (UnixSocket, True) in
       r = Ok \<lparr>conn_fd = fd\<rparr> \<and> trace s' = trace s @ [opened, (UnixConnect fd cid port, True)] \<or>
       (\<exists>x. r = Err x \<and>
         (trace s' = trace s @ [(UnixSocket, False)] \<or>
          ev = DialCtxDone \<and> closedFds s' = closedFds s @ [fd] \<or>
          ev = ConnectReturned \<and> trace s' = trace s @ [opened, (UnixConnect fd cid port, False)]))) s \<and>
     wp (conn_Close e c) (\<lambda>r s'. closedFds s' = closedFds s @ [conn_fd c] \<and>
       (r = Ok () \<longleftrightarrow> trace s' = trace s @ [(UnixShutdown (conn_fd c), True), (UnixClose (conn_fd c), True)]) \<and>
       (\<forall>x. r \<noteq> Panic x)) s"
proof (intro conjI)
  show "wp (DialContext e ev cid port) (\<lambda>r s'. let fd = newFd e (trace s); opened = (UnixSocket, True) in
       r = Ok \<lparr>conn_fd = fd\<rparr> \<and> trace s' = trace s @ [opened, (UnixConnect fd cid port, True)] \<or>
       (\<exists>x. r = Err x \<and>
         (trace s' = trace s @ [(UnixSocket, False)] \<or>
          ev = DialCtxDone \<and> closedFds s' = closedFds s @ [fd] \<or>
          ev = ConnectReturned \<and> trace s' = trace s @ [opened, (UnixConnect fd cid port, False)]))) s"
    by (cases ev) (simp_all add: DialContext_def Let_def go_wp closedFds_def called_def map_filter_def split: option.split)
  show "wp (conn_Close e c) (\<lambda>r s'. closedFds s' = closedFds s @ [conn_fd c] \<and>
       (r = Ok () \<longleftrightarrow> trace s' = trace s @ [(UnixShutdown (conn_fd c), True), (UnixClose (conn_fd c), True)]) \<and>
       (\<forall>x. r \<noteq> Panic x)) s"
    by (simp add: conn_Close_def go_wp closedFds_def called_def map_filter_def split: option.split)
qed

text \<open>The ping succeeds exactly when the guest is connected; the program that sends it never fails.\<close>

lemma SendLivenessPing_connects:
  "wp (SendLivenessPing e ev cid port) (\<lambda>r s'. r = Ok () \<longleftrightarrow>
     (\<exists>fd. trace s' = trace s @ [(UnixSocket, True), (UnixConnect fd cid port, True)])) s"
  by (cases ev) (auto simp: SendLivenessPing_def DialContext_def go_wp split: option.splits)

lemma liveness_main_ends: "wp (liveness_main e ev port) (\<lambda>r _. r = Ok ()) s"
  by (cases ev) (simp_all add: liveness_main_def SendLivenessPing_def DialContext_def go_wp split: option.split)

end
