(* ===== verification/AgentClient.thy ===== *)
theory AgentClient
  imports AgentRpc GoStrings Vsock
begin

text \<open>
  The guest's end of the agent (\<^verbatim>\<open>pkg/ipc/agent_client.go\<close>) and the program that runs in the guest
  (\<^verbatim>\<open>cmd/drafter-agent/main.go\<close>). The client's goroutine runs the code of the listening one, with dialling in place of
  accepting; its remote is never handed out. What the host may call are two shell commands.
\<close>

section \<open>What the host can call\<close>

record 's agent_client_local =
  acl_beforeSuspend :: "('s, unit) go"
  acl_afterResume :: "('s, unit) go"

definition NewAgentClient :: "('s, unit) go \<Rightarrow> ('s, unit) go \<Rightarrow> 's agent_client_local" where
  "NewAgentClient beforeSuspend afterResume = \<lparr>acl_beforeSuspend = beforeSuspend, acl_afterResume = afterResume\<rparr>"

definition BeforeSuspend :: "('s, 'y) agent_client_local_scheme \<Rightarrow> ('s, unit) go" where
  "BeforeSuspend l = acl_beforeSuspend l"

definition AfterResume :: "('s, 'y) agent_client_local_scheme \<Rightarrow> ('s, unit) go" where
  "AfterResume l = acl_afterResume l"

section \<open>The connecting goroutine\<close>

definition StartAgentClient :: agent_sys where
  "StartAgentClient = \<lparr>remote = None, listener_at = AtSelect, conns = 0, link_up = False, listenCancelled = False,
     factoryDown = False, callers = (\<lambda>_. NotAsking), announced = []\<rparr>"

inductive client_step :: "('z) agent_sys_scheme \<Rightarrow> ('z) agent_sys_scheme \<Rightarrow> bool" where
  connector: "listener_step s t \<Longrightarrow> client_step s t"
| client_close: "client_step s (AgentClient_Close s)"

text \<open>
  Nobody takes the remote out, so the channel is empty unless a connection is being served: the goroutine never
  blocks when it puts a new remote in.
\<close>

definition client_inv :: "('z) agent_sys_scheme \<Rightarrow> bool" where
  "client_inv s \<longleftrightarrow> (remote s \<noteq> None \<longrightarrow> listener_at s \<in> {Linked, Leaving}) \<and>
     (remote s \<noteq> None \<longrightarrow> remote s = Some (conns s)) \<and> callers s = (\<lambda>_. NotAsking)"

lemma connector_inv: "listener_step s t \<Longrightarrow> client_inv s \<Longrightarrow> client_inv t"
  by (induction rule: listener_step.induct) (auto simp: client_inv_def)

interpretation client: invariant_system "\<lambda>s. s = StartAgentClient" client_step client_inv
proof unfold_locales
  show "client_inv s" if "s = StartAgentClient" for s
    using that by (simp add: client_inv_def StartAgentClient_def)
  show "client_inv t" if "client_step s t" "client_inv s" for s t
    using that
  proof (cases rule: client_step.cases)
    case connector
    then show ?thesis using that(2) by (rule connector_inv)
  qed (simp add: client_inv_def AgentClient_Close_def)
qed

lemma client_never_blocks:
  assumes "reaches (\<lambda>s. s = StartAgentClient) client_step s" and "listener_at s = Finding"
  shows "listener_step s (s\<lparr>listener_at := Linked, remote := Some (conns s), announced := announced s @ [conns s]\<rparr>)"
  using client.reachable_inv[OF assms(1)] assms(2)
  by (intro remote_found) (auto simp: client_inv_def)

section \<open>The program in the guest\<close>

datatype shell_call = RunShell string string

text \<open>An empty command is not run.\<close>

definition shellHook :: "(shell_call, 'y) env_scheme \<Rightarrow> string \<Rightarrow> string \<Rightarrow> ((shell_call, 'z) world_scheme, unit) go" where
  "shellHook e shell cmd = whenM (\<not> isBlank cmd) (act e (RunShell shell cmd))"

definition agentLocal ::
    "(shell_call, 'y) env_scheme \<Rightarrow> string \<Rightarrow> string \<Rightarrow> string \<Rightarrow> (shell_call, 'z) world_scheme agent_client_local" where
  "agentLocal e shell before after = NewAgentClient (shellHook e shell before) (shellHook e shell after)"

text \<open>The factory: every connection is a new socket to the host; the port is cut to 32 bits.\<close>

definition agentFactory ::
    "('y) vs_env_scheme \<Rightarrow> dial_event \<Rightarrow> int \<Rightarrow> ((vs_call, 'z) world_scheme, vsock_conn) go" where
  "agentFactory e ev port = DialContext e ev VSockCIDHost (word_of_int port)"

text \<open>The program serves until its context ends, and then closes the client.\<close>

inductive connectAndHandle :: "agent_sys \<Rightarrow> agent_sys \<Rightarrow> bool" where
  "listener_step\<^sup>*\<^sup>* StartAgentClient s \<Longrightarrow> connectAndHandle StartAgentClient (AgentClient_Close s)"

lemma served_is_reached:
  assumes "connectAndHandle s t"
  shows "reaches (\<lambda>s. s = StartAgentClient) client_step t \<and> listenCancelled t"
  using assms
proof cases
  case (1 u)
  have "client_step\<^sup>*\<^sup>* StartAgentClient u"
    using 1(3) by (rule rtranclp_mono[THEN predicate2D, rotated]) (blast intro: connector)
  then have "reaches (\<lambda>s. s = StartAgentClient) client_step u"
    by (rule reaches_rtranclp) (rule reaches_init, simp)
  then show ?thesis
    unfolding 1(2) by (blast intro: reaches_step client_close AgentClient_Close_def[THEN arg_cong[where f = listenCancelled], simplified])
qed

lemma hooks_report:
  "wp (BeforeSuspend (agentLocal e shell before after)) (\<lambda>r s'. r = Ok () \<longleftrightarrow> isBlank before \<or> trace s' = trace s @ [(RunShell shell before, True)]) s"
  by (auto simp: BeforeSuspend_def agentLocal_def NewAgentClient_def shellHook_def go_wp split: option.split)

end
