(* ===== verification/VmState.thy ===== *)
theory VmState
  imports Prelude
begin

text \<open>
  The suspend state of the virtual machine (\<^verbatim>\<open>pkg/common/vm_state.go\<close>). A
  \<open>VMStateMgr\<close> suspends the machine once: it calls the suspend and msync functions it was given,
  with the hooks around them, under one lock, and afterwards reports the machine as suspended.
  The functions it is given are closures over the caller's state; they are parameters here, and act
  on a field \<open>outer\<close> that holds that state, so they cannot reach the manager's own fields, as the
  unexported fields of the Go struct guarantee. A ghost field records, in order, which of the
  functions ran and whether each succeeded.

  The theory also holds the contract that operations which take effect once have in common
  (\<open>once_op\<close>), of which suspending is the first instance.
\<close>

section \<open>Operations that take effect once\<close>

locale once_op =
  fixes run_op :: "('s, unit) go"
    and is_done :: "'s \<Rightarrow> bool"
  assumes done_is_noop: "is_done s \<Longrightarrow> run_op s = (Ok (), s)"
    and ok_is_done: "run_op s = (Ok u, s') \<Longrightarrow> is_done s'"
begin

lemma again_is_noop: "run_op s = (Ok u, s') \<Longrightarrow> run_op s' = (Ok (), s')"
  using ok_is_done done_is_noop by blast

lemma twice_is_once: "fst (run_op s) = Ok () \<Longrightarrow> andThen run_op (\<lambda>_. run_op) s = run_op s"
  using again_is_noop by (cases "run_op s") (auto simp: andThen_def)

lemma never_undone: "is_done s \<Longrightarrow> is_done (snd (run_op s))"
  by (simp add: done_is_noop)

lemma any_number_is_noop: "is_done s \<Longrightarrow> forEach xs (\<lambda>_. run_op) s = (Ok (), s)"
  by (induction xs) (auto simp: go_defs done_is_noop)

end

section \<open>State\<close>

datatype vm_call = OnBeforeSuspend | SuspendFunc | MsyncFunc | OnAfterSuspend | AuthorityTransfer

record 'x vm_state =
  suspended :: bool
  suspendedCh_closed :: bool
  calls :: "(vm_call \<times> bool) list"
  outer :: 'x

text \<open>The closures a \<open>VMStateMgr\<close> is built with; a hook may be nil.\<close>

record 'x vm_funcs =
  suspendFunc :: "('x, unit) go"
  msyncFunc :: "('x, unit) go"
  onBeforeSuspend :: "('x \<Rightarrow> 'x) option"
  onAfterSuspend :: "('x \<Rightarrow> 'x) option"

definition NewVMStateMgr ::
    "('x, unit) go \<Rightarrow> ('x, unit) go \<Rightarrow> ('x \<Rightarrow> 'x) option \<Rightarrow> ('x \<Rightarrow> 'x) option \<Rightarrow> 'x \<Rightarrow>
     'x vm_funcs \<times> 'x vm_state" where
  "NewVMStateMgr suspend msync beforeSuspend afterSuspend x =
     (\<lparr>suspendFunc = suspend, msyncFunc = msync, onBeforeSuspend = beforeSuspend, onAfterSuspend = afterSuspend\<rparr>,
      \<lparr>suspended = False, suspendedCh_closed = False, calls = [], outer = x\<rparr>)"

definition NewDummyVMStateMgr :: "'x \<Rightarrow> 'x vm_funcs \<times> 'x vm_state" where
  "NewDummyVMStateMgr x =
     (\<lparr>suspendFunc = ret (), msyncFunc = ret (), onBeforeSuspend = Some id, onAfterSuspend = Some id\<rparr>,
      \<lparr>suspended = False, suspendedCh_closed = False, calls = [], outer = x\<rparr>)"

text \<open>Calling a closure: it runs on the caller's state, and the call is recorded.\<close>

definition callClosure ::
    "vm_call \<Rightarrow> ('x, unit) go \<Rightarrow> (('x, 'z) vm_state_scheme, unit) go" where
  "callClosure c f = (\<lambda>s. case f (outer s) of (r, x) \<Rightarrow>
     (r, s\<lparr>outer := x, calls := calls s @ [(c, r = Ok ())]\<rparr>))"

definition callHook ::
    "vm_call \<Rightarrow> ('x \<Rightarrow> 'x) option \<Rightarrow> (('x, 'z) vm_state_scheme, unit) go" where
  "callHook c h = (case h of None \<Rightarrow> ret () | Some f \<Rightarrow> callClosure c (update f))"

section \<open>Operations\<close>

definition CheckSuspendedVM :: "('x, 'z) vm_state_scheme \<Rightarrow> bool" where
  "CheckSuspendedVM s = suspended s"

definition GetSuspsnededVMCh :: "('x, 'z) vm_state_scheme \<Rightarrow> bool" where
  "GetSuspsnededVMCh s = suspendedCh_closed s"

definition closeSuspendedCh :: "(('x, 'z) vm_state_scheme, unit) go" where
  "closeSuspendedCh = (\<lambda>s. if suspendedCh_closed s then (Panic CloseOfClosedChannel, s)
                           else (Ok (), s\<lparr>suspendedCh_closed := True\<rparr>))"

definition SuspendAndMsync :: "('x, 'y) vm_funcs_scheme \<Rightarrow> (('x, 'z) vm_state_scheme, unit) go" where
  "SuspendAndMsync vf =
     reading suspended (\<lambda>b. if b then ret () else
     andThen (callHook OnBeforeSuspend (onBeforeSuspend vf)) (\<lambda>_.
     wrapErr (VmStateErr ErrCouldNotSuspendAndCloseAgentServer)
       (callClosure SuspendFunc (suspendFunc vf)) (\<lambda>_.
     wrapErr (VmStateErr ErrCouldNotMsyncRunner)
       (callClosure MsyncFunc (msyncFunc vf)) (\<lambda>_.
     andThen (callHook OnAfterSuspend (onAfterSuspend vf)) (\<lambda>_.
     andThen (update (\<lambda>s. s\<lparr>suspended := True\<rparr>)) (\<lambda>_.
     closeSuspendedCh))))))"

definition Msync :: "('x, 'y) vm_funcs_scheme \<Rightarrow> (('x, 'z) vm_state_scheme, unit) go" where
  "Msync vf = callClosure MsyncFunc (msyncFunc vf)"

section \<open>Correctness\<close>

lemma wp_callClosure [go_wp]:
  "wp (callClosure c f) Q s \<longleftrightarrow>
     wp f (\<lambda>r x. Q r (s\<lparr>outer := x, calls := calls s @ [(c, r = Ok ())]\<rparr>)) (outer s)"
  by (simp add: wp_def callClosure_def split: prod.splits)

lemma wp_callHook [go_wp]:
  "wp (callHook c h) Q s \<longleftrightarrow> (case h of None \<Rightarrow> Q (Ok ()) s
     | Some f \<Rightarrow> Q (Ok ()) (s\<lparr>outer := f (outer s), calls := calls s @ [(c, True)]\<rparr>))"
  by (simp add: callHook_def go_wp split: option.splits)

lemma wp_closeSuspendedCh [go_wp]:
  "wp closeSuspendedCh Q s \<longleftrightarrow>
     (if suspendedCh_closed s then Q (Panic CloseOfClosedChannel) s
      else Q (Ok ()) (s\<lparr>suspendedCh_closed := True\<rparr>))"
  by (simp add: wp_def closeSuspendedCh_def)

text \<open>
  The manager's invariant: the channel is closed exactly when the machine is suspended, and a
  suspended machine has had a successful suspend call followed by a successful msync call.
\<close>

definition vm_inv :: "('x, 'z) vm_state_scheme \<Rightarrow> bool" where
  "vm_inv s \<longleftrightarrow> suspendedCh_closed s = suspended s \<and>
     (suspended s \<longrightarrow> subseq [(SuspendFunc, True), (MsyncFunc, True)] (calls s))"

lemma vm_inv_init:
  "vm_inv (snd (NewVMStateMgr su ms be af x))" "vm_inv (snd (NewDummyVMStateMgr x))"
  by (simp_all add: vm_inv_def NewVMStateMgr_def NewDummyVMStateMgr_def)

lemma subseq_appendR: "subseq xs zs \<Longrightarrow> subseq xs (ys @ zs)"
  by (rule list_emb_append2)

lemma SuspendAndMsync_inv:
  assumes "vm_inv s" and "SuspendAndMsync vf s = (r, s')"
  shows "vm_inv s'"
proof -
  have "wp (SuspendAndMsync vf) (\<lambda>_ s'. vm_inv s') s"
    using assms(1) 
    by (auto simp: SuspendAndMsync_def go_wp vm_inv_def subseq_appendR intro!: wp_any
        split: option.splits)
  then show ?thesis using assms(2) by (auto simp: wp_def)
qed

lemma SuspendAndMsync_suspended [simp]:
  "suspended s \<Longrightarrow> SuspendAndMsync vf s = (Ok (), s)"
  by (simp add: SuspendAndMsync_def go_defs)

lemma SuspendAndMsync_Ok:
  assumes "SuspendAndMsync vf s = (Ok u, s')"
  shows "suspended s'"
proof -
  have "wp (SuspendAndMsync vf) (\<lambda>r s'. case r of Ok _ \<Rightarrow> suspended s' | _ \<Rightarrow> True) s"
    by (auto simp: SuspendAndMsync_def go_wp intro!: wp_any split: option.splits)
  then show ?thesis using assms by (auto simp: wp_def)
qed

lemma SuspendAndMsync_fields:
  assumes "SuspendAndMsync vf s = (r, s')"
  shows "vm_state.more s' = vm_state.more s" and "suspended s \<Longrightarrow> suspended s'"
proof -
  have "wp (SuspendAndMsync vf)
      (\<lambda>_ s'. vm_state.more s' = vm_state.more s \<and> (suspended s \<longrightarrow> suspended s')) s"
    by (auto simp: SuspendAndMsync_def go_wp intro!: wp_any split: option.splits)
  then show "vm_state.more s' = vm_state.more s" and "suspended s \<Longrightarrow> suspended s'"
    using assms by (auto simp: wp_def)
qed

interpretation suspend: once_op "SuspendAndMsync vf" suspended for vf
  by unfold_locales (auto dest: SuspendAndMsync_Ok)

end
