(* ===== verification/Machine.thy ===== *)
theory Machine
  imports GoStrings VmState "HOL-Library.Word" "HOL-Library.Sublist"
begin

text \<open>
  A Firecracker machine (\<^verbatim>\<open>pkg/runtimes/firecracker/machine.go\<close>): starting the jailed process and
  waiting for its socket, closing it, waiting for it, the calls of its API, and what the program
  reads about the host. The process, the API client and the jailer's command builder are not part of the
  program; what they answer comes from the environment.
\<close>

section \<open>Configuration and state\<close>

text \<open>The three streams are nil or given, here by a name.\<close>

record machine_config =
  mc_FirecrackerBin :: string
  mc_JailerBin :: string
  mc_ChrootBaseDir :: string
  mc_UID :: int
  mc_GID :: int
  mc_NetNS :: string
  mc_NumaNode :: int
  mc_CgroupVersion :: int
  mc_Stdout :: "string option"
  mc_Stderr :: "string option"
  mc_Stdin :: "string option"
  mc_NoMapShared :: bool

record network_config =
  nc_Interface :: string
  nc_MAC :: string

record vm_config =
  vc_CPUCount :: int
  vc_MemorySize :: int
  vc_CPUTemplate :: string
  vc_BootArgs :: string

definition SDKSnapshotTypeFull :: string where "SDKSnapshotTypeFull = ''Full''"
definition SDKSnapshotTypeMsync :: string where "SDKSnapshotTypeMsync = ''Msync''"
definition SDKSnapshotTypeMsyncAndState :: string where "SDKSnapshotTypeMsyncAndState = ''MsyncAndState''"
definition SDKActionInstanceStart :: string where "SDKActionInstanceStart = ''InstanceStart''"
definition SDKIOEngineSync :: string where "SDKIOEngineSync = ''Sync''"
definition SDKIOEngineAsync :: string where "SDKIOEngineAsync = ''Async''"
definition SDKVMStatePaused :: string where "SDKVMStatePaused = ''Paused''"
definition SDKBackendTypeFile :: string where "SDKBackendTypeFile = ''File''"
definition FirecrackerSocketName :: string where "FirecrackerSocketName = ''firecracker.sock''"

lemmas sdk_names = SDKSnapshotTypeFull_def SDKSnapshotTypeMsync_def SDKSnapshotTypeMsyncAndState_def
  SDKActionInstanceStart_def SDKIOEngineSync_def SDKIOEngineAsync_def SDKVMStatePaused_def
  SDKBackendTypeFile_def FirecrackerSocketName_def

text \<open>The command line the jailer is started with, as the builder is told.\<close>

record jailer_command =
  jc_Bin :: string
  jc_ChrootBaseDir :: string
  jc_UID :: int
  jc_GID :: int
  jc_NetNS :: string
  jc_CgroupVersion :: string
  jc_NumaNode :: int
  jc_ID :: string
  jc_ExecFile :: string
  jc_Args :: "string list"
  jc_Stdout :: "string option"
  jc_Stdin :: "string option"
  jc_Setpgid :: bool

text \<open>
  The calls of the whole package: the process and its API, the files of the host, the agent and
  liveness servers, and the memory of the process.
\<close>

datatype fc_call =
    MakeVMPath string | StartCommand jailer_command | KillProcess | WaitProcess
  | StatSocket string | GetMachineConfiguration
  | LoadSnapshot string string string bool bool
  | PatchVM string
  | SnapshotCreate string string string
  | PutGuestBootSource string string
  | PutGuestDrive string string
  | PutMachineConfiguration int int string
  | PutGuestVsock int string
  | PutGuestNetworkInterface string string
  | CreateSyncAction string
  | ReadHostFile string
  | MakeDir string | CreateFile string | OpenFile string | CloseFile string
  | CopyFile string string | WriteFile string | Chown string int int
  | RemoveAll string | RemoveFile string
  | StartAgent string nat | AgentGetRemote | AgentAfterResume | AgentBeforeSuspend | AgentClose
  | OpenLiveness string | ReceiveLiveness | CloseLiveness | WaitReady
  | RunningCB bool | NewProcessMemory
  | GetMemoryRange | PauseProcess | ResumeProcess | ClearSoftDirty | OpenMemory nat | CloseMemory
  | ReadMemory nat nat | ReadProvider nat nat | WriteProvider nat nat
  | ReadSoftDirty "64 word" "64 word" | CopyMemoryRanges int "(64 word \<times> 64 word) list"

type_synonym fc_trace = "(fc_call \<times> bool) list"

record fc_env = "fc_call env" +
  newID :: "fc_trace \<Rightarrow> string"
  startedPid :: "fc_trace \<Rightarrow> nat"
  signalKilled :: "goerr \<Rightarrow> bool"     \<comment> \<open>the error's text is that of \<open>errSignalKilled\<close>\<close>
  hostFile :: "fc_trace \<Rightarrow> string"

text \<open>
  \<open>cmdErr\<close> is the result of the process once it has exited and the goroutine that waits for it has
  stored it: \<open>Some None\<close> is a clean exit.
\<close>

record fc_machine = "fc_call world" +
  VMPath :: string
  VMPid :: nat
  machine_closed :: bool
  cmdErr :: "goerr option option"

section \<open>Starting\<close>

text \<open>Both streams are given to \<open>WithStdout\<close>, so the second one wins.\<close>

definition jailerCommand :: "machine_config \<Rightarrow> string \<Rightarrow> jailer_command" where
  "jailerCommand conf i =
     \<lparr>jc_Bin = mc_JailerBin conf, jc_ChrootBaseDir = mc_ChrootBaseDir conf, jc_UID = mc_UID conf,
      jc_GID = mc_GID conf, jc_NetNS = filepath_Join [''/var'', ''run'', ''netns'', mc_NetNS conf],
      jc_CgroupVersion = (if mc_CgroupVersion conf < 0 then ''-'' @ show_nat (nat (- mc_CgroupVersion conf))
        else show_nat (nat (mc_CgroupVersion conf))),
      jc_NumaNode = mc_NumaNode conf, jc_ID = i, jc_ExecFile = mc_FirecrackerBin conf,
      jc_Args = [''--api-sock'', FirecrackerSocketName],
      jc_Stdout = (case mc_Stderr conf of Some w \<Rightarrow> Some w | None \<Rightarrow> mc_Stdout conf),
      jc_Stdin = mc_Stdin conf, jc_Setpgid = (mc_Stdin conf = None)\<rparr>"

text \<open>
  What the waiting loop's \<open>select\<close> finds, one event per round: the context is done, the command has
  exited with a result, or the ticker ticked. When the list is used up the ten seconds are over.
  The pointer returned is nil in the second case.
\<close>

datatype start_event = StartCtxDone goerr | CommandExited "goerr option" | Tick

fun waitForSocket ::
    "('y) fc_env_scheme \<Rightarrow> string \<Rightarrow> start_event list \<Rightarrow> (('z) fc_machine_scheme, bool) go" where
  "waitForSocket e sock [] = throw (Joined [MachineErr ErrNoSocketCreated, CtxDeadlineExceeded])"
| "waitForSocket e sock (StartCtxDone x # evs) = throw (Joined [MachineErr ErrNoSocketCreated, x])"
| "waitForSocket e sock (CommandExited r # evs) =
     andThen (update (\<lambda>s. s\<lparr>cmdErr := Some r\<rparr>)) (\<lambda>_.
     case r of None \<Rightarrow> ret False | Some x \<Rightarrow> throw x)"
| "waitForSocket e sock (Tick # evs) =
     attempt (act e (StatSocket sock)) (\<lambda>r. case r of
       Inl _ \<Rightarrow> waitForSocket e sock evs
     | Inr _ \<Rightarrow> attempt (act e GetMachineConfiguration) (\<lambda>r. case r of
         Inl _ \<Rightarrow> waitForSocket e sock evs
       | Inr _ \<Rightarrow> ret True))"

text \<open>The value is whether the machine pointer returned is not nil.\<close>

definition StartFirecrackerMachine ::
    "('y) fc_env_scheme \<Rightarrow> machine_config \<Rightarrow> start_event list \<Rightarrow> (('z) fc_machine_scheme, bool) go" where
  "StartFirecrackerMachine e conf evs =
     reading (\<lambda>s. newID e (trace s)) (\<lambda>i.
     let vmPath = filepath_Join [mc_ChrootBaseDir conf, ''firecracker'', i, ''root''] in
     andThen (update (\<lambda>s. s\<lparr>VMPath := vmPath, machine_closed := False, cmdErr := None\<rparr>)) (\<lambda>_.
     wrapErr (MachineErr ErrCouldNotCreateVMPathDirectory) (act e (MakeVMPath vmPath)) (\<lambda>_.
     wrapErr (MachineErr ErrCouldNotStartFirecrackerServer)
       (ask e (startedPid e) (StartCommand (jailerCommand conf i))) (\<lambda>pid.
     andThen (update (\<lambda>s. s\<lparr>VMPid := pid\<rparr>)) (\<lambda>_.
     waitForSocket e (filepath_Join [vmPath, FirecrackerSocketName]) evs)))))"

section \<open>Closing and waiting\<close>

text \<open>
  The process exits with the result \<open>exit\<close> (if it had not before); the goroutine that waits for it
  stores the result and reports it. The report looks at the error's text without a test for nil when
  the machine was closed.
\<close>

definition awaitExit :: "goerr option \<Rightarrow> (('z) fc_machine_scheme, goerr option) go" where
  "awaitExit exit = reading cmdErr (\<lambda>c. case c of
      Some r \<Rightarrow> ret r
    | None \<Rightarrow> andThen (update (\<lambda>s. s\<lparr>cmdErr := Some exit\<rparr>)) (\<lambda>_. ret exit))"

definition reportExit :: "('y) fc_env_scheme \<Rightarrow> (('z) fc_machine_scheme, goerr option) go" where
  "reportExit e = reading (\<lambda>s. (machine_closed s, cmdErr s)) (\<lambda>(closed, c). case c of
      None \<Rightarrow> ret None
    | Some r \<Rightarrow> if closed then
         (case r of None \<Rightarrow> panic NilDeref
          | Some x \<Rightarrow> if signalKilled e x then ret None else ret (Some x))
       else ret r)"

definition Machine_Close ::
    "('y) fc_env_scheme \<Rightarrow> goerr option \<Rightarrow> (('z) fc_machine_scheme, unit) go" where
  "Machine_Close e exit =
     andThen (reading machine_closed (\<lambda>closed. whenM (\<not> closed)
       (andThen (update (\<lambda>s. s\<lparr>machine_closed := True\<rparr>)) (\<lambda>_. act e KillProcess)))) (\<lambda>_.
     andThen (awaitExit exit) (\<lambda>c. case c of
       None \<Rightarrow> panic NilDeref
     | Some x \<Rightarrow> if signalKilled e x then ret () else throw x))"

definition Machine_Wait ::
    "('y) fc_env_scheme \<Rightarrow> goerr option \<Rightarrow> (('z) fc_machine_scheme, unit) go" where
  "Machine_Wait e exit =
     andThen (awaitExit exit) (\<lambda>c. case c of
       None \<Rightarrow> ret ()
     | Some x \<Rightarrow> reading machine_closed (\<lambda>closed.
         if closed \<and> signalKilled e x then ret ()
         else throw (Joined [MachineErr ErrFirecrackerExited, x])))"

text \<open>When the context the machine was started with is done, it is closed; the error is only logged.\<close>

definition closeOnContextDone ::
    "('y) fc_env_scheme \<Rightarrow> goerr option \<Rightarrow> (('z) fc_machine_scheme, unit) go" where
  "closeOnContextDone e exit = attempt (Machine_Close e exit) (\<lambda>_. ret ())"

section \<open>The API\<close>

definition ResumeSnapshot ::
    "('y) fc_env_scheme \<Rightarrow> machine_config \<Rightarrow> string \<Rightarrow> string \<Rightarrow> ((fc_call, 'z) world_scheme, unit) go" where
  "ResumeSnapshot e conf statePath memoryPath =
     wrapErr (RuntimeErr ErrCouldNotResumeSnapshot)
       (act e (LoadSnapshot SDKBackendTypeFile memoryPath statePath True (\<not> mc_NoMapShared conf))) ret"

definition Machine_CreateSnapshot ::
    "('y) fc_env_scheme \<Rightarrow> string \<Rightarrow> string \<Rightarrow> string \<Rightarrow> ((fc_call, 'z) world_scheme, unit) go" where
  "Machine_CreateSnapshot e statePath memoryPath snapshotType =
     andThen (whenM (snapshotType \<noteq> SDKSnapshotTypeMsync) (act e (PatchVM SDKVMStatePaused))) (\<lambda>_.
     act e (SnapshotCreate memoryPath statePath snapshotType))"

definition StartVM ::
    "('y) fc_env_scheme \<Rightarrow> string \<Rightarrow> string list \<Rightarrow> string \<Rightarrow> vm_config \<Rightarrow> network_config \<Rightarrow> string \<Rightarrow> int \<Rightarrow>
     ((fc_call, 'z) world_scheme, unit) go" where
  "StartVM e kernelPath disks ioEngine vm net vsockPath vsockCID =
     wrapErr (MachineErr ErrCouldNotSetBootSource)
       (act e (PutGuestBootSource kernelPath (vc_BootArgs vm))) (\<lambda>_.
     andThen (forEach disks (\<lambda>d.
       wrapErr (MachineErr ErrCouldNotSetDrive) (act e (PutGuestDrive d ioEngine)) ret)) (\<lambda>_.
     wrapErr (MachineErr ErrCouldNotSetMachineConfig)
       (act e (PutMachineConfiguration (vc_CPUCount vm) (vc_MemorySize vm) (vc_CPUTemplate vm))) (\<lambda>_.
     wrapErr (MachineErr ErrCouldNotSetVSock) (act e (PutGuestVsock vsockCID vsockPath)) (\<lambda>_.
     wrapErr (MachineErr ErrCouldNotSetNetworkInterfaces)
       (act e (PutGuestNetworkInterface (nc_Interface net) (nc_MAC net))) (\<lambda>_.
     wrapErr (MachineErr ErrCouldNotStartInstance)
       (act e (CreateSyncAction SDKActionInstanceStart)) ret)))))"

section \<open>The host\<close>

text \<open>\<open>vendor_id : X\<close>: only the first line with that prefix counts.\<close>

fun scanVendor :: "string list \<Rightarrow> string option" where
  "scanVendor [] = None"
| "scanVendor (l # ls) =
     (if HasPrefix l ''vendor_id'' then
        (case split_on (CHR '':'') l of
           [_, v] \<Rightarrow> if TrimSpace v = ''GenuineIntel'' then Some ''None''
                     else if TrimSpace v = ''AuthenticAMD'' then Some ''T2A'' else None
         | _ \<Rightarrow> None)
      else scanVendor ls)"

definition GetCPUTemplate :: "('y) fc_env_scheme \<Rightarrow> ((fc_call, 'z) world_scheme, string) go" where
  "GetCPUTemplate e =
     andThen (ask e (hostFile e) (ReadHostFile ''/proc/cpuinfo'')) (\<lambda>cpuinfo.
     case scanVendor (split_on (CHR 0x0A) cpuinfo) of
       None \<Rightarrow> throw (Plain ''unknown cpu'')
     | Some t \<Rightarrow> ret t)"

definition IsPVMHost :: "('y) fc_env_scheme \<Rightarrow> ((fc_call, 'z) world_scheme, bool) go" where
  "IsPVMHost e =
     andThen (ask e (hostFile e) (ReadHostFile ''/proc/modules'')) (\<lambda>modules.
     ret (list_ex (\<lambda>l. HasPrefix l ''kvm_pvm'') (split_on (CHR 0x0A) modules)))"

fun scanSwaps :: "bool \<Rightarrow> string list \<Rightarrow> bool" where
  "scanSwaps doneHeader [] = False"
| "scanSwaps doneHeader (l # ls) = (if doneHeader \<and> \<not> isBlank l then True else scanSwaps True ls)"

definition HostMightSwap :: "('y) fc_env_scheme \<Rightarrow> ((fc_call, 'z) world_scheme, bool) go" where
  "HostMightSwap e =
     andThen (ask e (hostFile e) (ReadHostFile ''/proc/swaps'')) (\<lambda>swaps.
     ret (scanSwaps False (split_on (CHR 0x0A) swaps)))"

section \<open>What starting returns\<close>

lemma waitForSocket_wp:
  fixes s :: "('z) fc_machine_scheme"
  assumes "cmdErr s = None"
  shows "wp (waitForSocket e sock evs) (\<lambda>r s'. (\<forall>x. r \<noteq> Panic x) \<and> machine_closed s' = machine_closed s \<and> VMPath s' = VMPath s \<and>
     (r = Ok True \<longrightarrow> cmdErr s' = None \<and>
        suffix [(StatSocket sock, True), (GetMachineConfiguration, True)] (trace s')) \<and>
     (r = Ok False \<longleftrightarrow> cmdErr s' = Some None) \<and> (cmdErr s' = Some None \<longrightarrow> CommandExited None \<in> set evs)) s"
  using assms
proof (induction evs arbitrary: s)
  case Nil
  then show ?case by (simp add: go_wp)
next
  case (Cons ev evs)
  show ?case
  proof (cases ev)
    case Tick
    then show ?thesis
      using Cons.prems
      by (auto simp: go_wp suffix_def split: option.splits intro!: wp_mono[OF Cons.IH])
  qed (use Cons.prems in \<open>auto simp: go_wp split: option.splits\<close>)
qed


section \<open>Closing\<close>

definition machine_down :: "('y) fc_env_scheme \<Rightarrow> ('z) fc_machine_scheme \<Rightarrow> bool" where
  "machine_down e s \<longleftrightarrow> machine_closed s \<and> (\<exists>x. cmdErr s = Some (Some x) \<and> signalKilled e x)"

lemma Machine_Close_wp:
  fixes s :: "('z) fc_machine_scheme"
  shows "wp (Machine_Close e exit) (\<lambda>r s'. machine_closed s' \<and> 
     (r = Ok () \<longrightarrow> machine_down e s') \<and>
     called s' = called s @ (if machine_closed s then [] else [KillProcess]) \<and>
     (cmdErr s' = Some None \<longrightarrow> r \<noteq> Ok ()) \<and> (\<forall>x. r = Panic x \<longrightarrow> cmdErr s' = Some None) \<and>
     (machine_closed s \<and> cmdErr s' = Some None \<longrightarrow> (\<exists>x. r = Panic x))) s"
  by (auto simp: Machine_Close_def awaitExit_def machine_down_def called_def go_wp split: option.splits)

lemma Machine_Close_down: "machine_down e s \<Longrightarrow> Machine_Close e exit s = (Ok (), s)"
  by (auto simp: Machine_Close_def awaitExit_def machine_down_def go_defs)

interpretation machine_close: once_op "Machine_Close e exit" "machine_down e" for e exit
  by unfold_locales (auto simp: Machine_Close_down dest!: wpD[OF Machine_Close_wp])

text \<open>
  C25. \<open>Close\<close> kills the process at most once, whoever calls it how often: it marks the machine closed
  and sends the signal only if it was not marked. If it returns no error the process was killed, and
  closing again does nothing and returns no error. It panics only if the process exited cleanly, and
  then never succeeds; on a machine already closed it always panics then.
\<close>

theorem Machine_Close_once:
  fixes s :: "('z) fc_machine_scheme"
  shows "wp (Machine_Close e exit) (\<lambda>r s'. machine_closed s' \<and>
     called s' = called s @ (if machine_closed s then [] else [KillProcess]) \<and>
     (r = Ok () \<longrightarrow> Machine_Close e exit' s' = (Ok (), s')) \<and>
     (cmdErr s' = Some None \<longrightarrow> r \<noteq> Ok ()) \<and> (\<forall>x. r = Panic x \<longrightarrow> cmdErr s' = Some None) \<and>
     (machine_closed s \<and> cmdErr s' = Some None \<longrightarrow> (\<exists>x. r = Panic x))) s"
  by (rule wp_mono[OF Machine_Close_wp]) (use machine_close.done_is_noop in blast)

section \<open>Starting the virtual machine\<close>

definition startCalls ::
    "string \<Rightarrow> string list \<Rightarrow> string \<Rightarrow> vm_config \<Rightarrow> network_config \<Rightarrow> string \<Rightarrow> int \<Rightarrow> fc_call list" where
  "startCalls kpath disks io vm net vsock cid =
     PutGuestBootSource kpath (vc_BootArgs vm) # map (\<lambda>d. PutGuestDrive d io) disks @
     [PutMachineConfiguration (vc_CPUCount vm) (vc_MemorySize vm) (vc_CPUTemplate vm), PutGuestVsock cid vsock,
      PutGuestNetworkInterface (nc_Interface net) (nc_MAC net), CreateSyncAction SDKActionInstanceStart]"

definition not_started :: "fc_trace \<Rightarrow> fc_trace \<Rightarrow> bool" where
  "not_started tr tr' \<longleftrightarrow> (\<forall>c. (CreateSyncAction c, True) \<in> set tr' \<longrightarrow> (CreateSyncAction c, True) \<in> set tr)"

lemma drives_wp:
  fixes s :: "(fc_call, 'z) world_scheme"
  shows "wp (forEach disks (\<lambda>d. wrapErr E (act e (PutGuestDrive d io)) ret)) (\<lambda>r s'. (\<forall>x. r \<noteq> Panic x) \<and>
     (r = Ok () \<longrightarrow> trace s' = trace s @ map (\<lambda>d. (PutGuestDrive d io, True)) disks) \<and>
     not_started (trace s) (trace s')) s"
proof (induction disks arbitrary: s)
  case Nil
  show ?case by (simp add: go_wp not_started_def)
next
  case (Cons d disks)
  show ?case
    by (auto simp: go_wp not_started_def split: option.splits intro!: wp_mono[OF Cons])
qed

text \<open>
  \<open>StartVM\<close> starts the instance last and only when everything was configured: if it returns no
  error the calls made are exactly those of the boot source, one drive per disk in order, the machine,
  the vsock and the network interface, and the start; and if any of them but the start fails, the
  instance is not started.
\<close>

theorem StartVM_configures_then_starts:
  fixes s :: "(fc_call, 'z) world_scheme"
  shows "wp (StartVM e kpath disks io vm net vsock cid) (\<lambda>r s'. (\<forall>x. r \<noteq> Panic x) \<and>
     (r = Ok () \<longrightarrow> trace s' = trace s @ map (\<lambda>c. (c, True)) (startCalls kpath disks io vm net vsock cid)) \<and>
     (r \<noteq> Ok () \<longrightarrow> not_started (trace s) (trace s'))) s"
proof -
  have drives: "wp (forEach disks (\<lambda>d. wrapErr E (act e (PutGuestDrive d io)) ret)) Q t"
    if "\<And>s'. trace s' = trace t @ map (\<lambda>d. (PutGuestDrive d io, True)) disks \<Longrightarrow> Q (Ok ()) s'"
      "\<And>x s'. not_started (trace t) (trace s') \<Longrightarrow> Q (Err x) s'"
    for E Q and t :: "(fc_call, 'z) world_scheme"
    by (rule wp_mono[OF drives_wp]) (rename_tac r s', case_tac r, use that in auto)
  show ?thesis
    unfolding StartVM_def
    by (auto simp: go_wp startCalls_def not_started_def split: option.splits intro!: drives)
qed

section \<open>Examples\<close>

definition fc_demo :: "fc_call option \<Rightarrow> fc_env" where
  "fc_demo bad = \<lparr>fails = (\<lambda>_ c. if Some c = bad then Some (Ext 3) else None), newID = (\<lambda>_. ''id''),
     startedPid = (\<lambda>_. 42), signalKilled = (\<lambda>x. x = MachineErr ErrSignalKilled), hostFile = (\<lambda>_. [])\<rparr>"

definition conf_demo :: machine_config where
  "conf_demo = \<lparr>mc_FirecrackerBin = ''firecracker'', mc_JailerBin = ''jailer'', mc_ChrootBaseDir = ''out'',
     mc_UID = 0, mc_GID = 0, mc_NetNS = ''ark0'', mc_NumaNode = 0, mc_CgroupVersion = 2,
     mc_Stdout = Some ''stdout'', mc_Stderr = None, mc_Stdin = None, mc_NoMapShared = False\<rparr>"

definition fc_start :: fc_machine where
  "fc_start = \<lparr>trace = [], VMPath = [], VMPid = 0, machine_closed = False, cmdErr = None\<rparr>"

definition fc_running :: fc_machine where
  "fc_running = \<lparr>trace = [], VMPath = ''vm'', VMPid = 42, machine_closed = False, cmdErr = None\<rparr>"

lemmas fc_eval = fc_demo_def conf_demo_def fc_start_def fc_running_def StartFirecrackerMachine_def
  Machine_Close_def awaitExit_def path_defs Let_def go_defs


theorem Machine_Close_once_witness:
  "\<exists>s. Machine_Close (fc_demo None) (Some (MachineErr ErrSignalKilled)) fc_running = (Ok (), s) \<and>
     called s = [KillProcess] \<and> Machine_Close (fc_demo None) None s = (Ok (), s)"
proof -
  obtain s where run: "Machine_Close (fc_demo None) (Some (MachineErr ErrSignalKilled)) fc_running = (Ok (), s)"
    by (simp add: fc_eval)
  have "called fc_running = []" "\<not> machine_closed fc_running" by (simp_all add: fc_running_def called_def)
  with wpD[OF Machine_Close_once run] run show ?thesis by auto
qed

theorem StartVM_configures_then_starts_witness:
  "wp (StartVM (fc_demo (Some (PutGuestVsock 3 ''v''))) ''kernel'' [''disk''] ''Sync''
       \<lparr>vc_CPUCount = 1, vc_MemorySize = 1024, vc_CPUTemplate = ''None'', vc_BootArgs = ''ro''\<rparr>
       \<lparr>nc_Interface = ''tap0'', nc_MAC = ''02''\<rparr> ''v'' 3)
     (\<lambda>r s'. r \<noteq> Ok () \<and> (CreateSyncAction ''InstanceStart'', True) \<notin> set (trace s')) fc_start"
proof -
  let ?m = "StartVM (fc_demo (Some (PutGuestVsock 3 ''v''))) ''kernel'' [''disk''] ''Sync''
       \<lparr>vc_CPUCount = 1, vc_MemorySize = 1024, vc_CPUTemplate = ''None'', vc_BootArgs = ''ro''\<rparr>
       \<lparr>nc_Interface = ''tap0'', nc_MAC = ''02''\<rparr> ''v'' 3 :: (fc_machine, unit) go"
  have "fst (?m fc_start) \<noteq> Ok ()"
    by (simp add: StartVM_def fc_demo_def fc_start_def go_defs)
  then show ?thesis
    using StartVM_configures_then_starts[of "fc_demo (Some (PutGuestVsock 3 ''v''))" "''kernel''"
      "[''disk'']" "''Sync''" "\<lparr>vc_CPUCount = 1, vc_MemorySize = 1024, vc_CPUTemplate = ''None'', vc_BootArgs = ''ro''\<rparr>"
      "\<lparr>nc_Interface = ''tap0'', nc_MAC = ''02''\<rparr>" "''v''" 3 fc_start]
    by (auto simp: wp_def not_started_def fc_start_def split: prod.splits)
qed

end
