(* ===== verification/MemoryGrab.thy ===== *)
theory MemoryGrab
  imports Machine
begin

text \<open>
  The state of the Firecracker runtime and how it takes the changes of the machine's memory from its
  process (\<^verbatim>\<open>pkg/runtimes/firecracker/runtime.go\<close>): comparing all of the memory with the device
  (\<open>grabMemoryChangesFailsafe\<close>), or asking the kernel which pages were written
  (\<open>grabMemoryChangesSoftDirty\<close>); both stop the process for the time they look at it. Addresses
  are 64-bit words. Memory and device are read byte by byte from the state.
\<close>

section \<open>State\<close>

text \<open>A range of the process's memory, and where it is on the device.\<close>

record mem_range =
  mr_Start :: "64 word"
  mr_End :: "64 word"
  mr_Offset :: "64 word"

text \<open>Of the memory device: its blocks and which ones Silo knows not to be needed.\<close>

record mem_info =
  mi_NumBlocks :: nat
  mi_BlockSize :: nat
  mi_Size :: nat

record rt_config =
  rc_Machine :: machine_config
  rc_GrabInterval :: nat
  rc_GrabFailsafe :: bool
  rc_GrabUpdateDirty :: bool
  rc_GrabUpdateMemory :: bool
  rc_DirectMemory :: bool
  rc_DirectMemoryWriteback :: bool
  rc_hasRunningCB :: bool

record rt_env = fc_env +
  memoryRanges :: "fc_trace \<Rightarrow> mem_range list"
  memoryByte :: "fc_trace \<Rightarrow> nat \<Rightarrow> 8 word"
  softDirtyRanges :: "fc_trace \<Rightarrow> (64 word \<times> 64 word) list"    \<comment> \<open>start and end of each\<close>
  memoryInfo :: mem_info
  unrequiredBlocks :: "fc_trace \<Rightarrow> nat list"
  writebackBlocks :: "fc_trace \<Rightarrow> nat list"
  memoryBlock :: "fc_trace \<Rightarrow> nat \<Rightarrow> 8 word list"
  configData :: "fc_trace \<Rightarrow> string"
  decodeConfig :: "string \<Rightarrow> goerr + 32 word"
  deviceNames :: "fc_trace \<Rightarrow> string list"
  hasSyncInfo :: bool

text \<open>
  The trackers of the dirty ranges hold what was marked, as offsets and lengths; they are nil until the
  machine is resumed with direct memory. \<open>prov\<close> is the contents of the memory device.
\<close>

record rt_sys = fc_machine +
  rt_hasMachine :: bool
  rt_hasAgent :: bool
  rt_running :: bool
  rt_grabbing :: bool                       \<comment> \<open>the periodic grabber's goroutine runs\<close>
  rt_GrabMemory :: bool
  hypervisorCancelled :: bool
  rt_dg :: bool
  lateWriteHooks :: "string list"
  dirtyMarks :: "(int \<times> int) list option"
  syncMarks :: "(int \<times> int) list option"
  writebackMarks :: "(int \<times> int) list option"
  prov :: "nat \<Rightarrow> 8 word"
  paused :: bool

section \<open>Stopping the process\<close>

definition lockcb :: "('y) rt_env_scheme \<Rightarrow> (('z) rt_sys_scheme, unit) go" where
  "lockcb e = andThen (act e PauseProcess) (\<lambda>_. update (\<lambda>s. s\<lparr>paused := True\<rparr>))"

definition unlockcb :: "('y) rt_env_scheme \<Rightarrow> (('z) rt_sys_scheme, unit) go" where
  "unlockcb e =
     andThen (act e ClearSoftDirty) (\<lambda>_.
     andThen (act e ResumeProcess) (\<lambda>_. update (\<lambda>s. s\<lparr>paused := False\<rparr>)))"

text \<open>\<open>MarkDirty\<close> on each tracker there is.\<close>

definition markAll :: "int \<Rightarrow> int \<Rightarrow> (('z) rt_sys_scheme, unit) go" where
  "markAll off len = update (\<lambda>s. s\<lparr>dirtyMarks := map_option (\<lambda>m. m @ [(off, len)]) (dirtyMarks s),
     syncMarks := map_option (\<lambda>m. m @ [(off, len)]) (syncMarks s),
     writebackMarks := map_option (\<lambda>m. m @ [(off, len)]) (writebackMarks s)\<rparr>)"

section \<open>Comparing all of the memory\<close>

definition grabBlockSize :: "64 word" where "grabBlockSize = 1024 * 1024 * 4"

text \<open>
  The loop \<open>for o := r.Start; o < r.End; o += blockSize\<close>: the addresses it visits with the size it
  reads at each, or \<open>None\<close> if it does not end because \<open>o\<close> wraps around.
\<close>

partial_function (option) grabBlocks :: "64 word \<Rightarrow> 64 word \<Rightarrow> (64 word \<times> 64 word) list option" where
  "grabBlocks a b = (if a < b then
       Option.bind (grabBlocks (a + grabBlockSize) b)
         (\<lambda>bs. Some ((a, if a + grabBlockSize > b then b - a else grabBlockSize) # bs))
     else Some [])"

declare grabBlocks.simps [code]

definition bytesAt :: "(nat \<Rightarrow> 8 word) \<Rightarrow> nat \<Rightarrow> nat \<Rightarrow> 8 word list" where
  "bytesAt m a n = map (\<lambda>i. m (a + i)) [0..<n]"

definition writeBytes :: "nat \<Rightarrow> 8 word list \<Rightarrow> (nat \<Rightarrow> 8 word) \<Rightarrow> nat \<Rightarrow> 8 word" where
  "writeBytes a bs m = (\<lambda>i. if a \<le> i \<and> i < a + length bs then bs ! (i - a) else m i)"

definition int64 :: "64 word \<Rightarrow> int" where
  "int64 w = sint w"

text \<open>A read that returns no error returns as many bytes as were asked for, as \<open>io.ReaderAt\<close> says.\<close>

definition grabBlock ::
    "('y) rt_env_scheme \<Rightarrow> rt_config \<Rightarrow> mem_range \<Rightarrow> 64 word \<times> 64 word \<Rightarrow> (('z) rt_sys_scheme, unit) go" where
  "grabBlock e c r p = (case p of (a, n) \<Rightarrow>
     let off = mr_Offset r + a - mr_Start r in
     andThen (ask e (\<lambda>tr. bytesAt (memoryByte e tr) (unat a) (unat n)) (ReadMemory (unat a) (unat n))) (\<lambda>buffer.
     andThen (act e (ReadProvider (unat off) (unat n))) (\<lambda>_.
     reading (\<lambda>s. bytesAt (prov s) (unat off) (unat n)) (\<lambda>provBuffer.
     whenM (buffer \<noteq> provBuffer)
       (andThen (whenM (rc_GrabUpdateDirty c) (markAll (int64 off) (int64 n))) (\<lambda>_.
        whenM (rc_GrabUpdateMemory c)
          (andThen (act e (WriteProvider (unat off) (unat n))) (\<lambda>_.
           update (\<lambda>s. s\<lparr>prov := writeBytes (unat off) buffer (prov s)\<rparr>)))))))))"

text \<open>What stands for a loop that does not end.\<close>

definition doesNotEnd :: "('s, 'a) go" where
  "doesNotEnd = panic (Plain ''the loop does not end'')"

definition grabRange ::
    "('y) rt_env_scheme \<Rightarrow> rt_config \<Rightarrow> mem_range \<Rightarrow> (('z) rt_sys_scheme, unit) go" where
  "grabRange e c r = (case grabBlocks (mr_Start r) (mr_End r) of
      None \<Rightarrow> doesNotEnd
    | Some bs \<Rightarrow> forEach bs (grabBlock e c r))"

definition grabMemoryChangesFailsafe ::
    "('y) rt_env_scheme \<Rightarrow> rt_config \<Rightarrow> (('z) rt_sys_scheme, unit) go" where
  "grabMemoryChangesFailsafe e c =
     andThen (ask e (memoryRanges e) GetMemoryRange) (\<lambda>memRanges.
     andThen (lockcb e) (\<lambda>_.
     andThen (reading VMPid (\<lambda>pid. act e (OpenMemory pid))) (\<lambda>_.
     deferring (actIgnore e CloseMemory) (
     andThen (forEach memRanges (grabRange e c)) (\<lambda>_. unlockcb e)))))"

section \<open>Asking the kernel\<close>

record copy_data =
  cd_ranges :: "(64 word \<times> 64 word) list"
  cd_addrStart :: "64 word"
  cd_offset :: "64 word"

fun collectSoftDirty ::
    "('y) rt_env_scheme \<Rightarrow> mem_range list \<Rightarrow> copy_data list \<Rightarrow> (('z) rt_sys_scheme, copy_data list) go" where
  "collectSoftDirty e [] acc = ret acc"
| "collectSoftDirty e (r # rs) acc =
     attempt (ask e (softDirtyRanges e) (ReadSoftDirty (mr_Start r) (mr_End r))) (\<lambda>x. case x of
       Inl err \<Rightarrow> attempt (unlockcb e) (\<lambda>_. throw err)
     | Inr ranges \<Rightarrow> collectSoftDirty e rs
         (acc @ [\<lparr>cd_ranges = ranges, cd_addrStart = mr_Start r, cd_offset = mr_Offset r\<rparr>]))"

definition markCopyData :: "copy_data \<Rightarrow> (('z) rt_sys_scheme, unit) go" where
  "markCopyData tt = forEach (cd_ranges tt) (\<lambda>(a, b).
     markAll (int64 (a - cd_addrStart tt + cd_offset tt)) (int64 (b - a)))"

definition grabMemoryChangesSoftDirty ::
    "('y) rt_env_scheme \<Rightarrow> rt_config \<Rightarrow> (('z) rt_sys_scheme, unit) go" where
  "grabMemoryChangesSoftDirty e c =
     andThen (ask e (memoryRanges e) GetMemoryRange) (\<lambda>memRanges.
     andThen (lockcb e) (\<lambda>_.
     andThen (collectSoftDirty e memRanges []) (\<lambda>copyData.
     andThen (unlockcb e) (\<lambda>_.
     andThen (whenM (rc_GrabUpdateDirty c) (forEach copyData markCopyData)) (\<lambda>_.
     whenM (rc_GrabUpdateMemory c) (forEach copyData (\<lambda>tt.
       act e (CopyMemoryRanges (int64 (cd_addrStart tt) - int64 (cd_offset tt)) (cd_ranges tt)))))))))"

definition grabMemoryChanges ::
    "('y) rt_env_scheme \<Rightarrow> rt_config \<Rightarrow> (('z) rt_sys_scheme, unit) go" where
  "grabMemoryChanges e c =
     (if rc_GrabFailsafe c then grabMemoryChangesFailsafe e c else grabMemoryChangesSoftDirty e c)"

section \<open>The loop over a range ends\<close>

text \<open>Blocks that follow each other from \<open>a\<close> to \<open>b\<close> without a gap.\<close>

fun tiles :: "nat \<Rightarrow> nat \<Rightarrow> (64 word \<times> 64 word) list \<Rightarrow> bool" where
  "tiles a b [] \<longleftrightarrow> b \<le> a"
| "tiles a b ((x, n) # bs) \<longleftrightarrow> unat x = a \<and> a < b \<and>
     unat n = min (unat grabBlockSize) (b - a) \<and> tiles (a + unat n) b bs"

lemma unat_grabBlockSize: "unat grabBlockSize = 4194304"
  by (simp add: grabBlockSize_def)

lemma tiles_past: "tiles a b bs \<Longrightarrow> b \<le> a \<Longrightarrow> bs = []"
  by (cases bs) auto

lemma grabBlocks_tile:
  assumes "unat b + unat grabBlockSize \<le> 2 ^ 64"
  shows "\<exists>bs. grabBlocks a b = Some bs \<and> tiles (unat a) (unat b) bs"
proof (induction "unat b - unat a" arbitrary: a rule: less_induct)
  case less
  show ?case
  proof (cases "a < b")
    case False
    then show ?thesis by (subst grabBlocks.simps) (simp add: word_less_nat_alt)
  next
    case True
    then have lt: "unat a < unat b" by (simp add: word_less_nat_alt)
    then have sum: "unat (a + grabBlockSize) = unat a + unat grabBlockSize"
      using assms by (subst unat_add_lem[THEN iffD1]) auto
    then have "unat b - unat (a + grabBlockSize) < unat b - unat a"
      using lt by (simp add: unat_grabBlockSize)
    then obtain bs where bs: "grabBlocks (a + grabBlockSize) b = Some bs"
      "tiles (unat (a + grabBlockSize)) (unat b) bs"
      using less by blast
    have sub: "unat (b - a) = unat b - unat a"
      using lt by (simp add: unat_sub word_le_nat_alt)
    show ?thesis
    proof (cases "b < a + grabBlockSize")
      case True
      then have "unat b \<le> unat (a + grabBlockSize)" by (simp add: word_less_nat_alt)
      then have "bs = []" using bs(2) tiles_past by blast
      then show ?thesis
        using \<open>a < b\<close> True bs(1) sub lt sum
        by (subst grabBlocks.simps) (simp add: word_less_nat_alt)
    next
      case False
      then show ?thesis
        using \<open>a < b\<close> bs sum
        by (subst grabBlocks.simps) (simp add: word_less_nat_alt unat_grabBlockSize)
    qed
  qed
qed

text \<open>
  C22. The comparison of a memory range ends and misses nothing: for a range that ends at least 4 MiB
  below the top of the 64-bit addresses, the loop visits finitely many blocks that follow each other
  without a gap from the range's start to its end, none longer than 4 MiB, so it makes at most
  \<open>(end - start) / 4 MiB + 1\<close> rounds.
\<close>

theorem grabBlocks_terminates:
  assumes "unat b + unat grabBlockSize \<le> 2 ^ 64"
  shows "\<exists>bs. grabBlocks a b = Some bs \<and> tiles (unat a) (unat b) bs \<and>
    length bs \<le> (unat b - unat a) div unat grabBlockSize + 1"
proof -
  have len: "length bs \<le> (y - x) div unat grabBlockSize + 1" if "tiles x y bs" for x y bs
    using that
  proof (induction x y bs rule: tiles.induct)
    case (2 x y o' n bs)
    show ?case
    proof (cases "unat grabBlockSize \<le> y - x")
      case True
      then have n: "unat n = unat grabBlockSize" using 2(2) by simp
      have "(y - x) div unat grabBlockSize = (y - (x + unat n)) div unat grabBlockSize + 1"
        using True div_add_self2[of "unat grabBlockSize" "y - x - unat grabBlockSize"]
        by (simp add: n unat_grabBlockSize)
      moreover have "length bs \<le> (y - (x + unat n)) div unat grabBlockSize + 1"
        using 2 n by auto
      ultimately show ?thesis by simp
    next
      case False
      then have "x + unat n = y" and "tiles (x + unat n) y bs" using 2(2) by auto
      then have "bs = []" using tiles_past by blast
      then show ?thesis by simp
    qed
  qed simp
  show ?thesis
    using grabBlocks_tile[OF assms] len by blast
qed

theorem grabBlocks_terminates_witness:
  "\<exists>bs. grabBlocks 4096 8392704 = Some bs \<and> tiles 4096 8392704 bs \<and> length bs \<le> 2 + 1"
  using grabBlocks_terminates[of 8392704 4096] by (simp add: unat_grabBlockSize)

section \<open>The process is stopped and started\<close>

lemma grabBlock_stays_paused:
  "stays_inv (\<lambda>s. paused (s :: ('z) rt_sys_scheme) \<and> (PauseProcess, True) \<in> set (trace s)) (grabBlock e c r p)"
  unfolding grabBlock_def markAll_def by (intro stays) auto

lemma grabRange_stays_paused:
  "stays_inv (\<lambda>s. paused (s :: ('z) rt_sys_scheme) \<and> (PauseProcess, True) \<in> set (trace s)) (grabRange e c r)"
  unfolding grabRange_def doesNotEnd_def by (intro stays grabBlock_stays_paused) 

lemma wp_forEach_stays:
  assumes "\<And>x. x \<in> set xs \<Longrightarrow> stays_inv J (f x)" and "J s"
    and "\<And>r s'. J s' \<Longrightarrow> Q r s'"
  shows "wp (forEach xs f) Q s"
  by (rule stays_wp[OF stays_forEach[OF assms(1)] assms(2,3)])

text \<open>
  C23. A failsafe grab that does not succeed leaves the process stopped. After
  \<open>grabMemoryChangesFailsafe\<close>, called while the process runs, the process is stopped exactly when it
  was stopped by the call and the call did not succeed: no error path but success starts it again.
\<close>

theorem failsafe_error_leaves_process_stopped:
  fixes s :: "('z) rt_sys_scheme"
  assumes "\<not> paused s" and "(PauseProcess, True) \<notin> set (trace s)"
  shows "wp (grabMemoryChangesFailsafe e c) (\<lambda>r s'.
     paused s' \<longleftrightarrow> r \<noteq> Ok () \<and> (PauseProcess, True) \<in> set (trace s')) s"
proof -
  have ranges: "wp (forEach rs (grabRange e c)) Q t"
    if "paused t" "(PauseProcess, True) \<in> set (trace t)"
      "\<And>r s'. paused s' \<Longrightarrow> (PauseProcess, True) \<in> set (trace s') \<Longrightarrow> Q r s'"
    for rs Q and t :: "('z) rt_sys_scheme"
    by (rule wp_forEach_stays[where J = "\<lambda>s. paused s \<and> (PauseProcess, True) \<in> set (trace s)"])
      (use that grabRange_stays_paused in auto)
  show ?thesis
    unfolding grabMemoryChangesFailsafe_def
    apply (simp add: go_wp lockcb_def assms split: option.splits)
    apply (intro allI conjI impI ranges)
    apply (simp_all add: go_wp)
    apply (rename_tac r s', case_tac r)
    apply (auto simp: go_wp unlockcb_def split: option.splits)
    done
qed


section \<open>The device holds the memory\<close>

text \<open>The reference: the bytes of a range of the memory, put at its place on the device.\<close>

definition copyRange :: "(nat \<Rightarrow> 8 word) \<Rightarrow> mem_range \<Rightarrow> (nat \<Rightarrow> 8 word) \<Rightarrow> nat \<Rightarrow> 8 word" where
  "copyRange m r p = (\<lambda>i. let off = unat (mr_Offset r) in
     if off \<le> i \<and> i < off + (unat (mr_End r) - unat (mr_Start r))
     then m (unat (mr_Start r) + (i - off)) else p i)"

text \<open>Ranges as the kernel reports them: nowhere near the top of the addresses.\<close>

definition range_ok :: "mem_range \<Rightarrow> bool" where
  "range_ok r \<longleftrightarrow> unat (mr_Start r) \<le> unat (mr_End r) \<and>
     unat (mr_End r) + unat grabBlockSize \<le> 2 ^ 64 \<and>
     unat (mr_Offset r) + (unat (mr_End r) - unat (mr_Start r)) < 2 ^ 64"

lemma unat_offset:
  fixes off a st :: "64 word"
  assumes "unat st \<le> unat a" and "unat off + (unat a - unat st) < 2 ^ 64"
  shows "unat (off + a - st) = unat off + (unat a - unat st)"
proof -
  have sub: "unat (a - st) = unat a - unat st"
    using assms(1) by (simp add: unat_sub word_le_nat_alt)
  have "unat (off + (a - st)) = unat off + unat (a - st)"
    using assms(2) sub by (subst unat_add_lem[THEN iffD1]) auto
  then show ?thesis using sub by (simp add: add_diff_eq)
qed

lemma writeBytes_same: "writeBytes a (bytesAt p a n) p = p"
  by (auto simp: writeBytes_def bytesAt_def fun_eq_iff)

lemma grabBlock_ok:
  fixes s :: "('z) rt_sys_scheme"
  assumes "\<And>tr. memoryByte e tr = m" and "rc_GrabUpdateMemory c"
  shows "wp (grabBlock e c r (a, n)) (if_ok (\<lambda>_ s'.
    prov s' = writeBytes (unat (mr_Offset r + a - mr_Start r)) (bytesAt m (unat a) (unat n)) (prov s))) s"
  using writeBytes_same[of "unat (mr_Offset r + a - mr_Start r)" "prov s" "unat n"]
  by (auto simp: grabBlock_def markAll_def assms go_wp Let_def split: option.splits)

lemma grabBlocks_ok:
  fixes s :: "('z) rt_sys_scheme"
  assumes m: "\<And>tr. memoryByte e tr = m" and c: "rc_GrabUpdateMemory c" and "range_ok r"
    and "tiles a (unat (mr_End r)) bs" and "unat (mr_Start r) \<le> a"
  shows "wp (forEach bs (grabBlock e c r)) (if_ok (\<lambda>_ s'. prov s' =
    (\<lambda>i. let off = unat (mr_Offset r) in
     if off + (a - unat (mr_Start r)) \<le> i \<and> i < off + (unat (mr_End r) - unat (mr_Start r))
     then m (unat (mr_Start r) + (i - off)) else prov s i))) s"
  using assms(4,5)
proof (induction bs arbitrary: a s)
  case Nil
  then show ?case by (auto simp: go_wp fun_eq_iff Let_def)
next
  case (Cons p bs)
  obtain x n where p: "p = (x, n)" by (cases p)
  have x: "unat x = a" "a < unat (mr_End r)" "a + unat n \<le> unat (mr_End r)"
    "tiles (a + unat n) (unat (mr_End r)) bs"
    using Cons.prems(1) by (auto simp: p)
  have off: "unat (mr_Offset r + x - mr_Start r) = unat (mr_Offset r) + (a - unat (mr_Start r))"
    using assms(3) x Cons.prems(2) unfolding x(1)[symmetric]
    by (intro unat_offset) (auto simp: range_ok_def)
  show ?case
    unfolding forEach.simps p
  proof (intro ok_andThen if_ok_weaken[OF grabBlock_ok[OF m c]])
    fix u and t :: "('z) rt_sys_scheme"
    assume t: "prov t = writeBytes (unat (mr_Offset r + x - mr_Start r)) (bytesAt m (unat x) (unat n)) (prov s)"
    have "unat (mr_Start r) \<le> a + unat n" using Cons.prems(2) by simp
    then show "wp (forEach bs (grabBlock e c r)) (if_ok (\<lambda>_ s'. prov s' =
    (\<lambda>i. let off = unat (mr_Offset r) in
     if off + (a - unat (mr_Start r)) \<le> i \<and> i < off + (unat (mr_End r) - unat (mr_Start r))
     then m (unat (mr_Start r) + (i - off)) else prov s i))) t"
      using Cons.prems(2) x(1,3)
      by (intro if_ok_weaken[OF Cons.IH[OF x(4)]])
        (auto simp: t off writeBytes_def bytesAt_def fun_eq_iff Let_def intro!: arg_cong[where f = m])
  qed
qed

lemma grabRange_ok:
  fixes s :: "('z) rt_sys_scheme"
  assumes m: "\<And>tr. memoryByte e tr = m" and c: "rc_GrabUpdateMemory c" and r: "range_ok r"
  shows "wp (grabRange e c r) (if_ok (\<lambda>_ s'. prov s' = copyRange m r (prov s))) s"
proof -
  obtain bs where bs: "grabBlocks (mr_Start r) (mr_End r) = Some bs"
    "tiles (unat (mr_Start r)) (unat (mr_End r)) bs"
    using grabBlocks_tile[of "mr_End r" "mr_Start r"] r by (auto simp: range_ok_def)
  show ?thesis
    unfolding grabRange_def bs(1) option.case
    by (rule if_ok_weaken[OF grabBlocks_ok[OF m c r bs(2) order_refl]])
      (simp add: copyRange_def Let_def)
qed

lemma grabRanges_ok:
  fixes s :: "('z) rt_sys_scheme"
  assumes m: "\<And>tr. memoryByte e tr = m" and c: "rc_GrabUpdateMemory c" and "\<forall>r \<in> set rs. range_ok r"
  shows "wp (forEach rs (grabRange e c)) (if_ok (\<lambda>_ s'. prov s' = fold (copyRange m) rs (prov s))) s"
  using assms(3)
proof (induction rs arbitrary: s)
  case Nil
  show ?case by (simp add: go_wp)
next
  case (Cons r rs)
  show ?case
    unfolding forEach.simps
    by (intro ok_andThen if_ok_weaken[OF grabRange_ok[OF m c]] if_ok_weaken[OF Cons.IH])
      (use Cons.prems in auto)
qed

text \<open>
  C7. A failsafe grab that succeeds brings the device up to date: with memory updates on, and the memory
  as it was when the process was stopped, the device afterwards is the device before with every
  memory range copied to its place, although only the blocks that differ were written.
\<close>

theorem failsafe_copies_memory:
  fixes s :: "('z) rt_sys_scheme"
  assumes "\<And>tr. memoryByte e tr = m" and "rc_GrabUpdateMemory c"
    and "\<forall>r \<in> set (memoryRanges e (trace s)). range_ok r"
  shows "wp (grabMemoryChangesFailsafe e c) (if_ok (\<lambda>_ s'.
    prov s' = fold (copyRange m) (memoryRanges e (trace s)) (prov s))) s"
  unfolding grabMemoryChangesFailsafe_def lockcb_def unlockcb_def
  apply (intro ok_rules)
  apply (rule if_ok_weaken[OF grabRanges_ok[OF assms(1,2)]])
  using assms(3) apply simp
  apply (intro ok_rules)
  apply simp
  done


section \<open>Examples\<close>

text \<open>A process with four bytes of memory, all 9.\<close>

definition rt_demo :: "fc_call option \<Rightarrow> rt_env" where
  "rt_demo bad = fc_env.extend (fc_demo bad)
     \<lparr>memoryRanges = (\<lambda>_. [\<lparr>mr_Start = 4096, mr_End = 4100, mr_Offset = 8\<rparr>]), memoryByte = (\<lambda>_ _. 9),
      softDirtyRanges = (\<lambda>_. [(4096, 4100)]), memoryInfo = \<lparr>mi_NumBlocks = 3, mi_BlockSize = 4, mi_Size = 12\<rparr>,
      unrequiredBlocks = (\<lambda>_. [1]), writebackBlocks = (\<lambda>_. [0]), memoryBlock = (\<lambda>_ _. [9, 9, 9, 9]),
      configData = (\<lambda>_. ''{}'' @ [CHR 0x00]), decodeConfig = (\<lambda>_. Inr 26), deviceNames = (\<lambda>_. [''memory'']),
      hasSyncInfo = False\<rparr>"

definition rt_start :: rt_sys where
  "rt_start = fc_machine.extend fc_running
     \<lparr>rt_hasMachine = True, rt_hasAgent = False, rt_running = False, rt_grabbing = False, rt_GrabMemory = True,
      hypervisorCancelled = False, rt_dg = False, lateWriteHooks = [], dirtyMarks = Some [], syncMarks = None,
      writebackMarks = None, prov = (\<lambda>_. 0), paused = False\<rparr>"

definition rc_demo :: rt_config where
  "rc_demo = \<lparr>rc_Machine = conf_demo, rc_GrabInterval = 1, rc_GrabFailsafe = True, rc_GrabUpdateDirty = True,
     rc_GrabUpdateMemory = True, rc_DirectMemory = True, rc_DirectMemoryWriteback = False, rc_hasRunningCB = True\<rparr>"

lemma rt_demo_fields [simp]:
  "fails (rt_demo bad) = (\<lambda>_ c. if Some c = bad then Some (Ext 3) else None)"
  "memoryRanges (rt_demo bad) = (\<lambda>_. [\<lparr>mr_Start = 4096, mr_End = 4100, mr_Offset = 8\<rparr>])"
  "memoryByte (rt_demo bad) = (\<lambda>_ _. 9)"
  "decodeConfig (rt_demo bad) = (\<lambda>_. Inr 26)" "configData (rt_demo bad) = (\<lambda>_. ''{}'' @ [CHR 0x00])"
  "memoryInfo (rt_demo bad) = \<lparr>mi_NumBlocks = 3, mi_BlockSize = 4, mi_Size = 12\<rparr>"
  "unrequiredBlocks (rt_demo bad) = (\<lambda>_. [1])" "deviceNames (rt_demo bad) = (\<lambda>_. [''memory''])"
  "hasSyncInfo (rt_demo bad) = False"
  by (simp_all add: rt_demo_def fc_demo_def fc_env.defs)

lemmas rt_demo_eval = rt_start_def rc_demo_def conf_demo_def fc_running_def fc_machine.defs

lemma bytesAt_const [simp]: "bytesAt (\<lambda>_. x) a n = replicate n x"
  by (simp add: bytesAt_def map_replicate_const)

lemma demo_blocks: "grabBlocks 4096 4100 = Some [(4096, 4)]"
  by (subst grabBlocks.simps, subst grabBlocks.simps) (simp add: grabBlockSize_def)

theorem failsafe_error_leaves_process_stopped_witness:
  "\<exists>r s. grabMemoryChangesFailsafe (rt_demo (Some (OpenMemory 42))) rc_demo rt_start = (r, s) \<and>
     r = Err (Ext 3) \<and> paused s"
proof -
  obtain r s where run: "grabMemoryChangesFailsafe (rt_demo (Some (OpenMemory 42))) rc_demo rt_start = (r, s)"
    and r: "r = Err (Ext 3)" "(PauseProcess, True) \<in> set (trace s)"
    by (simp add: grabMemoryChangesFailsafe_def lockcb_def rt_demo_eval go_defs)
  have "\<not> paused rt_start" "(PauseProcess, True) \<notin> set (trace rt_start)"
    by (simp_all add: rt_demo_eval)
  from wpD[OF failsafe_error_leaves_process_stopped[OF this] run] r run show ?thesis by auto
qed

theorem failsafe_copies_memory_witness:
  "\<exists>s. grabMemoryChangesFailsafe (rt_demo None) rc_demo rt_start = (Ok (), s) \<and>
     prov s 7 = 0 \<and> prov s 8 = 9 \<and> prov s 11 = 9 \<and> prov s 12 = 0"
proof -
  obtain s where run: "grabMemoryChangesFailsafe (rt_demo None) rc_demo rt_start = (Ok (), s)"
    by (simp add: grabMemoryChangesFailsafe_def lockcb_def unlockcb_def grabRange_def demo_blocks grabBlock_def
        markAll_def rt_demo_eval go_defs)
  have "wp (grabMemoryChangesFailsafe (rt_demo None) rc_demo) (if_ok (\<lambda>_ s'.
    prov s' = fold (copyRange (\<lambda>_. 9)) (memoryRanges (rt_demo None) (trace rt_start)) (prov rt_start))) rt_start"
    by (rule failsafe_copies_memory) (simp_all add: rc_demo_def range_ok_def unat_grabBlockSize)
  from if_okD[OF this run] run show ?thesis
    by (auto simp: copyRange_def rt_demo_eval Let_def)
qed

end
