(* ===== verification/Runtime.thy ===== *)
theory Runtime
  imports MemoryGrab DeviceNames
begin

text \<open>
  The Firecracker runtime (\<^verbatim>\<open>pkg/runtimes/firecracker/runtime.go\<close>): it starts a machine, resumes it
  from the devices of a migration, flushes its memory, suspends it and closes it. The state is
  \<open>rt_sys\<close>; the agent's RPC server and the machine's API are calls of the trace. The lock
  \<open>runningLock\<close> is held by \<open>Resume\<close> and \<open>Suspend\<close> from beginning to end, so each is one
  computation. Logging and timing are left out.
\<close>

section \<open>The running state\<close>

text \<open>
  The periodic grabber starts when the machine begins to run, if an interval is set, and has ended
  when \<open>setRunning\<close> returns from stopping it.
\<close>

definition setRunning ::
    "('y) rt_env_scheme \<Rightarrow> rt_config \<Rightarrow> bool \<Rightarrow> (('z) rt_sys_scheme, unit) go" where
  "setRunning e c r = reading rt_running (\<lambda>old. if old = r then ret () else
     andThen (update (\<lambda>s. s\<lparr>rt_running := r\<rparr>)) (\<lambda>_.
     andThen (whenM (rc_hasRunningCB c) (actIgnore e (RunningCB r))) (\<lambda>_.
     whenM (rc_GrabInterval c \<noteq> 0) (update (\<lambda>s. s\<lparr>rt_grabbing := r\<rparr>)))))"

text \<open>One tick of the grabber: the error is only logged.\<close>

definition grabberTick :: "('y) rt_env_scheme \<Rightarrow> rt_config \<Rightarrow> (('z) rt_sys_scheme, unit) go" where
  "grabberTick e c = attempt (grabMemoryChanges e c) (\<lambda>_. ret ())"

section \<open>Starting\<close>

definition rt_Start ::
    "('y) rt_env_scheme \<Rightarrow> rt_config \<Rightarrow> start_event list \<Rightarrow> (('z) rt_sys_scheme, unit) go" where
  "rt_Start e c evs =
     andThen (update (\<lambda>s. s\<lparr>hypervisorCancelled := False, rt_hasMachine := False\<rparr>)) (\<lambda>_.
     andThen (StartFirecrackerMachine e (rc_Machine c) evs) (\<lambda>made.
     update (\<lambda>s. s\<lparr>rt_hasMachine := made\<rparr>)))"

section \<open>Resuming\<close>

text \<open>The machine may be nil; the path and the pid are read through its pointer.\<close>

definition onMachine :: "(('z) rt_sys_scheme, 'a) go \<Rightarrow> (('z) rt_sys_scheme, 'a) go" where
  "onMachine m = reading rt_hasMachine (\<lambda>machine. if machine then m else panic NilDeref)"

definition rt_DevicePath :: "(('z) rt_sys_scheme, string) go" where
  "rt_DevicePath = onMachine (reading VMPath ret)"

definition rt_GetVMPid :: "(('z) rt_sys_scheme, nat) go" where
  "rt_GetVMPid = onMachine (reading VMPid ret)"

text \<open>The configuration ends at the first zero byte; without one it is cut to nothing.\<close>

fun firstZeroFrom :: "nat \<Rightarrow> string \<Rightarrow> nat" where
  "firstZeroFrom i [] = 0"
| "firstZeroFrom i (ch # cs) = (if ch = CHR 0x00 then i else firstZeroFrom (Suc i) cs)"

definition cutAtZero :: "string \<Rightarrow> string" where
  "cutAtZero data = take (firstZeroFrom 0 data) data"

definition readConfig :: "('y) rt_env_scheme \<Rightarrow> (('z) rt_sys_scheme, 32 word) go" where
  "readConfig e = andThen rt_DevicePath (\<lambda>p.
     wrapErr (RuntimeErr ErrCouldNotOpenConfigFile)
       (ask e (configData e) (ReadHostFile (filepath_Join [p, DeviceConfigName]))) (\<lambda>data.
     case decodeConfig e (cutAtZero data) of
       Inl x \<Rightarrow> throw (Joined [RuntimeErr ErrCouldNotDecodeConfigFile, x])
     | Inr port \<Rightarrow> ret port))"

text \<open>
  The blocks Silo does need are marked dirty: \<open>blocks[b] = true\<close> for the others, which panics for a
  block the device does not have.
\<close>

definition markedBlocks :: "nat \<Rightarrow> nat list \<Rightarrow> bool list" where
  "markedBlocks n unreq = fold (\<lambda>b bs. bs[b := True]) unreq (replicate n False)"

definition neededMarks :: "mem_info \<Rightarrow> nat list \<Rightarrow> (int \<times> int) list" where
  "neededMarks mi unreq = map (\<lambda>b. (int b * int (mi_BlockSize mi), int (mi_BlockSize mi)))
     [b \<leftarrow> [0..<mi_NumBlocks mi]. \<not> markedBlocks (mi_NumBlocks mi) unreq ! b]"

definition trackMemory :: "('y) rt_env_scheme \<Rightarrow> rt_config \<Rightarrow> (('z) rt_sys_scheme, unit) go" where
  "trackMemory e c = whenM (rc_DirectMemory c)
     (reading (\<lambda>s. unrequiredBlocks e (trace s)) (\<lambda>unreq.
      if \<not> list_all (\<lambda>b. b < mi_NumBlocks (memoryInfo e)) unreq then panic IndexOutOfRange else
      andThen (update (\<lambda>s. s\<lparr>dirtyMarks := Some (neededMarks (memoryInfo e) unreq)\<rparr>)) (\<lambda>_.
      whenM (rc_DirectMemoryWriteback c) (update (\<lambda>s. s\<lparr>writebackMarks := Some []\<rparr>)))))"

definition accessMemory :: "('y) rt_env_scheme \<Rightarrow> rt_config \<Rightarrow> (('z) rt_sys_scheme, unit) go" where
  "accessMemory e c = whenM (rc_DirectMemory c)
     (andThen (act e NewProcessMemory) (\<lambda>_.
      whenM (hasSyncInfo e) (update (\<lambda>s. s\<lparr>syncMarks := Some []\<rparr>))))"

text \<open>
  The call of the agent is tried again, each time after a second, until \<open>resumeMaxRetries\<close> is
  reached; the counter is counted up before it is compared.
\<close>

definition resumeMaxRetries :: nat where "resumeMaxRetries = 10"

function afterResume ::
    "('y) rt_env_scheme \<Rightarrow> nat \<Rightarrow> (('z) rt_sys_scheme, unit) go" where
  "afterResume e retries =
     (if Suc retries \<ge> resumeMaxRetries then throw (RuntimeErr ErrCouldNotResumeRunner) else
      attempt (andThen (act e AgentGetRemote) (\<lambda>_. act e AgentAfterResume)) (\<lambda>r. case r of
        Inr _ \<Rightarrow> ret ()
      | Inl _ \<Rightarrow> afterResume e (Suc retries)))"
  by pat_completeness auto
termination
  by (relation "measure (\<lambda>(_, retries). resumeMaxRetries - retries)") (auto simp: resumeMaxRetries_def)

declare afterResume.simps [simp del]

definition VSockName :: string where "VSockName = ''vsock.sock''"

definition startAgent :: "('y) rt_env_scheme \<Rightarrow> 32 word \<Rightarrow> (('z) rt_sys_scheme, unit) go" where
  "startAgent e port = reading VMPath (\<lambda>p.
     attempt (act e (StartAgent (filepath_Join [p, VSockName]) (unat port))) (\<lambda>r. case r of
       Inl x \<Rightarrow> andThen (update (\<lambda>s. s\<lparr>rt_hasAgent := False\<rparr>)) (\<lambda>_. throw x)
     | Inr _ \<Rightarrow> update (\<lambda>s. s\<lparr>rt_hasAgent := True\<rparr>)))"

definition rt_Resume :: "('y) rt_env_scheme \<Rightarrow> rt_config \<Rightarrow> (('z) rt_sys_scheme, unit) go" where
  "rt_Resume e c =
     andThen (readConfig e) (\<lambda>port.
     andThen (trackMemory e c) (\<lambda>_.
     andThen (ResumeSnapshot e (rc_Machine c) DeviceStateName DeviceMemoryName) (\<lambda>_.
     andThen (accessMemory e c) (\<lambda>_.
     andThen (update (\<lambda>s. s\<lparr>rt_dg := True\<rparr>)) (\<lambda>_.
     andThen (setRunning e c True) (\<lambda>_.
     andThen (startAgent e port) (\<lambda>_.
     afterResume e 0)))))))"

section \<open>Flushing\<close>

definition FlushData :: "('y) rt_env_scheme \<Rightarrow> rt_config \<Rightarrow> (('z) rt_sys_scheme, unit) go" where
  "FlushData e c = reading rt_GrabMemory (\<lambda>grab.
     onMachine (if grab then grabMemoryChanges e c
     else wrapErr (SnapshotterErr ErrCouldNotCreateSnapshot)
       (Machine_CreateSnapshot e DeviceStateName [] SDKSnapshotTypeMsync) ret))"

text \<open>One block of memory written back to its device.\<close>

definition writebackBlock :: "('y) rt_env_scheme \<Rightarrow> nat \<Rightarrow> (('z) rt_sys_scheme, unit) go" where
  "writebackBlock e b =
     (let off = b * mi_BlockSize (memoryInfo e) in
      andThen (ask e (\<lambda>tr. memoryBlock e tr b) (ReadMemory off (mi_BlockSize (memoryInfo e)))) (\<lambda>buffer.
      andThen (act e (WriteProvider off (length buffer))) (\<lambda>_.
      update (\<lambda>s. s\<lparr>prov := writeBytes off buffer (prov s)\<rparr>))))"

definition FlushDevices :: "('y) rt_env_scheme \<Rightarrow> rt_config \<Rightarrow> (('z) rt_sys_scheme, unit) go" where
  "FlushDevices e c = whenM (rc_DirectMemoryWriteback c)
     (reading rt_dg (\<lambda>dg. if \<not> dg then panic NilDeref else
      reading (\<lambda>s. writebackBlocks e (trace s)) (\<lambda>dirtyBlocks.
      andThen (onMachine (act e NewProcessMemory)) (\<lambda>_. forEach dirtyBlocks (writebackBlock e)))))"

section \<open>Suspending and closing\<close>

text \<open>Every device of the group gets a hook that only logs late writes.\<close>

definition watchLateWrites :: "('y) rt_env_scheme \<Rightarrow> (('z) rt_sys_scheme, unit) go" where
  "watchLateWrites e = reading (\<lambda>s. (rt_dg s, deviceNames e (trace s))) (\<lambda>(dg, names).
     whenM dg (update (\<lambda>s. s\<lparr>lateWriteHooks := lateWriteHooks s @ names\<rparr>)))"

definition rt_Suspend :: "('y) rt_env_scheme \<Rightarrow> rt_config \<Rightarrow> (('z) rt_sys_scheme, unit) go" where
  "rt_Suspend e c = reading rt_running (\<lambda>running. if \<not> running then ret () else
     reading rt_hasAgent (\<lambda>agent. if \<not> agent then panic NilDeref else
     andThen (act e AgentGetRemote) (\<lambda>_.
     wrapErr (SnapshotterErr ErrCouldNotCallBeforeSuspendRPC) (act e AgentBeforeSuspend) (\<lambda>_.
     andThen (act e AgentClose) (\<lambda>_.
     wrapErr (SnapshotterErr ErrCouldNotCreateSnapshot)
       (Machine_CreateSnapshot e DeviceStateName [] SDKSnapshotTypeMsyncAndState) (\<lambda>_.
     andThen (watchLateWrites e) (\<lambda>_.
     andThen (setRunning e c False) (\<lambda>_.
     reading rt_GrabMemory (\<lambda>grab. whenM grab (grabMemoryChanges e c))))))))))"

definition closeAgent :: "('y) rt_env_scheme \<Rightarrow> rt_config \<Rightarrow> (('z) rt_sys_scheme, unit) go" where
  "closeAgent e c = reading rt_hasAgent (\<lambda>agent. whenM agent
     (andThen (update (\<lambda>s. s\<lparr>rt_GrabMemory := False\<rparr>)) (\<lambda>_.
      andThen (rt_Suspend e c) (\<lambda>_.
      andThen (update (\<lambda>s. s\<lparr>hypervisorCancelled := True\<rparr>)) (\<lambda>_.
      act e AgentClose)))))"

definition rt_Close ::
    "('y) rt_env_scheme \<Rightarrow> rt_config \<Rightarrow> goerr option \<Rightarrow> (('z) rt_sys_scheme, unit) go" where
  "rt_Close e c exit =
     andThen (closeAgent e c) (\<lambda>_.
     reading (\<lambda>s. (rt_hasMachine s, VMPath s)) (\<lambda>(machine, p). whenM machine
       (wrapErr (MachineErr ErrCouldNotCloseServer) (Machine_Close e exit) (\<lambda>_.
        wrapErr (RuntimeErr ErrCouldNotRemoveVMDir) (act e (RemoveAll (filepath_Dir p))) ret))))"

text \<open>The remote end of the agent, for the caller to talk to.\<close>

definition rt_GetRemote :: "('y) rt_env_scheme \<Rightarrow> (('z) rt_sys_scheme, unit) go" where
  "rt_GetRemote e = reading rt_hasAgent (\<lambda>agent. if agent then act e AgentGetRemote else panic NilDeref)"

section \<open>The grabber runs while the machine does\<close>

definition rt_inv :: "rt_config \<Rightarrow> ('z) rt_sys_scheme \<Rightarrow> bool" where
  "rt_inv c s \<longleftrightarrow> (rt_grabbing s \<longleftrightarrow> rt_running s \<and> rc_GrabInterval c \<noteq> 0)"

lemma rt_inv_fields [simp]:
  "rt_inv c (trace_update f s) = rt_inv c s" "rt_inv c (prov_update g s) = rt_inv c s"
  "rt_inv c (paused_update h s) = rt_inv c s" "rt_inv c (dirtyMarks_update f1 s) = rt_inv c s"
  "rt_inv c (syncMarks_update f2 s) = rt_inv c s" "rt_inv c (writebackMarks_update f3 s) = rt_inv c s"
  "rt_inv c (rt_dg_update f4 s) = rt_inv c s" "rt_inv c (rt_hasAgent_update f5 s) = rt_inv c s"
  "rt_inv c (rt_hasMachine_update f6 s) = rt_inv c s" "rt_inv c (rt_GrabMemory_update f7 s) = rt_inv c s"
  "rt_inv c (hypervisorCancelled_update f8 s) = rt_inv c s" "rt_inv c (lateWriteHooks_update f9 s) = rt_inv c s"
  "rt_inv c (VMPath_update fa s) = rt_inv c s" "rt_inv c (VMPid_update fb s) = rt_inv c s"
  "rt_inv c (machine_closed_update fc s) = rt_inv c s" "rt_inv c (cmdErr_update fd s) = rt_inv c s"
  by (simp_all add: rt_inv_def)

text \<open>What a grab of the memory changes, for the invariants that do not look at it.\<close>

lemma stays_grab_if:
  fixes I :: "('z) rt_sys_scheme \<Rightarrow> bool"
  assumes upd: "\<And>s p. I s \<Longrightarrow> I (trace_update (\<lambda>t. t @ [p]) s)" "\<And>s f. I s \<Longrightarrow> I (paused_update f s)"
    "\<And>s f. I s \<Longrightarrow> I (prov_update f s)" "\<And>s f. I s \<Longrightarrow> I (dirtyMarks_update f s)"
    "\<And>s f. I s \<Longrightarrow> I (syncMarks_update f s)" "\<And>s f. I s \<Longrightarrow> I (writebackMarks_update f s)"
  shows "stays_inv I (grabMemoryChanges e c)"
proof -
  have mark: "stays_inv I (markAll a b)" for a b
    unfolding markAll_def by (intro stays upd)
  have unlock: "stays_inv I (unlockcb e)" "stays_inv I (lockcb e)"
    unfolding unlockcb_def lockcb_def by (intro stays upd; assumption)+
  have soft: "stays_inv I (collectSoftDirty e rs acc)" for rs acc
    by (induction rs arbitrary: acc) (auto intro!: stays unlock upd)
  show ?thesis
    unfolding grabMemoryChanges_def grabMemoryChangesFailsafe_def grabMemoryChangesSoftDirty_def
      grabRange_def grabBlock_def markCopyData_def doesNotEnd_def
    by (intro stays mark unlock soft upd; assumption)
qed

lemma stays_grab [stays]:
  "stays_inv (rt_inv c :: ('z) rt_sys_scheme \<Rightarrow> bool) (grabMemoryChanges e c')"
  by (rule stays_grab_if) simp_all

lemma stays_setRunning [stays]:
  "stays_inv (rt_inv c :: ('z) rt_sys_scheme \<Rightarrow> bool) (setRunning e c r)"
  by (rule staysI) (auto simp: setRunning_def go_wp rt_inv_def)

lemma stays_afterResume [stays]:
  "stays_inv (rt_inv c :: ('z) rt_sys_scheme \<Rightarrow> bool) (afterResume e n)"
proof (induction e n rule: afterResume.induct)
  case (1 e n)
  show ?case
    by (subst afterResume.simps) (intro stays 1; simp)
qed

lemma stays_waitForSocket [stays]:
  "stays_inv (rt_inv c :: ('z) rt_sys_scheme \<Rightarrow> bool) (waitForSocket e sock evs)"
proof (induction evs)
  case (Cons ev evs)
  then show ?case by (cases ev) (auto intro!: stays)
qed (auto intro: stays)

lemma stays_Suspend [stays]: "stays_inv (rt_inv c :: ('z) rt_sys_scheme \<Rightarrow> bool) (rt_Suspend e c)"
  unfolding rt_Suspend_def Machine_CreateSnapshot_def watchLateWrites_def
  by (intro stays; simp)



section \<open>Suspending\<close>

text \<open>The calls that stop a machine, in their order.\<close>

definition suspendCalls :: "fc_call list" where
  "suspendCalls = [AgentGetRemote, AgentBeforeSuspend, AgentClose, PatchVM SDKVMStatePaused,
     SnapshotCreate [] DeviceStateName SDKSnapshotTypeMsyncAndState]"

lemma stays_suspended_grab:
  "stays_inv (\<lambda>s. \<not> rt_running (s :: ('z) rt_sys_scheme) \<and> prefix tr (trace s)) (grabMemoryChanges e c)"
  by (rule stays_grab_if) auto

lemma Suspend_not_running: "\<not> rt_running s \<Longrightarrow> rt_Suspend e c s = (Ok (), s)"
  by (simp add: rt_Suspend_def go_defs)

lemma Suspend_wp:
  fixes s :: "('z) rt_sys_scheme"
  assumes "rt_running s"
  shows "wp (rt_Suspend e c) (\<lambda>r s'.
     (\<not> rt_running s' \<longleftrightarrow> prefix (trace s @ map (\<lambda>x. (x, True)) suspendCalls) (trace s')) \<and>
     (r = Ok () \<longrightarrow> \<not> rt_running s') \<and> (r \<noteq> Ok () \<and> \<not> rt_running s' \<longrightarrow> rt_GrabMemory s)) s"
proof -
  have grab: "wp (grabMemoryChanges e c) Q t"
    if "\<not> rt_running t" "prefix tr (trace t)"
      "\<And>r s'. \<not> rt_running s' \<Longrightarrow> prefix tr (trace s') \<Longrightarrow> Q r s'"
    for tr Q and t :: "('z) rt_sys_scheme"
    by (rule stays_wp[OF stays_suspended_grab]) (use that in auto)
  show ?thesis
    using assms unfolding rt_Suspend_def Machine_CreateSnapshot_def watchLateWrites_def setRunning_def
    by (simp add: go_wp suspendCalls_def sdk_names split: option.splits)
      (intro allI conjI impI grab; simp)
qed


lemma Suspend_Ok: "rt_Suspend e c s = (Ok u, s') \<Longrightarrow> \<not> rt_running s'"
  by (cases "rt_running s") (auto simp: Suspend_not_running dest: wpD[OF Suspend_wp, of s])

interpretation rt_suspend: once_op "rt_Suspend e c" "\<lambda>s. \<not> rt_running s" for e c
  by unfold_locales (auto simp: Suspend_not_running Suspend_Ok)

text \<open>
  C6. A running machine is stopped only in order: after \<open>Suspend\<close> it is not running exactly when the agent was
  reached, was told, and was closed, then the machine was paused and the snapshot of its state was made, each of
  them with success and in this order. If \<open>Suspend\<close> returns no error the machine is stopped and
  suspending again does nothing; an error after that point comes only from the last grab of the memory.
\<close>

theorem Suspend_stops_in_order:
  fixes s :: "('z) rt_sys_scheme"
  assumes "rt_running s"
  shows "wp (rt_Suspend e c) (\<lambda>r s'.
     (\<not> rt_running s' \<longleftrightarrow> prefix (trace s @ map (\<lambda>x. (x, True)) suspendCalls) (trace s')) \<and>
     (r = Ok () \<longrightarrow> \<not> rt_running s' \<and> rt_Suspend e' c' s' = (Ok (), s')) \<and>
     (r \<noteq> Ok () \<and> \<not> rt_running s' \<longrightarrow> rt_GrabMemory s)) s"
  by (rule wp_mono[OF Suspend_wp[OF assms]]) (use rt_suspend.done_is_noop in blast)

section \<open>Resuming\<close>

abbreviation attempts :: "('z) rt_sys_scheme \<Rightarrow> nat" where
  "attempts s \<equiv> count_list (called s) AgentGetRemote"

definition resumed :: "('z) rt_sys_scheme \<Rightarrow> nat \<Rightarrow> unit res \<Rightarrow> ('z) rt_sys_scheme \<Rightarrow> bool" where
  "resumed s k r s' \<longleftrightarrow> rt_running s' = rt_running s \<and> rt_hasAgent s' = rt_hasAgent s \<and>
     dirtyMarks s' = dirtyMarks s \<and> prefix (trace s) (trace s') \<and> attempts s' \<le> attempts s + k \<and>
     (if r = Ok () then suffix [(AgentGetRemote, True), (AgentAfterResume, True)] (trace s')
      else r = Err (RuntimeErr ErrCouldNotResumeRunner) \<and> attempts s' = attempts s + k)"

lemma resumed_again:
  assumes "resumed (s\<lparr>trace := trace s @ (AgentGetRemote, b) # tr\<rparr>) k r s'" and "AgentGetRemote \<notin> fst ` set tr"
  shows "resumed s (Suc k) r s'"
proof -
  have "count_list (map fst tr) AgentGetRemote = 0" using assms(2) by simp
  then show ?thesis
    using assms(1) by (auto simp: resumed_def called_def prefix_def split: if_splits)
qed

lemma afterResume_wp:
  fixes s :: "('z) rt_sys_scheme"
  shows "wp (afterResume e n) (resumed s (resumeMaxRetries - 1 - n)) s"
proof (induction "resumeMaxRetries - n" arbitrary: n s rule: less_induct)
  case less
  show ?case
  proof (cases "resumeMaxRetries \<le> Suc n")
    case True
    then show ?thesis
      by (subst afterResume.simps) (auto simp: go_wp resumed_def)
  next
    case False
    then have k: "resumeMaxRetries - 1 - n = Suc (resumeMaxRetries - 1 - Suc n)" by simp
    have again: "wp (afterResume e (Suc n)) (resumed s (Suc (resumeMaxRetries - 1 - Suc n))) (s\<lparr>trace := trace s @ (AgentGetRemote, b) # tr\<rparr>)"
      if "AgentGetRemote \<notin> fst ` set tr" for b tr
      by (rule wp_mono[OF less]) (use False that in \<open>auto intro: resumed_again\<close>)
    have finish: "resumed s (Suc k) (Ok ()) (s\<lparr>trace := trace s @ [(AgentGetRemote, True), (AgentAfterResume, True)]\<rparr>)" for k
      by (auto simp: resumed_def called_def suffix_def)
    show ?thesis
      unfolding k
      using False again[of "[]"] again[of "[(AgentAfterResume, False)]"]
      by (subst afterResume.simps) (simp add: go_wp finish split: option.splits)
  qed
qed


lemma stays_then:
  assumes "stays_inv J m" and "J s" and "\<And>x t. J t \<Longrightarrow> wp (k x) Q t"
    and "\<And>x t. J t \<Longrightarrow> Q (Err x) t" and "\<And>x t. J t \<Longrightarrow> Q (Panic x) t"
  shows "wp (andThen m k) Q s"
  unfolding wp_andThen
  by (rule stays_wp[OF assms(1,2)], rename_tac r t, case_tac r) (use assms(3-5) in auto)

abbreviation loadCall :: "rt_config \<Rightarrow> fc_call" where
  "loadCall c \<equiv> LoadSnapshot SDKBackendTypeFile DeviceMemoryName DeviceStateName True (\<not> mc_NoMapShared (rc_Machine c))"

text \<open>What \<open>Resume\<close> promises, and what holds until the agent's server is started.\<close>

definition resume_post ::
    "rt_config \<Rightarrow> ('z) rt_sys_scheme \<Rightarrow> unit res \<Rightarrow> ('z) rt_sys_scheme \<Rightarrow> bool" where
  "resume_post c s r s' \<longleftrightarrow> attempts s' \<le> attempts s + (resumeMaxRetries - 1) \<and>
     (rt_running s' \<longrightarrow> rt_running s \<or> loadCall c \<in> set (succeeded s')) \<and>
     (r = Ok () \<longrightarrow> rt_running s' \<and> rt_hasAgent s' \<and>
        suffix [(AgentGetRemote, True), (AgentAfterResume, True)] (trace s')) \<and>
     ((\<exists>p n. (StartAgent p n, True) \<in> set (drop (length (trace s)) (trace s'))) \<and> r \<noteq> Ok () \<longrightarrow>
        r = Err (RuntimeErr ErrCouldNotResumeRunner) \<and> rt_running s' \<and>
        attempts s' = attempts s + (resumeMaxRetries - 1))"

definition preparing :: "fc_trace \<Rightarrow> fc_trace \<Rightarrow> bool" where
  "preparing tr0 tr1 \<longleftrightarrow> (\<exists>tr. tr1 = tr0 @ tr \<and>
     (\<forall>p \<in> set tr. fst p \<noteq> AgentGetRemote \<and> (\<forall>q n. fst p \<noteq> StartAgent q n)))"

lemma preparing_snoc [simp]:
  "preparing tr0 tr1 \<Longrightarrow> x \<noteq> AgentGetRemote \<Longrightarrow> (\<forall>q n. x \<noteq> StartAgent q n) \<Longrightarrow> preparing tr0 (tr1 @ [(x, b)])"
  by (auto simp: preparing_def)

lemma preparing_attempts: "preparing (trace s) (trace t) \<Longrightarrow> attempts t = attempts s"
  by (fastforce simp: preparing_def called_def count_list_0_iff)

lemma preparing_post:
  assumes "preparing (trace s) (trace t)" and "rt_running t \<longrightarrow> rt_running s \<or> loadCall c \<in> set (succeeded t)" and "r \<noteq> Ok ()"
  shows "resume_post c s r t"
  using assms preparing_attempts[OF assms(1)]
  by (fastforce simp: resume_post_def preparing_def)

lemma startAgent_post:
  fixes t :: "('z) rt_sys_scheme"
  assumes "preparing (trace s) (trace t)" and "rt_running t" and "loadCall c \<in> set (succeeded t)"
  shows "wp (andThen (startAgent e port) (\<lambda>_. afterResume e 0)) (resume_post c s) t"
proof -
  obtain tr where tr: "trace t = trace s @ tr"
    "\<forall>p \<in> set tr. fst p \<noteq> AgentGetRemote \<and> (\<forall>q n. fst p \<noteq> StartAgent q n)"
    using assms(1) by (auto simp: preparing_def)
  let ?c = "StartAgent (filepath_Join [VMPath t, VSockName]) (unat port)"
  have "attempts t = attempts s" by (rule preparing_attempts[OF assms(1)])
  then have failed: "resume_post c s (Err x) (t\<lparr>trace := trace t @ [(?c, False)], rt_hasAgent := False\<rparr>)" for x
    using assms(2,3) tr by (fastforce simp: resume_post_def called_def succeeded_def)
  have asked: "wp (afterResume e 0) (resume_post c s) (t\<lparr>trace := trace t @ [(?c, True)], rt_hasAgent := True\<rparr>)"
    by (rule wp_mono[OF afterResume_wp])
      (use assms(2,3) \<open>attempts t = attempts s\<close> in \<open>auto simp: resumed_def resume_post_def called_def succeeded_def prefix_def split: if_splits\<close>)
  show ?thesis
    using failed asked by (simp add: startAgent_def go_wp split: option.splits)
qed

text \<open>
  C16. \<open>Resume\<close> asks the agent at most \<open>resumeMaxRetries - 1\<close> times and then gives up. A machine it leaves running
  that did not run before was loaded from its snapshot; if it returns no error the machine runs, has an agent,
  and the last two calls are the successful lookup of the agent and its \<open>AfterResume\<close>. If the agent's server
  could be started and \<open>Resume\<close> fails nevertheless, all attempts were used up, and the machine is left running.
\<close>

theorem Resume_asks_agent:
  fixes s :: "('z) rt_sys_scheme"
  shows "wp (rt_Resume e c) (\<lambda>r s'. attempts s' \<le> attempts s + (resumeMaxRetries - 1) \<and>
     (rt_running s' \<longrightarrow> rt_running s \<or> loadCall c \<in> set (succeeded s')) \<and>
     (r = Ok () \<longrightarrow> rt_running s' \<and> rt_hasAgent s' \<and>
        suffix [(AgentGetRemote, True), (AgentAfterResume, True)] (trace s')) \<and>
     ((\<exists>p n. (StartAgent p n, True) \<in> set (drop (length (trace s)) (trace s'))) \<and> r \<noteq> Ok () \<longrightarrow>
        r = Err (RuntimeErr ErrCouldNotResumeRunner) \<and> rt_running s' \<and>
        attempts s' = attempts s + (resumeMaxRetries - 1))) s"
proof -
  define J where "J = (\<lambda>t :: ('z) rt_sys_scheme. preparing (trace s) (trace t) \<and> (rt_running t \<longrightarrow> rt_running s \<or> loadCall c \<in> set (succeeded t)))"
  define K where "K = (\<lambda>t :: ('z) rt_sys_scheme. preparing (trace s) (trace t) \<and> loadCall c \<in> set (succeeded t))"
  define L where "L = (\<lambda>t. K t \<and> rt_running t)"
  have post: "resume_post c s r t" if "J t \<or> K t \<or> L t" "r \<noteq> Ok ()" for r t
    using that by (auto intro!: preparing_post simp: J_def K_def L_def)
  have J: "stays_inv J (readConfig e)" "stays_inv J (trackMemory e c)"
    unfolding readConfig_def rt_DevicePath_def onMachine_def trackMemory_def J_def
    by (intro stays; auto simp: succeeded_def)+
  have K: "stays_inv K (accessMemory e c)" "stays_inv K (update (\<lambda>s. s\<lparr>rt_dg := True\<rparr>))"
    unfolding accessMemory_def K_def by (intro stays; auto simp: succeeded_def)+
  have load: "wp (ResumeSnapshot e (rc_Machine c) DeviceStateName DeviceMemoryName) (\<lambda>r t. case r of Ok _ \<Rightarrow> K t | _ \<Rightarrow> J t) t"
    if "J t" for t
    using that by (auto simp: ResumeSnapshot_def go_wp J_def K_def succeeded_def split: option.splits
      intro: rev_image_eqI[of "(loadCall c, True)"])
  have run: "wp (setRunning e c True) (\<lambda>r t. r = Ok () \<and> L t) t" if "K t" for t
    using that by (auto simp: setRunning_def go_wp K_def L_def succeeded_def)
  have "wp (rt_Resume e c) (resume_post c s) s"
    unfolding rt_Resume_def
  proof (rule stays_then[OF J(1)], goal_cases)
    case 1
    show ?case by (simp add: J_def preparing_def)
  next
    case (2 port t1)
    show ?case
    proof (rule stays_then[OF J(2) 2], goal_cases)
      case (1 _ t2)
      have "wp (andThen (accessMemory e c) (\<lambda>_. andThen (update (\<lambda>s. s\<lparr>rt_dg := True\<rparr>)) (\<lambda>_.
          andThen (setRunning e c True) (\<lambda>_. andThen (startAgent e port) (\<lambda>_. afterResume e 0)))))
          (resume_post c s) t3" if t3: "K t3" for t3
      proof (rule stays_then[OF K(1) t3], goal_cases)
        case (1 _ t4)
        show ?case
        proof (rule stays_then[OF K(2) 1], goal_cases)
          case (1 _ t5)
          show ?case
            unfolding wp_andThen[of "setRunning e c True"]
            by (rule wp_mono[OF run[OF 1]]) (clarsimp simp: L_def K_def startAgent_post)
        qed (simp_all add: post)
      qed (simp_all add: post)
      then show ?case
        unfolding wp_andThen[of "ResumeSnapshot e (rc_Machine c) DeviceStateName DeviceMemoryName"]
        by (intro wp_mono[OF load[OF 1]], rename_tac r t', case_tac r) (simp_all add: post)
    qed (simp_all add: post)
  qed (simp_all add: post)
  then show ?thesis by (simp only: resume_post_def[abs_def])
qed

text \<open>The blocks marked for a migration are exactly those Silo does not list.\<close>

lemma markedBlocks_iff:
  assumes "list_all (\<lambda>b. b < n) unreq" and "i < n"
  shows "markedBlocks n unreq ! i \<longleftrightarrow> i \<in> set unreq"
proof -
  have "length (fold (\<lambda>b bs. bs[b := True]) us bs) = length bs" for us and bs :: "bool list"
    by (induction us arbitrary: bs) auto
  moreover have "fold (\<lambda>b bs. bs[b := True]) us bs ! i \<longleftrightarrow> i \<in> set us \<or> bs ! i"
    if "i < length bs" for us and bs :: "bool list"
    using that
  proof (induction us arbitrary: bs)
    case (Cons a us)
    then show ?case by (cases "a = i") auto
  qed simp
  ultimately show ?thesis using assms by (simp add: markedBlocks_def)
qed

lemma set_neededMarks:
  assumes "list_all (\<lambda>b. b < mi_NumBlocks mi) unreq"
  shows "set (neededMarks mi unreq) = {(int b * int (mi_BlockSize mi), int (mi_BlockSize mi)) | b.
     b < mi_NumBlocks mi \<and> b \<notin> set unreq}"
  using markedBlocks_iff[OF assms] by (auto simp: neededMarks_def)

lemma stays_dirtyMarks:
  fixes m :: "(int \<times> int) list option"
  shows "stays_inv (\<lambda>s :: ('z) rt_sys_scheme. dirtyMarks s = m) (accessMemory e c)"
    "stays_inv (\<lambda>s :: ('z) rt_sys_scheme. dirtyMarks s = m) (setRunning e c b)"
    "stays_inv (\<lambda>s :: ('z) rt_sys_scheme. dirtyMarks s = m) (startAgent e port)"
    "stays_inv (\<lambda>s :: ('z) rt_sys_scheme. dirtyMarks s = m) (ResumeSnapshot e mc p q)"
    "stays_inv (\<lambda>s :: ('z) rt_sys_scheme. dirtyMarks s = m) (update (\<lambda>s. s\<lparr>rt_dg := True\<rparr>))"
    "stays_inv (\<lambda>s :: ('z) rt_sys_scheme. dirtyMarks s = m) (afterResume e k)"
  unfolding accessMemory_def setRunning_def startAgent_def ResumeSnapshot_def
  by (intro stays; simp)+ (rule staysI, rule wp_mono[OF afterResume_wp], simp add: resumed_def)

lemma stays_rest:
  "stays_inv I m \<Longrightarrow> (\<And>x. stays_inv I (k x)) \<Longrightarrow> I s \<Longrightarrow> (\<And>r t. I t \<Longrightarrow> Q r t) \<Longrightarrow> wp (andThen m k) Q s"
  by (rule stays_wp[OF stays_andThen(1)])

text \<open>
  C13. What a migration still has to send is known as soon as the machine may run: when \<open>Resume\<close> with direct
  memory leaves the machine running that did not run before, the tracker of the memory device has been
  marked, block by block, with exactly the blocks that Silo does not list as unrequired.
\<close>

theorem Resume_marks_needed_blocks:
  fixes s :: "('z) rt_sys_scheme"
  assumes "rc_DirectMemory c" and "\<And>tr. unrequiredBlocks e tr = unreq" and "\<not> rt_running s"
  shows "wp (rt_Resume e c) (\<lambda>_ s'. rt_running s' \<longrightarrow> (\<exists>marks. dirtyMarks s' = Some marks \<and>
     set marks = {(int b * int (mi_BlockSize (memoryInfo e)), int (mi_BlockSize (memoryInfo e))) | b.
       b < mi_NumBlocks (memoryInfo e) \<and> b \<notin> set unreq})) s"
proof -
  define Q where "Q = (\<lambda>(r :: unit res) (s' :: ('z) rt_sys_scheme). rt_running s' \<longrightarrow> (\<exists>marks. dirtyMarks s' = Some marks \<and>
     set marks = {(int b * int (mi_BlockSize (memoryInfo e)), int (mi_BlockSize (memoryInfo e))) | b.
       b < mi_NumBlocks (memoryInfo e) \<and> b \<notin> set unreq}))"
  have config: "stays_inv (\<lambda>t :: ('z) rt_sys_scheme. \<not> rt_running t) (readConfig e)"
    unfolding readConfig_def rt_DevicePath_def onMachine_def by (intro stays; simp)
  have rest: "wp (andThen (ResumeSnapshot e (rc_Machine c) DeviceStateName DeviceMemoryName) (\<lambda>_.
     andThen (accessMemory e c) (\<lambda>_. andThen (update (\<lambda>s. s\<lparr>rt_dg := True\<rparr>)) (\<lambda>_.
     andThen (setRunning e c True) (\<lambda>_. andThen (startAgent e port) (\<lambda>_. afterResume e 0)))))) Q t"
    if t: "dirtyMarks t = Some (neededMarks (memoryInfo e) unreq)" and ok: "list_all (\<lambda>b. b < mi_NumBlocks (memoryInfo e)) unreq"
    for t :: "('z) rt_sys_scheme" and port
    by (rule stays_rest[where I = "\<lambda>s. dirtyMarks s = dirtyMarks t"])
      (use set_neededMarks[OF ok] in \<open>simp_all add: stays stays_dirtyMarks Q_def t\<close>)
  have track: "wp (trackMemory e c) (\<lambda>r t. (r = Ok () \<longrightarrow> list_all (\<lambda>b. b < mi_NumBlocks (memoryInfo e)) unreq \<and>
     dirtyMarks t = Some (neededMarks (memoryInfo e) unreq)) \<and> \<not> rt_running t) t"
    if "\<not> rt_running t" for t :: "('z) rt_sys_scheme"
    using that by (simp add: trackMemory_def go_wp assms(1,2))
  have "wp (rt_Resume e c) Q s"
    unfolding rt_Resume_def
  proof (rule stays_then[OF config assms(3)], goal_cases)
    case (1 port t)
    show ?case
      unfolding wp_andThen[of "trackMemory e c"]
      by (rule wp_mono[OF track[OF 1]], rename_tac r t', case_tac r) (simp_all add: rest, simp_all add: Q_def)
  qed (simp_all add: Q_def)
  then show ?thesis by (simp only: Q_def)
qed

section \<open>Closing without an agent\<close>

text \<open>
  If the agent's server could not be started, \<open>Close\<close> does not suspend: the runtime stays marked as
  running, and its grabber goes on, on a process that has been killed.
\<close>

lemma Close_without_agent:
  fixes s :: "('z) rt_sys_scheme"
  assumes "\<not> rt_hasAgent s"
  shows "wp (rt_Close e c exit) (\<lambda>r s'. rt_running s' = rt_running s \<and> rt_grabbing s' = rt_grabbing s) s"
  by (simp add: rt_Close_def closeAgent_def Machine_Close_def awaitExit_def go_wp assms
      split: option.splits)

section \<open>Examples\<close>

theorem Suspend_stops_in_order_witness:
  "\<exists>s. rt_Suspend (rt_demo None) rc_demo (rt_start\<lparr>rt_running := True, rt_hasAgent := True, rt_GrabMemory := False\<rparr>) =
     (Ok (), s) \<and> \<not> rt_running s \<and> rt_Suspend (rt_demo None) rc_demo s = (Ok (), s)"
proof -
  let ?s = "rt_start\<lparr>rt_running := True, rt_hasAgent := True, rt_GrabMemory := False\<rparr>"
  obtain s where run: "rt_Suspend (rt_demo None) rc_demo ?s = (Ok (), s)"
    by (simp add: rt_Suspend_def Machine_CreateSnapshot_def watchLateWrites_def setRunning_def sdk_names rt_demo_eval go_defs)
  have "rt_running ?s" by simp
  from wpD[OF Suspend_stops_in_order[OF this] run] run show ?thesis by blast
qed

lemma demo_config: "cutAtZero (''{}'' @ [CHR 0x00]) = ''{}''"
  by (simp add: cutAtZero_def)

lemmas resume_eval = rt_Resume_def readConfig_def rt_DevicePath_def onMachine_def trackMemory_def
  ResumeSnapshot_def accessMemory_def startAgent_def setRunning_def resumeMaxRetries_def demo_config rt_demo_eval go_defs

lemma demo_resumes: "\<exists>s. rt_Resume (rt_demo None) rc_demo rt_start = (Ok (), s)"
  by (simp add: resume_eval afterResume.simps)

theorem Resume_asks_agent_witness:
  "\<exists>s. rt_Resume (rt_demo None) rc_demo rt_start = (Ok (), s) \<and> rt_running s \<and> rt_hasAgent s \<and> attempts s \<le> 9"
proof -
  obtain s where run: "rt_Resume (rt_demo None) rc_demo rt_start = (Ok (), s)" using demo_resumes by blast
  have "attempts rt_start = 0" by (simp add: rt_demo_eval called_def)
  with wpD[OF Resume_asks_agent run] run show ?thesis by (simp add: resumeMaxRetries_def)
qed

theorem Resume_marks_needed_blocks_witness:
  "\<exists>s marks. rt_Resume (rt_demo None) rc_demo rt_start = (Ok (), s) \<and> dirtyMarks s = Some marks \<and>
     set marks = {(0, 4), (8, 4)}"
proof -
  obtain s where run: "rt_Resume (rt_demo None) rc_demo rt_start = (Ok (), s)" and "rt_running s"
    by (simp add: resume_eval afterResume.simps)
  have c: "rc_DirectMemory rc_demo" "\<not> rt_running rt_start" "\<And>tr. unrequiredBlocks (rt_demo None) tr = [1]"
    by (simp_all add: rt_demo_eval)
  have blocks: "{(int b * 4, 4::int) | b. b < 3 \<and> b \<noteq> Suc 0} = {(0, 4), (8, 4)}"
    by (auto simp: less_Suc_eq numeral_3_eq_3)
  from wpD[OF Resume_marks_needed_blocks[OF c(1,3,2)] run] run \<open>rt_running s\<close>
  show ?thesis by (auto simp: blocks)
qed

end
