(* ===== verification/Runtimes.thy ===== *)
theory Runtimes
  imports Runtime
begin

text \<open>
  What a peer asks of a runtime (\<^verbatim>\<open>pkg/runtimes/runtime_provider.go\<close>) and the runtimes there are: the empty
  one (\<^verbatim>\<open>empty.go\<close>), the one that replays recorded writes (\<^verbatim>\<open>replay.go\<close>) and the Firecracker runtime.
  The device group the operations are given is Silo's. The contract \<open>runtime_contract\<close> says what the
  migrations rely on: a suspend that succeeds stops the machine, and it stays stopped while it is suspended
  again or flushed.
\<close>

section \<open>The interface\<close>

record 'r runtime_provider =
  rp_Start :: "('r, unit) go"
  rp_Resume :: "('r, unit) go"
  rp_Suspend :: "('r, unit) go"
  rp_FlushData :: "('r, unit) go"
  rp_FlushDevices :: "('r, unit) go"
  rp_Close :: "('r, unit) go"
  rp_DevicePath :: "('r, string) go"
  rp_GetVMPid :: "('r, nat) go"

locale runtime_contract =
  fixes rp :: "('r, 'y) runtime_provider_scheme"
    and stopped :: "'r \<Rightarrow> bool"
  assumes suspend_stops: "rp_Suspend rp s = (Ok u, s') \<Longrightarrow> stopped s'"
    and suspend_keeps: "stays_inv stopped (rp_Suspend rp)"
    and flush_keeps: "stays_inv stopped (rp_FlushData rp)"
begin

text \<open>A suspend followed by any number of suspends and flushes leaves the machine stopped.\<close>

lemma stopped_after:
  assumes "rp_Suspend rp s = (Ok u, s')"
  shows "stopped (snd (forEach flushes (\<lambda>b. if b then rp_FlushData rp else rp_Suspend rp) s'))"
proof -
  have "stays_inv stopped (forEach flushes (\<lambda>b. if b then rp_FlushData rp else rp_Suspend rp))"
    by (intro stays suspend_keeps flush_keeps)
  then show ?thesis using suspend_stops[OF assms] by (simp add: stays_inv_def)
qed

end

text \<open>A program also starts and closes its peers: only resuming may make a stopped machine run.\<close>

locale peer_contract = runtime_contract rp stopped
  for rp :: "('r, 'y) runtime_provider_scheme" and stopped :: "'r \<Rightarrow> bool" +
  assumes close_keeps: "stays_inv stopped (rp_Close rp)"
    and start_keeps: "stays_inv stopped (rp_Start rp)"
    and reads_keep: "stays_inv stopped (rp_DevicePath rp)" "stays_inv stopped (rp_GetVMPid rp)"

section \<open>The empty runtime\<close>

record empty_rt =
  er_HomePath :: string

definition emptyRuntime :: "empty_rt runtime_provider" where
  "emptyRuntime = \<lparr>rp_Start = ret (), rp_Resume = ret (), rp_Suspend = ret (), rp_FlushData = ret (),
     rp_FlushDevices = ret (), rp_Close = ret (), rp_DevicePath = reading er_HomePath ret, rp_GetVMPid = ret 0\<rparr>"

interpretation empty_runtime: peer_contract emptyRuntime "\<lambda>_. True"
  by unfold_locales (simp_all add: emptyRuntime_def stays_basic stays_reading)

section \<open>The replaying runtime\<close>

text \<open>
  The providers and the replayers, one per device, are Silo's. The maps hold the devices in the order
  they were put in. \<open>rr_replaying\<close> says that \<open>replayCancel\<close> is not nil, that is, that replayers may run.
\<close>

datatype replay_call =
    NewFileStorage string nat | NewBinLogReplay string | FlushProvider string | CloseProvider string

record replay_rt = "replay_call world" +
  rr_HomePath :: string
  rr_ReplayPath :: string
  rr_DeviceSizes :: "string \<Rightarrow> nat"
  rr_Zipped :: bool
  rr_providers :: "string list"
  rr_replayers :: "string list option"
  rr_replaying :: bool

definition replayFilename :: "('z) replay_rt_scheme \<Rightarrow> string \<Rightarrow> string" where
  "replayFilename s d = filepath_Join [rr_ReplayPath s, if rr_Zipped s then d @ ''.gz'' else d]"

definition replay_init :: "(replay_call, 'y) env_scheme \<Rightarrow> (('z) replay_rt_scheme, unit) go" where
  "replay_init e =
     andThen (update (\<lambda>s. s\<lparr>rr_replayers := Some [], rr_providers := []\<rparr>)) (\<lambda>_.
     forEach KnownNames (\<lambda>d. reading (\<lambda>s. s) (\<lambda>s.
       andThen (act e (NewFileStorage (filepath_Join [rr_HomePath s, d]) (rr_DeviceSizes s d))) (\<lambda>_.
       andThen (update (\<lambda>s. s\<lparr>rr_providers := rr_providers s @ [d]\<rparr>)) (\<lambda>_.
       andThen (act e (NewBinLogReplay (replayFilename s d))) (\<lambda>_.
       update (\<lambda>s. s\<lparr>rr_replayers := map_option (\<lambda>ds. ds @ [d]) (rr_replayers s)\<rparr>)))))))"

text \<open>The error of a provider is only printed.\<close>

definition replay_FlushData :: "(replay_call, 'y) env_scheme \<Rightarrow> (('z) replay_rt_scheme, unit) go" where
  "replay_FlushData e = reading rr_providers (\<lambda>ds. forEach ds (\<lambda>d. actIgnore e (FlushProvider d)))"

text \<open>The replayers are cancelled and waited for.\<close>

definition replay_Suspend :: "(replay_call, 'y) env_scheme \<Rightarrow> (('z) replay_rt_scheme, unit) go" where
  "replay_Suspend e =
     andThen (reading rr_replaying (\<lambda>r. whenM r (update (\<lambda>s. s\<lparr>rr_replaying := False\<rparr>)))) (\<lambda>_.
     replay_FlushData e)"

text \<open>An error of \<open>init\<close> is only printed; what was set up until then is replayed.\<close>

definition replay_Resume :: "(replay_call, 'y) env_scheme \<Rightarrow> (('z) replay_rt_scheme, unit) go" where
  "replay_Resume e =
     andThen (reading rr_replayers (\<lambda>r. whenM (r = None) (attempt (replay_init e) (\<lambda>_. ret ())))) (\<lambda>_.
     update (\<lambda>s. s\<lparr>rr_replaying := True\<rparr>))"

text \<open>
  A replayer goes on after the next recorded write unless it was cancelled before or the log is at its end;
  other errors are printed.
\<close>

definition replayGoesOn :: "bool \<Rightarrow> goerr option \<Rightarrow> bool" where
  "replayGoesOn cancelled result \<longleftrightarrow> \<not> cancelled \<and> result \<noteq> Some IoEOF"

definition replay_Close :: "(replay_call, 'y) env_scheme \<Rightarrow> (('z) replay_rt_scheme, unit) go" where
  "replay_Close e =
     andThen (replay_Suspend e) (\<lambda>_.
     reading rr_providers (\<lambda>ds. forEach ds (\<lambda>d. act e (CloseProvider d))))"

definition replayRuntime :: "(replay_call, 'y) env_scheme \<Rightarrow> ('z) replay_rt_scheme runtime_provider" where
  "replayRuntime e = \<lparr>rp_Start = ret (), rp_Resume = replay_Resume e, rp_Suspend = replay_Suspend e,
     rp_FlushData = replay_FlushData e, rp_FlushDevices = ret (), rp_Close = replay_Close e,
     rp_DevicePath = reading rr_HomePath ret, rp_GetVMPid = ret 0\<rparr>"

lemma stays_replay_Flush [stays]:
  "stays_inv (\<lambda>s :: ('z) replay_rt_scheme. \<not> rr_replaying s) (replay_FlushData e)"
  unfolding replay_FlushData_def by (intro stays; simp)

lemma replay_Suspend_stops: "\<not> rr_replaying (snd (replay_Suspend e s))"
proof -
  have "wp (replay_Suspend e) (\<lambda>_ s'. \<not> rr_replaying s') s"
    unfolding replay_Suspend_def
    by (simp add: go_wp) (intro conjI impI stays_wp[OF stays_replay_Flush]; simp)
  then show ?thesis by (simp add: wp_def case_prod_unfold)
qed

lemma stays_replay_Suspend [stays]: "stays_inv (\<lambda>s :: ('z) replay_rt_scheme. \<not> rr_replaying s) (replay_Suspend e)"
  by (simp add: stays_inv_def replay_Suspend_stops)

interpretation replay_runtime: peer_contract "replayRuntime e" "\<lambda>s. \<not> rr_replaying s" for e
proof unfold_locales
  show "\<not> rr_replaying s'" if "rp_Suspend (replayRuntime e) s = (Ok u, s')" for s u s'
    using replay_Suspend_stops[of e s] that by (simp add: replayRuntime_def)
  show "stays_inv (\<lambda>s. \<not> rr_replaying s) (rp_Suspend (replayRuntime e))"
    by (simp add: replayRuntime_def stays_replay_Suspend)
  show "stays_inv (\<lambda>s. \<not> rr_replaying s) (rp_FlushData (replayRuntime e))"
    by (simp add: replayRuntime_def stays_replay_Flush)
  show "stays_inv (\<lambda>s. \<not> rr_replaying s) (rp_Close (replayRuntime e))"
    unfolding replayRuntime_def replay_Close_def runtime_provider.simps by (intro stays; simp)
qed (simp_all add: replayRuntime_def stays_basic stays_reading)

section \<open>The Firecracker runtime\<close>

text \<open>
  \<open>evs\<close> are the events while the socket is waited for, \<open>exit\<close> is the result of the process when it
  is closed.
\<close>

definition firecrackerRuntime ::
    "('y) rt_env_scheme \<Rightarrow> rt_config \<Rightarrow> start_event list \<Rightarrow> goerr option \<Rightarrow> ('z) rt_sys_scheme runtime_provider" where
  "firecrackerRuntime e c evs exit = \<lparr>rp_Start = rt_Start e c evs, rp_Resume = rt_Resume e c,
     rp_Suspend = rt_Suspend e c, rp_FlushData = FlushData e c, rp_FlushDevices = FlushDevices e c,
     rp_Close = rt_Close e c exit, rp_DevicePath = rt_DevicePath, rp_GetVMPid = rt_GetVMPid\<rparr>"

lemma stays_stopped_FlushData [stays]:
  "stays_inv (\<lambda>s :: ('z) rt_sys_scheme. \<not> rt_running s) (FlushData e c)"
  unfolding FlushData_def onMachine_def Machine_CreateSnapshot_def
  by (intro stays stays_grab_if; simp)

lemma stays_stopped_Suspend [stays]: "stays_inv (\<lambda>s :: ('z) rt_sys_scheme. \<not> rt_running s) (rt_Suspend e c)"
  by (simp add: stays_inv_def rt_suspend.never_undone)

lemma stays_stopped_waiting:
  "stays_inv (\<lambda>s :: ('z) rt_sys_scheme. \<not> rt_running s) (waitForSocket e sock evs)"
proof (induction evs)
  case (Cons ev evs)
  then show ?case by (cases ev) (auto intro!: stays)
qed (auto intro: stays)

interpretation firecracker: peer_contract "firecrackerRuntime e c evs exit" "\<lambda>s. \<not> rt_running s" for e c evs exit
proof unfold_locales
  show "\<not> rt_running s'" if "rp_Suspend (firecrackerRuntime e c evs exit) s = (Ok u, s')" for s u s'
    using that by (auto simp: firecrackerRuntime_def dest: rt_suspend.ok_is_done)
  show "stays_inv (\<lambda>s. \<not> rt_running s) (rp_Suspend (firecrackerRuntime e c evs exit))"
    by (simp add: firecrackerRuntime_def stays_stopped_Suspend)
  show "stays_inv (\<lambda>s. \<not> rt_running s) (rp_FlushData (firecrackerRuntime e c evs exit))"
    by (simp add: firecrackerRuntime_def stays_stopped_FlushData)
  show "stays_inv (\<lambda>s. \<not> rt_running s) (rp_Close (firecrackerRuntime e c evs exit))"
    unfolding firecrackerRuntime_def rt_Close_def closeAgent_def Machine_Close_def awaitExit_def
      runtime_provider.simps
    by (intro stays; simp)
  show "stays_inv (\<lambda>s. \<not> rt_running s) (rp_Start (firecrackerRuntime e c evs exit))"
    unfolding firecrackerRuntime_def rt_Start_def StartFirecrackerMachine_def runtime_provider.simps
    by (intro stays stays_stopped_waiting; simp)
qed (simp_all add: firecrackerRuntime_def rt_DevicePath_def rt_GetVMPid_def onMachine_def stays)

end
