(* ===== verification/MockRuntime.thy ===== *)
theory MockRuntime
  imports Runtimes
begin

text \<open>
  The runtime that the tests migrate (\<^verbatim>\<open>pkg/runtimes/mock_runtime.go\<close>): while it runs, a goroutine writes random data to
  its devices, and the same data to providers of the test, which then compares them. Its rounds are operations of
  their own; the random choices are their arguments. A failed assertion is recorded and the code goes on. Here it is
  the fourth runtime that keeps the peers' contract.
\<close>

section \<open>State\<close>

datatype mock_call = ReadDevice string | OpenDevice string | RandomData nat | WriteDevice string nat
  | WriteProviderToo string nat | SyncDevice string | CloseDevice string

text \<open>
  \<open>mr_DeviceSizes\<close> is in the order of the iteration. \<open>mr_writing\<close> says that \<open>writeCancel\<close> is not nil,
  \<open>mr_writers\<close> counts the goroutines that were added to the wait group and are not done.
\<close>

record mock_rt = "mock_call world" +
  mr_HomePath :: string
  mr_DoWrites :: bool
  mr_WriteAlso :: "string list"
  mr_DeviceSizes :: "(string \<times> nat) list"
  mr_writing :: bool
  mr_writers :: nat
  mr_failed :: bool
  mr_device :: "string \<Rightarrow> nat \<Rightarrow> 8 word"
  mr_provider :: "string \<Rightarrow> nat \<Rightarrow> 8 word"

text \<open>\<open>assert.NoError\<close> on the result of a call, and then the rest, which may ask whether the call succeeded.\<close>

definition asserting :: "(('z) mock_rt_scheme, 'a) go \<Rightarrow> (bool \<Rightarrow> (('z) mock_rt_scheme, 'b) go) \<Rightarrow> (('z) mock_rt_scheme, 'b) go" where
  "asserting m k = attempt m (\<lambda>r. case r of
     Inl _ \<Rightarrow> andThen (update (\<lambda>s. s\<lparr>mr_failed := True\<rparr>)) (\<lambda>_. k False)
   | Inr _ \<Rightarrow> k True)"

section \<open>Operations\<close>

definition mock_FlushData :: "(mock_call, 'y) env_scheme \<Rightarrow> (('z) mock_rt_scheme, unit) go" where
  "mock_FlushData e = reading (\<lambda>s. (mr_HomePath s, mr_DeviceSizes s)) (\<lambda>(home, sizes). forEach sizes (\<lambda>(d, _).
     let p = filepath_Join [home, d]; opened = (\<lambda>ok c. if ok then act e c else throw (Plain ''invalid argument'')) in
     asserting (act e (OpenDevice p)) (\<lambda>ok.
     asserting (opened ok (SyncDevice p)) (\<lambda>_.
     asserting (opened ok (CloseDevice p)) (\<lambda>_. ret ())))))"

text \<open>The writer is cancelled and waited for.\<close>

definition mock_Suspend :: "(('z) mock_rt_scheme, unit) go" where
  "mock_Suspend = reading mr_writing (\<lambda>w. whenM w (update (\<lambda>s. s\<lparr>mr_writers := 0, mr_writing := False\<rparr>)))"

definition mock_Resume :: "(mock_call, 'y) env_scheme \<Rightarrow> (('z) mock_rt_scheme, unit) go" where
  "mock_Resume e = reading (\<lambda>s. (mr_HomePath s, mr_DeviceSizes s)) (\<lambda>(home, sizes).
     andThen (forEach sizes (\<lambda>(d, _). asserting (act e (ReadDevice (filepath_Join [home, d]))) (\<lambda>_. ret ()))) (\<lambda>_.
     reading mr_DoWrites (\<lambda>w. whenM w
       (update (\<lambda>s. s\<lparr>mr_writing := True, mr_writers := Suc (mr_writers s)\<rparr>)))))"

text \<open>The data goes to the device, if it was opened, and to the provider of the test, even if that failed.\<close>

definition mock_write ::
    "(mock_call, 'y) env_scheme \<Rightarrow> bool \<Rightarrow> string \<Rightarrow> string \<Rightarrow> 8 word list \<Rightarrow> nat \<Rightarrow> (('z) mock_rt_scheme, unit) go" where
  "mock_write e ok p d data off =
     asserting (andThen (if ok then act e (WriteDevice p off) else throw (Plain ''invalid argument'')) (\<lambda>_.
       update (\<lambda>s. s\<lparr>mr_device := (mr_device s)(d := writeBytes off data (mr_device s d))\<rparr>))) (\<lambda>_.
     reading mr_WriteAlso (\<lambda>also. whenM (d \<in> set also)
       (asserting (andThen (act e (WriteProviderToo d off)) (\<lambda>_.
          update (\<lambda>s. s\<lparr>mr_provider := (mr_provider s)(d := writeBytes off data (mr_provider s d))\<rparr>))) (\<lambda>_. ret ()))))"

text \<open>
  One round of a writer, which writes \<open>data\<close> at the offset \<open>off\<close> of the device with the index \<open>k\<close>. Without a
  device, or with one that is not larger than the data, the random choice panics.
\<close>

definition mock_round :: "(mock_call, 'y) env_scheme \<Rightarrow> nat \<Rightarrow> 8 word list \<Rightarrow> nat \<Rightarrow> (('z) mock_rt_scheme, unit) go" where
  "mock_round e k data off = reading (\<lambda>s. (mr_HomePath s, mr_DeviceSizes s)) (\<lambda>(home, sizes).
     if sizes = [] then panic (Plain ''invalid argument to Intn'') else
     let d = fst (sizes ! k); p = filepath_Join [home, d];
         opened = (\<lambda>ok c. if ok then act e c else throw (Plain ''invalid argument'')) in
     asserting (act e (OpenDevice p)) (\<lambda>ok.
     asserting (act e (RandomData (length data))) (\<lambda>_.
     if snd (sizes ! k) \<le> length data then panic (Plain ''invalid argument to Intn'') else
     andThen (mock_write e ok p d data off) (\<lambda>_.
     asserting (opened ok (SyncDevice p)) (\<lambda>_.
     asserting (opened ok (CloseDevice p)) (\<lambda>_. ret ()))))))"

definition mockRuntime :: "(mock_call, 'y) env_scheme \<Rightarrow> ('z) mock_rt_scheme runtime_provider" where
  "mockRuntime e = \<lparr>rp_Start = ret (), rp_Resume = mock_Resume e, rp_Suspend = mock_Suspend,
     rp_FlushData = mock_FlushData e, rp_FlushDevices = ret (), rp_Close = mock_Suspend,
     rp_DevicePath = reading mr_HomePath ret, rp_GetVMPid = ret 0\<rparr>"

section \<open>The contract\<close>

lemma stays_asserting [stays]:
  "stays_inv I m \<Longrightarrow> (\<And>s. I s \<Longrightarrow> I (s\<lparr>mr_failed := True\<rparr>)) \<Longrightarrow> (\<And>ok. stays_inv I (k ok)) \<Longrightarrow> stays_inv I (asserting m k)"
  unfolding asserting_def by (intro stays; simp)

lemma mock_Suspend_stops: "\<not> mr_writing (snd (mock_Suspend s))"
  by (simp add: mock_Suspend_def go_defs)

interpretation mock_runtime: peer_contract "mockRuntime e" "\<lambda>s. \<not> mr_writing s" for e
proof unfold_locales
  show "\<not> mr_writing s'" if "rp_Suspend (mockRuntime e) s = (Ok u, s')" for s u s'
    using mock_Suspend_stops[of s] that by (simp add: mockRuntime_def)
  show "stays_inv (\<lambda>s. \<not> mr_writing s) (rp_Suspend (mockRuntime e))"
    "stays_inv (\<lambda>s. \<not> mr_writing s) (rp_Close (mockRuntime e))"
    by (simp_all add: mockRuntime_def stays_inv_def mock_Suspend_stops)
  show "stays_inv (\<lambda>s. \<not> mr_writing s) (rp_FlushData (mockRuntime e))"
    unfolding mockRuntime_def mock_FlushData_def Let_def runtime_provider.simps by (intro stays; simp)
qed (simp_all add: mockRuntime_def stays_basic stays_reading)

text \<open>A writer that is not done can be cancelled, so that after a suspend there is none.\<close>

definition mock_inv :: "('z) mock_rt_scheme \<Rightarrow> bool" where
  "mock_inv s \<longleftrightarrow> (0 < mr_writers s \<longrightarrow> mr_writing s)"

lemma mock_writers_cancelled:
  shows "stays_inv (mock_inv :: ('z) mock_rt_scheme \<Rightarrow> bool) (mock_Resume e)"
    "stays_inv (mock_inv :: ('z) mock_rt_scheme \<Rightarrow> bool) (mock_round e k data off)"
    "mock_inv s \<Longrightarrow> mr_writers (snd (mock_Suspend s)) = 0"
proof -
  show "stays_inv (mock_inv :: ('z) mock_rt_scheme \<Rightarrow> bool) (mock_Resume e)"
    unfolding mock_Resume_def by (intro stays; simp add: mock_inv_def)
  show "stays_inv (mock_inv :: ('z) mock_rt_scheme \<Rightarrow> bool) (mock_round e k data off)"
    unfolding mock_round_def mock_write_def Let_def by (intro stays; simp add: mock_inv_def)
  show "mock_inv s \<Longrightarrow> mr_writers (snd (mock_Suspend s)) = 0"
    by (auto simp: mock_Suspend_def mock_inv_def go_defs)
qed

text \<open>
  What the tests rely on: as long as no assertion failed, a provider that gets the same writes has the content of
  its device.
\<close>

definition mock_same :: "('z) mock_rt_scheme \<Rightarrow> bool" where
  "mock_same s \<longleftrightarrow> (\<not> mr_failed s \<longrightarrow> (\<forall>d \<in> set (mr_WriteAlso s). mr_provider s d = mr_device s d))"

lemma mock_write_same: "stays_inv (mock_same :: ('z) mock_rt_scheme \<Rightarrow> bool) (mock_write e ok p d data off)"
proof (rule staysI)
  fix s :: "('z) mock_rt_scheme"
  assume "mock_same s"
  then show "wp (mock_write e ok p d data off) (\<lambda>_. mock_same) s"
    unfolding mock_write_def asserting_def
    by (cases ok; simp add: go_wp mock_same_def split: option.split)
qed

lemma mock_round_same: "stays_inv (mock_same :: ('z) mock_rt_scheme \<Rightarrow> bool) (mock_round e k data off)"
  unfolding mock_round_def Let_def by (intro stays mock_write_same; simp add: mock_same_def)

end
