(* ===== verification/Schemas.thy ===== *)
theory Schemas
  imports GoStrings "HOL-Library.Word"
begin

text \<open>
  The device schemas a migration hands to Silo (\<^verbatim>\<open>pkg/common/migrations.go\<close>): how the
  description of a device becomes a schema, for a device that starts here
  (\<open>CreateSiloDevSchema\<close>) and for one that arrives over the network
  (\<open>CreateIncomingSiloDevSchema\<close>), and the device node that makes a device visible to the machine
  (\<open>ExposeSiloDeviceAsFile\<close>). Silo is not part of the program: of its schema type the fields the
  program writes or reads are modelled, and its method \<open>AddOverlay\<close> is a parameter.
\<close>

section \<open>Data\<close>

record migrate_to_device =
  mt_Name :: string
  mt_MaxDirtyBlocks :: int
  mt_MinCycles :: int
  mt_MaxCycles :: int
  mt_CycleThrottle :: nat

record migrate_from_device =
  mf_Name :: string
  mf_Base :: string
  mf_Overlay :: string
  mf_State :: string
  mf_BlockSize :: "32 word"
  mf_Shared :: bool
  mf_UseSparseFile :: bool
  mf_AnyOrder :: bool
  mf_UseWriteCache :: bool
  mf_WriteCacheMin :: string
  mf_WriteCacheMax :: string
  mf_WriteCacheBlocksize :: string
  mf_SharedBase :: bool
  mf_SkipSilo :: bool
  mf_S3Sync :: bool
  mf_S3AccessKey :: string
  mf_S3SecretKey :: string
  mf_S3Endpoint :: string
  mf_S3Secure :: bool
  mf_S3Bucket :: string
  mf_S3Concurrency :: int
  mf_S3Prefix :: string
  mf_S3OnlyDirty :: bool
  mf_S3BlockShift :: int
  mf_S3MaxAge :: string
  mf_S3MinChanged :: int
  mf_S3Limit :: int
  mf_S3CheckPeriod :: string

record sync_config =
  sc_OnlyDirty :: bool
  sc_BlockShift :: int
  sc_MaxAge :: string
  sc_MinChanged :: int
  sc_Limit :: int
  sc_CheckPeriod :: string
  sc_Concurrency :: int

record sync_schema =
  sy_AccessKey :: string
  sy_SecretKey :: string
  sy_Endpoint :: string
  sy_Secure :: bool
  sy_Bucket :: string
  sy_Prefix :: string
  sy_GrabPrefix :: string
  sy_AutoStart :: bool
  sy_GrabConcurrency :: int
  sy_Config :: sync_config

record write_cache =
  wc_MinSize :: string
  wc_MaxSize :: string
  wc_FlushPeriod :: string

record ro_source =
  ro_Name :: string
  ro_System :: string
  ro_Location :: string
  ro_Size :: string

record device_schema =
  ds_Name :: string
  ds_BlockSize :: string
  ds_Expose :: bool
  ds_Size :: string
  ds_AnyOrder :: "bool option"             \<comment> \<open>\<open>Migration\<close>: nil, or a schema with that \<open>AnyOrder\<close>\<close>
  ds_System :: string
  ds_Location :: string
  ds_ROSourceShared :: bool
  ds_ROSource :: "ro_source option"
  ds_Overlays :: "(string \<times> string) list"  \<comment> \<open>what \<open>AddOverlay\<close> adds, left to Silo\<close>
  ds_Sync :: "sync_schema option"
  ds_WriteCache :: "write_cache option"

record cow_overlay =
  co_System :: string
  co_Location :: string
  co_Shared :: bool
  co_Name :: string

definition OverlaySep :: char where "OverlaySep = CHR '' ''"

section \<open>Calls\<close>

datatype mig_call =
    StatFile string | MakeDirs string | Mknod string nat
  | NewFromSchema string "device_schema list" | OpenSource string | CreateCopy string
  | CopyContents string string | CloseSource string | CloseCopy string
  | AddProtocol string string | NewFromProtocol string
  | StartMigrationTo bool nat | MigrateAll int | SendCustomData string | DevicesCompleted
  | CloseGroup | WaitForCompletion | WaitForReady | RemoveAllID string
  | LookPath string | DialAddr string | ListenAddr string | AcceptConn | CloseListener | CloseConn nat

type_synonym mig_trace = "(mig_call \<times> bool) list"

record mig_env = "mig_call env" +
  fileSize :: "mig_trace \<Rightarrow> int"
  statHasRdev :: "mig_trace \<Rightarrow> bool"            \<comment> \<open>\<open>Sys()\<close> is a \<open>*syscall.Stat_t\<close>\<close>
  fileRdev :: "mig_trace \<Rightarrow> nat"
  AddOverlay :: "cow_overlay \<Rightarrow> device_schema \<Rightarrow> device_schema"

definition show_int :: "int \<Rightarrow> string" where
  "show_int i = (if i < 0 then ''-'' @ show_nat (nat (- i)) else show_nat (nat i))"

section \<open>The device node\<close>

definition ExposeSiloDeviceAsFile ::
    "('y) mig_env_scheme \<Rightarrow> string \<Rightarrow> string \<Rightarrow> string \<Rightarrow> ((mig_call, 'z) world_scheme, unit) go" where
  "ExposeSiloDeviceAsFile e vmpath name devicePath =
     (if vmpath = [] then ret () else
      reading trace (\<lambda>tr.
      wrapErr (MigrationsErr ErrCouldNotGetBaseDeviceStat) (act e (StatFile devicePath)) (\<lambda>_.
      if \<not> statHasRdev e tr then throw (MigrationsErr ErrCouldNotGetNBDDeviceStat) else
      wrapErr (MigrationsErr ErrCouldNotCreateDeviceNode)
        (act e (Mknod (filepath_Join [vmpath, name]) (fileRdev e tr))) ret)))"

section \<open>A device that starts here\<close>

definition overlaySpec :: "migrate_from_device \<Rightarrow> string \<Rightarrow> string \<Rightarrow> cow_overlay" where
  "overlaySpec i overlay state =
     (let spec = \<lparr>co_System = ''file'', co_Location = overlay, co_Shared = mf_SharedBase i, co_Name = state\<rparr>
      in if mf_UseSparseFile i then spec\<lparr>co_System := ''sparsefile''\<rparr> else spec)"

fun addOverlays ::
    "('y) mig_env_scheme \<Rightarrow> migrate_from_device \<Rightarrow> (string \<times> string) list \<Rightarrow> device_schema \<Rightarrow>
     ((mig_call, 'z) world_scheme, device_schema) go" where
  "addOverlays e i [] ds = ret ds"
| "addOverlays e i ((overlay, state) # os) ds =
     wrapErr (MigrationsErr ErrCouldNotCreateOverlayDirectory) (act e (MakeDirs (filepath_Dir overlay))) (\<lambda>_.
     wrapErr (MigrationsErr ErrCouldNotCreateStateDirectory) (act e (MakeDirs (filepath_Dir state))) (\<lambda>_.
     addOverlays e i os (AddOverlay e (overlaySpec i overlay state) ds)))"

definition useOverlays ::
    "('y) mig_env_scheme \<Rightarrow> migrate_from_device \<Rightarrow> device_schema \<Rightarrow>
     ((mig_call, 'z) world_scheme, device_schema) go" where
  "useOverlays e i ds =
     (if mf_Overlay i = [] then ret ds else
      let overlays = split_on OverlaySep (mf_Overlay i); states = split_on OverlaySep (mf_State i) in
      if length overlays \<noteq> length states then throw (Joined [MigrationsErr ErrCouldNotUseOverlays])
      else addOverlays e i (zip overlays states) ds)"

definition useSync :: "migrate_from_device \<Rightarrow> device_schema \<Rightarrow> device_schema" where
  "useSync i ds =
     (if \<not> mf_S3Sync i then ds else ds\<lparr>ds_Sync := Some
       \<lparr>sy_AccessKey = mf_S3AccessKey i, sy_SecretKey = mf_S3SecretKey i, sy_Endpoint = mf_S3Endpoint i,
        sy_Secure = mf_S3Secure i, sy_Bucket = mf_S3Bucket i, sy_Prefix = mf_S3Prefix i,
        sy_GrabPrefix = mf_S3Prefix i, sy_AutoStart = True, sy_GrabConcurrency = mf_S3Concurrency i,
        sy_Config =
          \<lparr>sc_OnlyDirty = (if ds_ROSourceShared ds then True else mf_S3OnlyDirty i),
           sc_BlockShift = mf_S3BlockShift i, sc_MaxAge = mf_S3MaxAge i,
           sc_MinChanged = mf_S3MinChanged i, sc_Limit = mf_S3Limit i,
           sc_CheckPeriod = mf_S3CheckPeriod i, sc_Concurrency = mf_S3Concurrency i\<rparr>\<rparr>\<rparr>)"

definition useWriteCache :: "migrate_from_device \<Rightarrow> device_schema \<Rightarrow> device_schema" where
  "useWriteCache i ds =
     (if mf_UseWriteCache i then ds\<lparr>ds_WriteCache := Some
        \<lparr>wc_MinSize = mf_WriteCacheMin i, wc_MaxSize = mf_WriteCacheMax i, wc_FlushPeriod = ''5m''\<rparr>\<rparr>
      else ds)"

definition emptySchema :: device_schema where
  "emptySchema = \<lparr>ds_Name = [], ds_BlockSize = [], ds_Expose = False, ds_Size = [], ds_AnyOrder = None,
     ds_System = [], ds_Location = [], ds_ROSourceShared = False, ds_ROSource = None, ds_Overlays = [],
     ds_Sync = None, ds_WriteCache = None\<rparr>"

definition useAnyOrder :: "migrate_from_device \<Rightarrow> device_schema \<Rightarrow> device_schema" where
  "useAnyOrder i ds = (if mf_AnyOrder i then ds\<lparr>ds_AnyOrder := Some True\<rparr> else ds)"

definition CreateSiloDevSchema ::
    "('y) mig_env_scheme \<Rightarrow> migrate_from_device \<Rightarrow> ((mig_call, 'z) world_scheme, device_schema) go" where
  "CreateSiloDevSchema e i =
     wrapErr (MigrationsErr ErrCouldNotGetBaseDeviceStat) (ask e (fileSize e) (StatFile (mf_Base i))) (\<lambda>size.
     let ds = useAnyOrder i (emptySchema\<lparr>ds_Name := mf_Name i, ds_BlockSize := show_nat (unat (mf_BlockSize i)),
           ds_Expose := True, ds_Size := show_int size\<rparr>) in
     wrapErr (MigrationsErr ErrCouldNotCreateDeviceDirectory) (act e (MakeDirs (filepath_Dir (mf_Base i)))) (\<lambda>_.
     andThen (useOverlays e i (ds\<lparr>ds_System := ''file'', ds_Location := mf_Base i\<rparr>)) (\<lambda>ds.
     ret (useWriteCache i (useSync i ds)))))"

section \<open>A device that arrives\<close>

text \<open>
  The schema the other side sent is passed by pointer, and its \<open>Sync\<close> is shared with the schema
  returned: switching \<open>AutoStart\<close> off changes the argument too. The state holds the argument.
\<close>

record incoming_sys = "mig_call world" +
  incoming :: device_schema

definition noAutoStart :: "sync_schema option \<Rightarrow> sync_schema option" where
  "noAutoStart = map_option (sy_AutoStart_update (\<lambda>_. False))"

definition CreateIncomingSiloDevSchema ::
    "('y) mig_env_scheme \<Rightarrow> migrate_from_device \<Rightarrow> (('z) incoming_sys_scheme, device_schema) go" where
  "CreateIncomingSiloDevSchema e i =
     reading incoming (\<lambda>schema.
     andThen (update (\<lambda>s. s\<lparr>incoming := schema\<lparr>ds_Sync := noAutoStart (ds_Sync schema)\<rparr>\<rparr>)) (\<lambda>_.
     let ds = useAnyOrder i (emptySchema\<lparr>ds_Name := mf_Name i, ds_BlockSize := ds_BlockSize schema,
           ds_Expose := True, ds_Size := ds_Size schema, ds_Sync := noAutoStart (ds_Sync schema)\<rparr>) in
     if isBlank (mf_Overlay i) \<or> isBlank (mf_State i) then
       wrapErr (MigrationsErr ErrCouldNotCreateDeviceDirectory)
         (act e (MakeDirs (filepath_Dir (mf_Base i)))) (\<lambda>_.
       ret (ds\<lparr>ds_System := ''file'', ds_Location := mf_Base i\<rparr>))
     else
       wrapErr (MigrationsErr ErrCouldNotCreateOverlayDirectory)
         (act e (MakeDirs (filepath_Dir (mf_Overlay i)))) (\<lambda>_.
       wrapErr (MigrationsErr ErrCouldNotCreateStateDirectory)
         (act e (MakeDirs (filepath_Dir (mf_State i)))) (\<lambda>_.
       ret (ds\<lparr>ds_Location := mf_Overlay i,
           ds_System := (if mf_UseSparseFile i then ''sparsefile'' else ''file''),
           ds_ROSourceShared := mf_SharedBase i,
           ds_ROSource := Some \<lparr>ro_Name = mf_State i, ro_System = ''file'', ro_Location = mf_Base i,
             ro_Size = ds_Size schema\<rparr>\<rparr>)))))"

section \<open>What the schemas are\<close>

text \<open>The schema of a device, as a function of its description and the size of its base.\<close>

definition baseSchema :: "migrate_from_device \<Rightarrow> int \<Rightarrow> device_schema" where
  "baseSchema i sz = useAnyOrder i (emptySchema\<lparr>ds_Name := mf_Name i,
     ds_BlockSize := show_nat (unat (mf_BlockSize i)), ds_Expose := True, ds_Size := show_int sz\<rparr>)
     \<lparr>ds_System := ''file'', ds_Location := mf_Base i\<rparr>"

definition overlaysOf :: "migrate_from_device \<Rightarrow> cow_overlay list" where
  "overlaysOf i = (if mf_Overlay i = [] then []
     else map2 (overlaySpec i) (split_on OverlaySep (mf_Overlay i)) (split_on OverlaySep (mf_State i)))"

definition schemaOf :: "('y) mig_env_scheme \<Rightarrow> migrate_from_device \<Rightarrow> int \<Rightarrow> device_schema" where
  "schemaOf e i sz = useWriteCache i (useSync i (fold (AddOverlay e) (overlaysOf i) (baseSchema i sz)))"

lemma useAnyOrder_fields [simp]:
  "ds_Name (useAnyOrder i ds) = ds_Name ds" "ds_ROSourceShared (useAnyOrder i ds) = ds_ROSourceShared ds"
  "ds_Sync (useAnyOrder i ds) = ds_Sync ds"
  by (simp_all add: useAnyOrder_def)

lemma useSync_fields [simp]:
  "ds_Name (useSync i ds) = ds_Name ds" "ds_ROSourceShared (useSync i ds) = ds_ROSourceShared ds"
  "ds_Name (useWriteCache i ds) = ds_Name ds"
  "ds_ROSourceShared (useWriteCache i ds) = ds_ROSourceShared ds"
  "ds_Sync (useWriteCache i ds) = ds_Sync ds"
  by (simp_all add: useSync_def useWriteCache_def)

lemma schemaOf_name:
  assumes "\<And>c ds. ds_Name (AddOverlay e c ds) = ds_Name ds"
  shows "ds_Name (schemaOf e i sz) = mf_Name i"
proof -
  have "ds_Name (fold (AddOverlay e) cs ds) = ds_Name ds" for cs ds
    by (induction cs arbitrary: ds) (simp_all add: assms)
  then show ?thesis by (simp add: schemaOf_def baseSchema_def)
qed

text \<open>What the computation adds to the trace are directories; \<open>made\<close> are the files it places.\<close>

fun placed :: "mig_call \<times> bool \<Rightarrow> string list" where
  "placed (Mknod p r, True) = [p]"
| "placed (CreateCopy p, True) = [p]"
| "placed _ = []"

definition made :: "mig_trace \<Rightarrow> string list" where
  "made tr = concat (map placed tr)"

lemma made_simps [simp]: "made [] = []" "made (tr @ tr') = made tr @ made tr'" "made (c # tr) = placed c @ made tr"
  by (simp_all add: made_def)

lemma addOverlays_result:
  fixes s :: "(mig_call, 'z) world_scheme"
  shows "wp (addOverlays e i os ds) (\<lambda>r s'. made (trace s') = made (trace s) \<and>
    (\<forall>x. r \<noteq> Panic x) \<and>
    (\<forall>ds'. r = Ok ds' \<longrightarrow> ds' = fold (\<lambda>(ov, st). AddOverlay e (overlaySpec i ov st)) os ds)) s"
proof (induction os arbitrary: ds s)
  case Nil
  show ?case by (simp add: go_wp)
next
  case (Cons p os)
  obtain ov st where p: "p = (ov, st)" by (cases p)
  show ?case
    by (auto simp: p go_wp split: option.splits intro!: wp_mono[OF Cons])
qed

lemma fold_map2: "fold (\<lambda>(a, b). f (g a b)) (zip xs ys) z = fold f (map2 g xs ys) z"
  by (simp add: fold_map comp_def case_prod_unfold)

lemma CreateSiloDevSchema_wp:
  fixes s :: "(mig_call, 'z) world_scheme"
  shows "wp (CreateSiloDevSchema e i) (\<lambda>r s'. made (trace s') = made (trace s) \<and> (\<forall>x. r \<noteq> Panic x) \<and>
    (\<forall>ds. r = Ok ds \<longrightarrow> ds = schemaOf e i (fileSize e (trace s)) \<and>
       (mf_Overlay i \<noteq> [] \<longrightarrow>
          count_list (mf_Overlay i) OverlaySep = count_list (mf_State i) OverlaySep))) s"
proof -
  note simps = go_wp schemaOf_def overlaysOf_def baseSchema_def useOverlays_def Let_def length_split_on fold_map2
  show ?thesis
    unfolding CreateSiloDevSchema_def
    apply (simp add: simps split: option.splits)
    apply (intro conjI impI allI)
    apply (auto intro!: wp_mono[OF addOverlays_result] simp: simps)
    apply (rename_tac r s', case_tac r; simp add: simps)
    done
qed


text \<open>
  \<open>CreateSiloDevSchema\<close> does not panic, and when it returns a schema it is \<open>schemaOf\<close> of the
  device and the size of its base file, and the overlays and states listed are equally many; a schema with S3
  sync over a shared source uploads only dirty blocks, whatever the device asks for.
\<close>

theorem CreateSiloDevSchema_correct:
  fixes s :: "(mig_call, 'z) world_scheme"
  shows "wp (CreateSiloDevSchema e i) (\<lambda>r s'. (\<forall>x. r \<noteq> Panic x) \<and>
    (\<forall>ds. r = Ok ds \<longrightarrow> ds = schemaOf e i (fileSize e (trace s)) \<and>
       (mf_Overlay i \<noteq> [] \<longrightarrow>
          count_list (mf_Overlay i) OverlaySep = count_list (mf_State i) OverlaySep) \<and>
       (mf_S3Sync i \<and> ds_ROSourceShared ds \<longrightarrow>
          (\<exists>sy. ds_Sync ds = Some sy \<and> sc_OnlyDirty (sy_Config sy))))) s"
  by (rule wp_mono[OF CreateSiloDevSchema_wp]) (auto simp: schemaOf_def, auto simp: useSync_def)

text \<open>
  C37. \<open>CreateIncomingSiloDevSchema\<close> never lets an arriving device start syncing by itself. On every
  outcome the schema the other side sent, which the code changes through a shared pointer, is as it
  was but for a switched-off \<open>AutoStart\<close>; a schema it returns has the same \<open>Sync\<close>, the sender's
  block size and size, and this side's name, and a read-only source exactly when the device has an overlay
  and a state that are not blank.
\<close>

theorem CreateIncoming_correct:
  fixes s :: "('z) incoming_sys_scheme"
  shows "wp (CreateIncomingSiloDevSchema e i) (\<lambda>r s'.
    incoming s' = (incoming s)\<lparr>ds_Sync := noAutoStart (ds_Sync (incoming s))\<rparr> \<and> (\<forall>x. r \<noteq> Panic x) \<and>
    (\<forall>ds. r = Ok ds \<longrightarrow> ds_Sync ds = ds_Sync (incoming s') \<and>
      (\<forall>sy. ds_Sync ds = Some sy \<longrightarrow> \<not> sy_AutoStart sy) \<and>
      ds_BlockSize ds = ds_BlockSize (incoming s) \<and> ds_Size ds = ds_Size (incoming s) \<and>
      ds_Name ds = mf_Name i \<and>
      (ds_ROSource ds \<noteq> None \<longleftrightarrow> \<not> isBlank (mf_Overlay i) \<and> \<not> isBlank (mf_State i)))) s"
  by (auto simp: CreateIncomingSiloDevSchema_def useAnyOrder_def emptySchema_def noAutoStart_def go_wp Let_def
      split: option.splits)

section \<open>The device files\<close>

lemma ExposeSiloDeviceAsFile_ok:
  fixes s :: "(mig_call, 'z) world_scheme"
  assumes "vmpath \<noteq> []"
  shows "wp (ExposeSiloDeviceAsFile e vmpath n d)
    (if_ok (\<lambda>_ s'. made (trace s') = made (trace s) @ [filepath_Join [vmpath, n]])) s"
  using assms by (simp add: ExposeSiloDeviceAsFile_def go_wp split: option.splits)

section \<open>Examples\<close>

definition mig_demo :: mig_env where
  "mig_demo = \<lparr>fails = (\<lambda>_ _. None), fileSize = (\<lambda>_. 4096), statHasRdev = (\<lambda>_. True), fileRdev = (\<lambda>_. 7),
     AddOverlay = (\<lambda>c ds. ds\<lparr>ds_Overlays := ds_Overlays ds @ [(co_Location c, co_Name c)],
        ds_ROSourceShared := co_Shared c\<rparr>)\<rparr>"

definition demo_device :: migrate_from_device where
  "demo_device = \<lparr>mf_Name = ''disk'', mf_Base = ''base/disk.bin'', mf_Overlay = ''o1 o2'', mf_State = ''s1 s2'',
     mf_BlockSize = 65536, mf_Shared = False, mf_UseSparseFile = True, mf_AnyOrder = True,
     mf_UseWriteCache = False, mf_WriteCacheMin = [], mf_WriteCacheMax = [], mf_WriteCacheBlocksize = [],
     mf_SharedBase = True, mf_SkipSilo = False, mf_S3Sync = True, mf_S3AccessKey = ''k'', mf_S3SecretKey = ''s'',
     mf_S3Endpoint = ''e'', mf_S3Secure = True, mf_S3Bucket = ''b'', mf_S3Concurrency = 10, mf_S3Prefix = ''p'',
     mf_S3OnlyDirty = False, mf_S3BlockShift = 2, mf_S3MaxAge = ''1m'', mf_S3MinChanged = 4, mf_S3Limit = 256,
     mf_S3CheckPeriod = ''10s''\<rparr>"

lemmas mig_demo_eval = mig_demo_def demo_device_def CreateSiloDevSchema_def useOverlays_def OverlaySep_def
  overlaySpec_def useSync_def useWriteCache_def useAnyOrder_def emptySchema_def path_defs Let_def go_defs

lemma demo_schema_Ok: "\<exists>ds s. CreateSiloDevSchema mig_demo demo_device \<lparr>trace = []\<rparr> = (Ok ds, s) \<and>
    ds_Overlays ds = [(''o1'', ''s1''), (''o2'', ''s2'')] \<and> ds_ROSourceShared ds"
  by (simp add: mig_demo_eval)

theorem CreateSiloDevSchema_correct_witness:
  "\<exists>ds s sy. CreateSiloDevSchema mig_demo demo_device \<lparr>trace = []\<rparr> = (Ok ds, s) \<and>
     ds = schemaOf mig_demo demo_device 4096 \<and> ds_Sync ds = Some sy \<and> sc_OnlyDirty (sy_Config sy)"
proof -
  obtain ds s where run: "CreateSiloDevSchema mig_demo demo_device \<lparr>trace = []\<rparr> = (Ok ds, s)"
    and shared: "ds_ROSourceShared ds"
    using demo_schema_Ok by blast
  have "mf_S3Sync demo_device" "fileSize mig_demo [] = 4096"
    by (simp_all add: demo_device_def mig_demo_def)
  with wpD[OF CreateSiloDevSchema_correct run] run shared show ?thesis by auto
qed

definition demo_incoming :: "incoming_sys" where
  "demo_incoming = \<lparr>trace = [], incoming = schemaOf mig_demo demo_device 4096\<rparr>"

theorem CreateIncoming_correct_witness:
  "\<exists>ds s sy. CreateIncomingSiloDevSchema mig_demo demo_device demo_incoming = (Ok ds, s) \<and>
     ds_Sync (incoming demo_incoming) = Some sy \<and> sy_AutoStart sy \<and>
     ds_Sync ds = Some (sy\<lparr>sy_AutoStart := False\<rparr>) \<and> ds_ROSource ds \<noteq> None"
proof -
  obtain ds s where run: "CreateIncomingSiloDevSchema mig_demo demo_device demo_incoming = (Ok ds, s)"
    and nb: "\<not> isBlank (mf_Overlay demo_device)" "\<not> isBlank (mf_State demo_device)"
    by (simp add: CreateIncomingSiloDevSchema_def demo_incoming_def mig_demo_eval isBlank_def trim_defs)
  obtain sy where sy: "ds_Sync (incoming demo_incoming) = Some sy" "sy_AutoStart sy"
    by (simp add: demo_incoming_def schemaOf_def useSync_def useWriteCache_def demo_device_def)
  show ?thesis
    using wpD[OF CreateIncoming_correct run] run nb sy by (auto simp: noAutoStart_def)
qed

end
