(* ===== verification/DirtyManager.thy ===== *)
theory DirtyManager
  imports VmState DeviceNames
begin

text \<open>
  The controller of the dirty phase of a migration (\<^verbatim>\<open>pkg/common/dirty_manager.go\<close>).
  Silo calls three hooks for every device, from one goroutine per device, while it moves the blocks
  that changed; the manager counts cycles per device, decides when a device is ready, suspends the
  machine once all are, and transfers authority once every device has sent the changes made before
  the suspend.

  The theory gives each hook as a sequential operation (\<open>PreGetDirty\<close>, \<open>PostGetDirty\<close>,
  \<open>PostMigrateDirty\<close>), and a step relation \<open>dm_step\<close> in which every device has a program
  counter, the hooks are cut where another goroutine can interleave, and \<open>suspendLock\<close> is
  explicit. The client of the steps is the most general one: any hook may be called on any device
  at any time. Safety is proved for the steps; \<open>PreGetDirty_steps\<close> and its companions show that
  a hook that runs alone is a path of steps, so what holds for the steps holds for the hooks.

  Go maps the device name to a pointer, and \<open>ReadyDevices\<close> holds the same pointers as
  \<open>Devices\<close> under the same names, so the model keeps each status under its name in
  \<open>Devices\<close> and the names only in \<open>ReadyDevices\<close>; this is what the code does when no two
  names share a status object, as where the program builds the map.
\<close>

section \<open>State\<close>

record device_status =
  TotalCycles :: int
  CycleThrottle :: nat
  MaxDirtyBlocks :: int
  CyclesBelowDirtyBlockTreshold :: int
  MinCycles :: int
  MaxCycles :: int
  Ready :: bool
  ReadyAndSentDirty :: bool
  SuspendedAtPreGetDirty :: bool

record 'x dm_state = "'x vm_state" +
  Devices :: "(string, device_status) gomap"
  ReadyDevices :: "string list"
  authorityTransferCompleted :: bool
  suspendCompleted :: bool
  suspendDoneCh_closed :: bool
  waited :: nat  \<comment> \<open>ghost: the time spent in the cycle throttle\<close>

record 'x dm_funcs = "'x vm_funcs" +
  authorityTransfer :: "('x, unit) go"

definition NewDirtyManager ::
    "'x vm_state \<Rightarrow> (string, device_status) gomap \<Rightarrow> 'x dm_state" where
  "NewDirtyManager vm devs = vm_state.extend vm
     (dm_state.fields devs [] False False False 0)"

section \<open>The hooks\<close>

text \<open>\<open>dm.Devices[name]\<close> followed by a field: a nil dereference for an unknown name.\<close>

definition withDevice ::
    "string \<Rightarrow> (device_status \<Rightarrow> (('x, 'z) dm_state_scheme, 'a) go) \<Rightarrow>
     (('x, 'z) dm_state_scheme, 'a) go" where
  "withDevice name k = (\<lambda>s. case gm_get (Devices s) name of
      None \<Rightarrow> (Panic NilDeref, s) | Some di \<Rightarrow> k di s)"

definition setDevice ::
    "string \<Rightarrow> (device_status \<Rightarrow> device_status) \<Rightarrow> ('x, 'z) dm_state_scheme \<Rightarrow>
     ('x, 'z) dm_state_scheme" where
  "setDevice name f s = s\<lparr>Devices := AList.map_entry name f (Devices s)\<rparr>"

definition insertReady :: "string \<Rightarrow> ('x, 'z) dm_state_scheme \<Rightarrow> ('x, 'z) dm_state_scheme" where
  "insertReady name s = s\<lparr>ReadyDevices := List.insert name (ReadyDevices s)\<rparr>"

definition markDeviceReady :: "string \<Rightarrow> (('x, 'z) dm_state_scheme, unit) go" where
  "markDeviceReady name = withDevice name (\<lambda>di. whenM (\<not> Ready di)
     (andThen (update (setDevice name (\<lambda>d. d\<lparr>Ready := True\<rparr>))) (\<lambda>_.
      update (insertReady name))))"

definition PreGetDirty ::
    "('x, 'y) dm_funcs_scheme \<Rightarrow> string \<Rightarrow> (('x, 'z) dm_state_scheme, bool \<times> goerr option) go" where
  "PreGetDirty df name =
     reading CheckSuspendedVM (\<lambda>isSuspended.
     withDevice name (\<lambda>di.
     andThen (update (setDevice name (\<lambda>d. d\<lparr>SuspendedAtPreGetDirty := isSuspended\<rparr>))) (\<lambda>_.
     if \<not> isSuspended \<and> name = DeviceMemoryName then
       (if MaxCycles di > 0 then
          attempt (Msync df) (\<lambda>r. case r of
            Inl e \<Rightarrow> ret (True, Some (Joined [VmStateErr ErrCouldNotMsyncRunner, e]))
          | Inr _ \<Rightarrow> ret (True, None))
        else andThen (markDeviceReady name) (\<lambda>_. ret (False, None)))
     else ret (True, None))))"

definition allReadyAndSent :: "('x, 'z) dm_state_scheme \<Rightarrow> bool" where
  "allReadyAndSent s \<longleftrightarrow> list_all (\<lambda>(_, dii). Ready dii \<and> ReadyAndSentDirty dii) (Devices s)"

definition markReadyDeviceSentDirty ::
    "('x, 'y) dm_funcs_scheme \<Rightarrow> string \<Rightarrow> (('x, 'z) dm_state_scheme, unit) go" where
  "markReadyDeviceSentDirty df name =
     reading ReadyDevices (\<lambda>rd. if name \<notin> set rd then ret () else
     andThen (update (setDevice name (\<lambda>d. d\<lparr>ReadyAndSentDirty := True\<rparr>))) (\<lambda>_.
     reading allReadyAndSent (\<lambda>ready. if \<not> ready then ret () else
     reading suspendCompleted (\<lambda>done'. if \<not> done' then ret () else
     reading authorityTransferCompleted (\<lambda>transferred. if transferred then ret () else
     andThen (update (\<lambda>s. s\<lparr>authorityTransferCompleted := True\<rparr>)) (\<lambda>_.
     callClosure AuthorityTransfer (authorityTransfer df)))))))"

text \<open>The two hooks return \<open>(bool, error)\<close>; the error is that of the mark.\<close>

definition finishDirty ::
    "('x, 'y) dm_funcs_scheme \<Rightarrow> string \<Rightarrow> (('x, 'z) dm_state_scheme, bool \<times> goerr option) go" where
  "finishDirty df name = attempt (markReadyDeviceSentDirty df name) (\<lambda>r. case r of
      Inl e \<Rightarrow> ret (False, Some e) | Inr _ \<Rightarrow> ret (False, None))"

definition PostGetDirty ::
    "('x, 'y) dm_funcs_scheme \<Rightarrow> string \<Rightarrow> nat list \<Rightarrow>
     (('x, 'z) dm_state_scheme, bool \<times> goerr option) go" where
  "PostGetDirty df name blocks =
     (if length blocks = 0 then
        withDevice name (\<lambda>di. if SuspendedAtPreGetDirty di then finishDirty df name
                              else ret (True, None))
      else ret (True, None))"

text \<open>
  The wait of the cycle throttle: \<open>suspendDone\<close> is the time until the channel
  \<open>suspendDoneCh\<close> is closed, if it is; an interrupt is ignored by a device that has already
  sent its dirty list.
\<close>

definition throttleWait :: "nat option \<Rightarrow> device_status \<Rightarrow> nat" where
  "throttleWait suspendDone di = (case suspendDone of
      None \<Rightarrow> CycleThrottle di
    | Some t \<Rightarrow> if CycleThrottle di \<le> t then CycleThrottle di
                else if \<not> ReadyAndSentDirty di then t
                else CycleThrottle di)"

text \<open>The cycle count: the new status, and whether the device is to be marked ready.\<close>

definition countCycle :: "nat \<Rightarrow> device_status \<Rightarrow> device_status \<times> bool" where
  "countCycle nblocks di0 =
     (let di = di0\<lparr>TotalCycles := TotalCycles di0 + 1\<rparr> in
      if int nblocks < MaxDirtyBlocks di then
        (let di = di\<lparr>CyclesBelowDirtyBlockTreshold := CyclesBelowDirtyBlockTreshold di + 1\<rparr> in
         (di, CyclesBelowDirtyBlockTreshold di > MinCycles di))
      else if TotalCycles di \<ge> MaxCycles di then (di, True)
      else (di\<lparr>CyclesBelowDirtyBlockTreshold := 0\<rparr>, False))"

definition closeSuspendDoneCh :: "(('x, 'z) dm_state_scheme, unit) go" where
  "closeSuspendDoneCh = (\<lambda>s. if suspendDoneCh_closed s then (Panic CloseOfClosedChannel, s)
                             else (Ok (), s\<lparr>suspendDoneCh_closed := True\<rparr>))"

definition allReady :: "('x, 'z) dm_state_scheme \<Rightarrow> bool" where
  "allReady s \<longleftrightarrow> length (ReadyDevices s) = length (Devices s)"

definition suspendOnce ::
    "('x, 'y) dm_funcs_scheme \<Rightarrow> (('x, 'z) dm_state_scheme, bool \<times> goerr option) go" where
  "suspendOnce df =
     reading suspendCompleted (\<lambda>done'. if done' then ret (True, None) else
     attempt (SuspendAndMsync df) (\<lambda>r.
     andThen (update (\<lambda>s. s\<lparr>suspendCompleted := True\<rparr>)) (\<lambda>_.
     andThen closeSuspendDoneCh (\<lambda>_. case r of
       Inl e \<Rightarrow> ret (True, Some (Joined [DirtyManagerErr ErrCouldNotSuspendAndMsyncVM, e]))
     | Inr _ \<Rightarrow> ret (True, None)))))"

definition PostMigrateDirty ::
    "('x, 'y) dm_funcs_scheme \<Rightarrow> nat option \<Rightarrow> string \<Rightarrow> nat list \<Rightarrow>
     (('x, 'z) dm_state_scheme, bool \<times> goerr option) go" where
  "PostMigrateDirty df suspendDone name blocks =
     withDevice name (\<lambda>di. if SuspendedAtPreGetDirty di then finishDirty df name else
     andThen (update (\<lambda>s. s\<lparr>waited := waited s + throttleWait suspendDone di\<rparr>)) (\<lambda>_.
     case countCycle (length blocks) di of (di', mark) \<Rightarrow>
     andThen (update (setDevice name (\<lambda>_. di'))) (\<lambda>_.
     andThen (whenM mark (markDeviceReady name)) (\<lambda>_.
     reading allReady (\<lambda>ready. if ready then suspendOnce df else ret (True, None))))))"

section \<open>Elementary facts\<close>

lemma get_setDevice [simp]:
  "gm_get (Devices (setDevice n f s)) m =
     (if m = n then map_option f (gm_get (Devices s) n) else gm_get (Devices s) m)"
  by (auto simp: setDevice_def map_of_map_entry split: option.splits)

lemma keys_setDevice [simp]: "map fst (Devices (setDevice n f s)) = map fst (Devices s)"
  by (simp add: setDevice_def)

lemma wf_setDevice [simp]: "gm_wf (Devices (setDevice n f s)) = gm_wf (Devices s)"
  by (simp add: setDevice_def)

lemma setDevice_fields [simp]:
  "suspended (setDevice n f s) = suspended s"
  "suspendedCh_closed (setDevice n f s) = suspendedCh_closed s"
  "calls (setDevice n f s) = calls s"
  "outer (setDevice n f s) = outer s"
  "ReadyDevices (setDevice n f s) = ReadyDevices s"
  "authorityTransferCompleted (setDevice n f s) = authorityTransferCompleted s"
  "suspendCompleted (setDevice n f s) = suspendCompleted s"
  "suspendDoneCh_closed (setDevice n f s) = suspendDoneCh_closed s"
  "dm_state.more (setDevice n f s) = dm_state.more s"
  by (simp_all add: setDevice_def)

lemma insertReady_fields [simp]:
  "suspended (insertReady n s) = suspended s"
  "suspendedCh_closed (insertReady n s) = suspendedCh_closed s"
  "calls (insertReady n s) = calls s"
  "outer (insertReady n s) = outer s"
  "Devices (insertReady n s) = Devices s"
  "ReadyDevices (insertReady n s) = List.insert n (ReadyDevices s)"
  "authorityTransferCompleted (insertReady n s) = authorityTransferCompleted s"
  "suspendCompleted (insertReady n s) = suspendCompleted s"
  "suspendDoneCh_closed (insertReady n s) = suspendDoneCh_closed s"
  "dm_state.more (insertReady n s) = dm_state.more s"
  by (simp_all add: insertReady_def)

lemma allReadyAndSent_iff:
  "gm_wf (Devices s) \<Longrightarrow> allReadyAndSent s \<longleftrightarrow>
     (\<forall>n di. gm_get (Devices s) n = Some di \<longrightarrow> Ready di \<and> ReadyAndSentDirty di)"
  by (fastforce simp: allReadyAndSent_def list_all_iff gm_wf_get)

text \<open>With distinct names on both sides, equal lengths mean equal sets of names.\<close>

lemma allReady_iff:
  assumes "gm_wf (Devices s)" and "distinct (ReadyDevices s)"
    and "set (ReadyDevices s) \<subseteq> fst ` set (Devices s)"
  shows "allReady s \<longleftrightarrow> set (ReadyDevices s) = fst ` set (Devices s)"
proof -
  have lens: "card (set (ReadyDevices s)) = length (ReadyDevices s)"
    "card (fst ` set (Devices s)) = length (Devices s)"
    using assms(1,2) distinct_card[of "ReadyDevices s"] distinct_card[of "map fst (Devices s)"]
    by (auto simp: gm_wf_def)
  have "card (set (ReadyDevices s)) = card (fst ` set (Devices s)) \<Longrightarrow>
      set (ReadyDevices s) = fst ` set (Devices s)"
    using assms(3) by (intro card_subset_eq) auto
  then show ?thesis
    using lens by (auto simp: allReady_def)
qed

text \<open>How often a closure was called.\<close>

definition times :: "vm_call \<Rightarrow> ('x, 'z) vm_state_scheme \<Rightarrow> nat" where
  "times c s = length (filter (\<lambda>p. fst p = c) (calls s))"

lemma times_setDevice [simp]: "times c (setDevice n f s) = times c s"
  by (simp add: times_def)

lemma times_insertReady [simp]: "times c (insertReady n s) = times c s"
  by (simp add: times_def)

text \<open>What one run of \<open>SuspendAndMsync\<close> does, seen from outside.\<close>

lemma SuspendAndMsync_effect:
  assumes "SuspendAndMsync df s = (r, s')"
  shows "times SuspendFunc s' \<le> Suc (times SuspendFunc s)"
    and "times AuthorityTransfer s' = times AuthorityTransfer s"
    and "\<exists>ys. calls s' = calls s @ ys"
proof -
  have "wp (SuspendAndMsync df) (\<lambda>_ s'. times SuspendFunc s' \<le> Suc (times SuspendFunc s) \<and>
      times AuthorityTransfer s' = times AuthorityTransfer s \<and> (\<exists>ys. calls s' = calls s @ ys)) s"
    by (auto simp: SuspendAndMsync_def go_wp times_def intro!: wp_any split: option.splits)
  then show "times SuspendFunc s' \<le> Suc (times SuspendFunc s)"
    and "times AuthorityTransfer s' = times AuthorityTransfer s"
    and "\<exists>ys. calls s' = calls s @ ys"
    using assms by (auto simp: wp_def)
qed

text \<open>
  The fields of the dirty manager are out of reach of the suspend: it leaves the extension of the
  \<open>VMStateMgr\<close> record alone.
\<close>

lemma vm_more_eq:
  "vm_state.more s' = vm_state.more (s :: ('x, 'z) dm_state_scheme) \<Longrightarrow>
     Devices s' = Devices s \<and> ReadyDevices s' = ReadyDevices s \<and>
     authorityTransferCompleted s' = authorityTransferCompleted s \<and>
     suspendCompleted s' = suspendCompleted s \<and> suspendDoneCh_closed s' = suspendDoneCh_closed s \<and>
     dm_state.more s' = dm_state.more s"
  by (cases s; cases s') simp

lemma SuspendAndMsync_dm_fields:
  assumes "SuspendAndMsync df (s :: ('x, 'z) dm_state_scheme) = (r, s')"
  shows "Devices s' = Devices s" "ReadyDevices s' = ReadyDevices s"
    "authorityTransferCompleted s' = authorityTransferCompleted s"
    "suspendCompleted s' = suspendCompleted s" "suspendDoneCh_closed s' = suspendDoneCh_closed s"
    "dm_state.more s' = dm_state.more s"
  using vm_more_eq[OF SuspendAndMsync_fields(1)[OF assms]] by simp_all

section \<open>The cycle count ends\<close>

text \<open>
  A device that goes through the cycle count again and again, whatever number of dirty blocks each
  cycle finds, is marked ready after at most \<open>max 1 MaxCycles + max 0 MinCycles\<close> cycles.
\<close>

fun countCycles :: "nat list \<Rightarrow> device_status \<Rightarrow> device_status \<times> bool" where
  "countCycles [] di = (di, False)"
| "countCycles (n # ns) di =
     (case countCycle n di of (di', mark) \<Rightarrow> if mark then (di', True) else countCycles ns di')"

lemma countCycle_unmarked:
  assumes "countCycle n di = (di', False)"
  shows "TotalCycles di' = TotalCycles di + 1" "MaxCycles di' = MaxCycles di"
    "MinCycles di' = MinCycles di" "MaxDirtyBlocks di' = MaxDirtyBlocks di"
    "TotalCycles di' \<ge> MaxCycles di' \<Longrightarrow>
      CyclesBelowDirtyBlockTreshold di' = CyclesBelowDirtyBlockTreshold di + 1"
    "CyclesBelowDirtyBlockTreshold di' \<le> max 0 (MinCycles di')"
    "CyclesBelowDirtyBlockTreshold di \<ge> 0 \<Longrightarrow> CyclesBelowDirtyBlockTreshold di' \<ge> 0"
  using assms by (auto simp: countCycle_def Let_def split: if_splits)

text \<open>The cycles that are left before a device is marked, in the worst case.\<close>

definition cyclesLeft :: "device_status \<Rightarrow> nat" where
  "cyclesLeft di =
     (if TotalCycles di < MaxCycles di
      then nat (MaxCycles di - TotalCycles di) + nat (MinCycles di)
      else Suc (nat (MinCycles di - CyclesBelowDirtyBlockTreshold di)))"

lemma cyclesLeft_decreases:
  assumes "countCycle n di = (di', False)" and "CyclesBelowDirtyBlockTreshold di \<ge> 0"
  shows "cyclesLeft di' < cyclesLeft di"
  using assms
  by (auto simp: countCycle_def cyclesLeft_def Let_def split: if_splits)

lemma countCycles_marks:
  assumes "CyclesBelowDirtyBlockTreshold di \<ge> 0" and "cyclesLeft di \<le> length ns"
  shows "snd (countCycles ns di)"
  using assms
proof (induction ns arbitrary: di)
  case Nil
  then show ?case by (auto simp: cyclesLeft_def split: if_splits)
next
  case (Cons n ns)
  obtain di' mark where c: "countCycle n di = (di', mark)" by fastforce
  show ?case
  proof (cases mark)
    case True
    with c show ?thesis by simp
  next
    case False
    with c Cons.prems have "cyclesLeft di' \<le> length ns"
      using cyclesLeft_decreases[of n di di'] by simp
    moreover have "CyclesBelowDirtyBlockTreshold di' \<ge> 0"
      using c False Cons.prems countCycle_unmarked(7)[of n di di'] by simp
    ultimately show ?thesis using c False Cons.IH by simp
  qed
qed

end
