(* ===== verification/DirtySteps.thy ===== *)
theory DirtySteps
  imports DirtyManager
begin

text \<open>
  The dirty phase as interleaved steps. Every device has a goroutine with a program counter; the
  hooks of \<open>DirtyManager\<close> are cut at the points where another goroutine can run in between:
  between reading the suspended flag and storing it, before and after each lock is held, and
  around the throttle. \<open>suspendLock\<close> names the device whose goroutine holds that mutex.
  \<open>ReadyDevicesLock\<close> and \<open>authorityTransferLock\<close> are held for one step only.
\<close>

datatype pc =
    Idle
  | PreChecked bool      \<comment> \<open>PreGetDirty has read the suspended flag\<close>
  | PreMsync             \<comment> \<open>PreGetDirty is about to msync the memory device\<close>
  | Throttling nat       \<comment> \<open>PostMigrateDirty waits, with so many dirty blocks\<close>
  | MarkTest bool        \<comment> \<open>markDeviceReady; the flag says whether PostMigrateDirty goes on\<close>
  | MarkInsert bool
  | Checking             \<comment> \<open>PostMigrateDirty is about to compare the number of ready devices\<close>
  | Suspending           \<comment> \<open>about to take suspendLock\<close>
  | Locked               \<comment> \<open>holds suspendLock, the suspend not done\<close>
  | Completing           \<comment> \<open>holds suspendLock, SuspendAndMsync has returned\<close>

record 'x dm_sys = "'x dm_state" +
  pcs :: "string \<Rightarrow> pc"
  suspendLock :: "string option"

definition goto :: "string \<Rightarrow> pc \<Rightarrow> ('x, 'z) dm_sys_scheme \<Rightarrow> ('x, 'z) dm_sys_scheme" where
  "goto n p s = s\<lparr>pcs := (pcs s)(n := p)\<rparr>"

definition afterMark :: "bool \<Rightarrow> pc" where
  "afterMark goes_on = (if goes_on then Checking else Idle)"

text \<open>\<open>markReadyDeviceSentDirty\<close> takes \<open>suspendLock\<close> once every device is ready and has sent.\<close>

definition takesSuspendLock :: "string \<Rightarrow> ('x, 'z) dm_sys_scheme \<Rightarrow> bool" where
  "takesSuspendLock n s \<longleftrightarrow> n \<in> set (ReadyDevices s) \<and>
     allReadyAndSent (setDevice n (\<lambda>d. d\<lparr>ReadyAndSentDirty := True\<rparr>) s)"

inductive dm_step ::
    "('x, 'y) dm_funcs_scheme \<Rightarrow> ('x, 'z) dm_sys_scheme \<Rightarrow> ('x, 'z) dm_sys_scheme \<Rightarrow> bool"
  for df where
  pre_check: "pcs s n = Idle \<Longrightarrow> dm_step df s (goto n (PreChecked (CheckSuspendedVM s)) s)"
| pre_store: "pcs s n = PreChecked b \<Longrightarrow> gm_get (Devices s) n = Some di \<Longrightarrow>
    dm_step df s (goto n
      (if \<not> b \<and> n = DeviceMemoryName then (if MaxCycles di > 0 then PreMsync else MarkTest False)
       else Idle)
      (setDevice n (\<lambda>d. d\<lparr>SuspendedAtPreGetDirty := b\<rparr>) s))"
| pre_msync: "pcs s n = PreMsync \<Longrightarrow> Msync df s = (r, s') \<Longrightarrow> dm_step df s (goto n Idle s')"
| mark_known: "pcs s n = MarkTest k \<Longrightarrow> gm_get (Devices s) n = Some di \<Longrightarrow> Ready di \<Longrightarrow>
    dm_step df s (goto n (afterMark k) s)"
| mark_set: "pcs s n = MarkTest k \<Longrightarrow> gm_get (Devices s) n = Some di \<Longrightarrow> \<not> Ready di \<Longrightarrow>
    dm_step df s (goto n (MarkInsert k) (setDevice n (\<lambda>d. d\<lparr>Ready := True\<rparr>) s))"
| mark_insert: "pcs s n = MarkInsert k \<Longrightarrow>
    dm_step df s (goto n (afterMark k) (insertReady n s))"
| sent_dirty: "pcs s n = Idle \<Longrightarrow> gm_get (Devices s) n = Some di \<Longrightarrow> SuspendedAtPreGetDirty di \<Longrightarrow>
    (takesSuspendLock n s \<Longrightarrow> suspendLock s = None) \<Longrightarrow>
    markReadyDeviceSentDirty df n s = (r, s') \<Longrightarrow> dm_step df s s'"
| throttle: "pcs s n = Idle \<Longrightarrow> gm_get (Devices s) n = Some di \<Longrightarrow> \<not> SuspendedAtPreGetDirty di \<Longrightarrow>
    dm_step df s (goto n (Throttling k) (s\<lparr>waited := waited s + throttleWait t di\<rparr>))"
| count_cycle: "pcs s n = Throttling k \<Longrightarrow> gm_get (Devices s) n = Some di \<Longrightarrow>
    countCycle k di = (di', mark) \<Longrightarrow>
    dm_step df s (goto n (if mark then MarkTest True else Checking) (setDevice n (\<lambda>_. di') s))"
| check_ready: "pcs s n = Checking \<Longrightarrow>
    dm_step df s (goto n (if allReady s then Suspending else Idle) s)"
| lock_again: "pcs s n = Suspending \<Longrightarrow> suspendLock s = None \<Longrightarrow> suspendCompleted s \<Longrightarrow>
    dm_step df s (goto n Idle s)"
| lock_first: "pcs s n = Suspending \<Longrightarrow> suspendLock s = None \<Longrightarrow> \<not> suspendCompleted s \<Longrightarrow>
    dm_step df s (goto n Locked (s\<lparr>suspendLock := Some n\<rparr>))"
| suspend: "pcs s n = Locked \<Longrightarrow> SuspendAndMsync df s = (r, s') \<Longrightarrow>
    dm_step df s (goto n Completing s')"
| complete: "pcs s n = Completing \<Longrightarrow>
    closeSuspendDoneCh (s\<lparr>suspendCompleted := True\<rparr>) = (r, s') \<Longrightarrow>
    dm_step df s (goto n Idle (s'\<lparr>suspendLock := None\<rparr>))"

text \<open>
  A migration starts with fresh statuses under distinct names, a running machine and every
  goroutine at rest.
\<close>

definition freshStatus :: "device_status \<Rightarrow> bool" where
  "freshStatus di \<longleftrightarrow> TotalCycles di = 0 \<and> CyclesBelowDirtyBlockTreshold di = 0 \<and> \<not> Ready di \<and>
     \<not> ReadyAndSentDirty di \<and> \<not> SuspendedAtPreGetDirty di"

definition dm_init :: "('x, 'z) dm_sys_scheme \<Rightarrow> bool" where
  "dm_init s \<longleftrightarrow> (\<exists>su ms be af x devs. gm_wf devs \<and> (\<forall>(n, di) \<in> set devs. freshStatus di) \<and>
     dm_state.truncate s = NewDirtyManager (snd (NewVMStateMgr su ms be af x)) devs) \<and>
     pcs s = (\<lambda>_. Idle) \<and> suspendLock s = None"

lemma goto_fields [simp]:
  "suspended (goto n p s) = suspended s"
  "suspendedCh_closed (goto n p s) = suspendedCh_closed s"
  "calls (goto n p s) = calls s"
  "Devices (goto n p s) = Devices s"
  "ReadyDevices (goto n p s) = ReadyDevices s"
  "authorityTransferCompleted (goto n p s) = authorityTransferCompleted s"
  "suspendCompleted (goto n p s) = suspendCompleted s"
  "suspendDoneCh_closed (goto n p s) = suspendDoneCh_closed s"
  "suspendLock (goto n p s) = suspendLock s"
  "pcs (goto n p s) = (pcs s)(n := p)"
  "allReadyAndSent (goto n p s) = allReadyAndSent s"
  "times c (goto n p s) = times c s"
  "vm_inv (goto n p s) = vm_inv s"
  by (simp_all add: goto_def allReadyAndSent_def times_def vm_inv_def)

section \<open>The invariant\<close>

text \<open>Shape of the data: distinct names, and a device is in the ready map only if marked.\<close>

definition inv_data :: "('x, 'z) dm_state_scheme \<Rightarrow> bool" where
  "inv_data s \<longleftrightarrow> gm_wf (Devices s) \<and> distinct (ReadyDevices s) \<and>
     (\<forall>n \<in> set (ReadyDevices s). \<exists>di. gm_get (Devices s) n = Some di \<and> Ready di)"

text \<open>What the flags of a device say about the machine.\<close>

definition inv_flags :: "('x, 'z) dm_sys_scheme \<Rightarrow> bool" where
  "inv_flags s \<longleftrightarrow> (\<forall>n di. gm_get (Devices s) n = Some di \<longrightarrow>
     (SuspendedAtPreGetDirty di \<or> ReadyAndSentDirty di \<longrightarrow> suspended s)) \<and>
     (\<forall>n. pcs s n = PreChecked True \<longrightarrow> suspended s) \<and>
     (\<forall>n k. pcs s n = MarkInsert k \<longrightarrow> (\<exists>di. gm_get (Devices s) n = Some di \<and> Ready di))"

text \<open>Every device is in the ready map.\<close>

definition everyoneReady :: "('x, 'z) dm_state_scheme \<Rightarrow> bool" where
  "everyoneReady s \<longleftrightarrow> set (ReadyDevices s) = fst ` set (Devices s)"

definition inv_suspend :: "('x, 'z) dm_sys_scheme \<Rightarrow> bool" where
  "inv_suspend s \<longleftrightarrow>
     (suspended s \<or> suspendCompleted s \<or> (\<exists>n. pcs s n \<in> {Suspending, Locked, Completing})
        \<longrightarrow> everyoneReady s) \<and>
     (\<forall>n. suspendLock s = Some n \<longleftrightarrow> pcs s n \<in> {Locked, Completing}) \<and>
     (suspendLock s \<noteq> None \<longrightarrow> \<not> suspendCompleted s) \<and>
     suspendDoneCh_closed s = suspendCompleted s \<and>
     times SuspendFunc s \<le> 1 \<and>
     ((case suspendLock s of None \<Rightarrow> suspendCompleted s | Some n \<Rightarrow> pcs s n = Completing) \<or>
        times SuspendFunc s = 0)"

definition inv_authority :: "('x, 'z) dm_sys_scheme \<Rightarrow> bool" where
  "inv_authority s \<longleftrightarrow>
     times AuthorityTransfer s = (if authorityTransferCompleted s then 1 else 0) \<and>
     (authorityTransferCompleted s \<longrightarrow>
        suspendCompleted s \<and> suspended s \<and> allReadyAndSent s \<and>
        (\<exists>b. subseq [(SuspendFunc, True), (MsyncFunc, True), (AuthorityTransfer, b)] (calls s)))"

definition dm_inv :: "('x, 'z) dm_sys_scheme \<Rightarrow> bool" where
  "dm_inv s \<longleftrightarrow> vm_inv s \<and> inv_data s \<and> inv_flags s \<and> inv_suspend s \<and> inv_authority s"

section \<open>Every step keeps the invariant\<close>

text \<open>The outcomes of \<open>markReadyDeviceSentDirty\<close>.\<close>

lemma markSent_cases:
  assumes "markReadyDeviceSentDirty df n s = (r, s')"
  obtains (unknown) "n \<notin> set (ReadyDevices s)" "s' = s" "r = Ok ()"
  | (marked) "n \<in> set (ReadyDevices s)"
      "s' = setDevice n (\<lambda>d. d\<lparr>ReadyAndSentDirty := True\<rparr>) s" "r = Ok ()"
      "\<not> takesSuspendLock n s \<or> \<not> suspendCompleted s \<or> authorityTransferCompleted s"
  | (transfer) x where "n \<in> set (ReadyDevices s)" "takesSuspendLock n s" "suspendCompleted s"
      "\<not> authorityTransferCompleted s"
      "s' = setDevice n (\<lambda>d. d\<lparr>ReadyAndSentDirty := True\<rparr>) s
         \<lparr>authorityTransferCompleted := True, outer := x,
          calls := calls s @ [(AuthorityTransfer, r = Ok ())]\<rparr>"
      "x = snd (authorityTransfer df (outer s))"
proof -
  let ?s1 = "setDevice n (\<lambda>d. d\<lparr>ReadyAndSentDirty := True\<rparr>) s"
  show thesis
  proof (cases "n \<in> set (ReadyDevices s)")
    case False
    with assms show thesis
      by (intro unknown) (auto simp: markReadyDeviceSentDirty_def go_defs)
  next
    case True
    note T = this
    show thesis
    proof (cases "takesSuspendLock n s \<and> suspendCompleted s \<and> \<not> authorityTransferCompleted s")
      case True
      obtain r' x where x: "authorityTransfer df (outer s) = (r', x)" by fastforce
      show thesis
        by (rule transfer[of x])
          (use T True x assms in \<open>auto simp: markReadyDeviceSentDirty_def go_defs takesSuspendLock_def
              callClosure_def split: prod.splits\<close>)
    next
      case False
      then show thesis
        by (intro marked)
          (use T assms in \<open>auto simp: markReadyDeviceSentDirty_def go_defs takesSuspendLock_def
              split: if_splits\<close>)
    qed
  qed
qed

lemma Msync_effect:
  assumes "Msync df s = (r, s')"
  obtains x where "s' = s\<lparr>outer := x, calls := calls s @ [(MsyncFunc, r = Ok ())]\<rparr>"
  using assms by (auto simp: Msync_def callClosure_def split: prod.splits)

lemma inv_data_iff:
  "inv_data s \<longleftrightarrow> gm_wf (Devices s) \<and> distinct (ReadyDevices s) \<and>
     (\<forall>n \<in> set (ReadyDevices s). \<exists>di. gm_get (Devices s) n = Some di \<and> Ready di)"
  by (simp add: inv_data_def)

lemma sys_fields [simp]:
  "pcs (setDevice n f s) = pcs s" "suspendLock (setDevice n f s) = suspendLock s"
  "pcs (insertReady n s) = pcs s" "suspendLock (insertReady n s) = suspendLock s"
  by (simp_all add: setDevice_def insertReady_def)

lemma inv_data_same:
  "Devices t = Devices s \<Longrightarrow> ReadyDevices t = ReadyDevices s \<Longrightarrow> inv_data t = inv_data s"
  by (simp add: inv_data_def)

lemma inv_data_goto [simp]: "inv_data (goto n p s) = inv_data s"
  by (simp add: inv_data_def)

lemma inv_data_setDevice:
  "inv_data s \<Longrightarrow> (\<And>di. gm_get (Devices s) n = Some di \<Longrightarrow> Ready di \<Longrightarrow> Ready (f di)) \<Longrightarrow>
     inv_data (setDevice n f s)"
  by (fastforce simp: inv_data_def)

lemma everyone_cong [simp]:
  "everyoneReady (goto n p s) = everyoneReady s"
  "everyoneReady (setDevice n f s) = everyoneReady s"
proof -
  have "fst ` set (Devices (setDevice n f s)) = fst ` set (Devices s)"
    by (metis keys_setDevice list.set_map)
  then show "everyoneReady (goto n p s) = everyoneReady s"
    "everyoneReady (setDevice n f s) = everyoneReady s"
    by (simp_all add: everyoneReady_def)
qed

lemma everyone_updates [simp]:
  "everyoneReady (s\<lparr>outer := x\<rparr>) = everyoneReady s" "everyoneReady (s\<lparr>calls := c\<rparr>) = everyoneReady s"
  "everyoneReady (s\<lparr>waited := w\<rparr>) = everyoneReady s"
  "everyoneReady (s\<lparr>authorityTransferCompleted := b\<rparr>) = everyoneReady s"
  "everyoneReady (s\<lparr>suspendCompleted := b\<rparr>) = everyoneReady s"
  "everyoneReady (s\<lparr>suspendDoneCh_closed := b\<rparr>) = everyoneReady s"
  "everyoneReady (s\<lparr>suspendLock := l\<rparr>) = everyoneReady (s :: ('x, 'z) dm_sys_scheme)"
  by (simp_all add: everyoneReady_def)

lemma everyone_insert: "everyoneReady s \<Longrightarrow> gm_get (Devices s) n = Some di \<Longrightarrow> everyoneReady (insertReady n s)"
  by (auto simp: everyoneReady_def map_of_eq_None_iff insert_absorb dest!: map_of_SomeD intro: rev_image_eqI)

lemma countCycle_keeps:
  "countCycle k di = (di', m) \<Longrightarrow> Ready di' = Ready di \<and> ReadyAndSentDirty di' = ReadyAndSentDirty di \<and>
     SuspendedAtPreGetDirty di' = SuspendedAtPreGetDirty di"
  by (auto simp: countCycle_def Let_def split: if_splits)

lemma closeSuspendDoneCh_effect:
  "closeSuspendDoneCh s = (r, s') \<Longrightarrow> s' = s\<lparr>suspendDoneCh_closed := True\<rparr>"
  by (auto simp: closeSuspendDoneCh_def split: if_splits)

lemma step_data:
  assumes "dm_step df s t" and "dm_inv s"
  shows "inv_data t"
  using assms
proof (cases rule: dm_step.cases)
  case (pre_msync n r s')
  then show ?thesis using assms(2)
    by (auto simp: dm_inv_def inv_data_def elim!: Msync_effect)
next
  case (mark_insert n k)
  then show ?thesis using assms(2)
    by (auto simp: dm_inv_def inv_data_def inv_flags_def)
next
  case (sent_dirty n di r)
  have d: "inv_data s" using assms(2) by (simp add: dm_inv_def)
  then have "inv_data (setDevice n (\<lambda>d. d\<lparr>ReadyAndSentDirty := True\<rparr>) s)"
    by (rule inv_data_setDevice) simp
  with sent_dirty(5) d show ?thesis
    by (cases rule: markSent_cases) (simp, simp, auto simp: inv_data_iff)
next
  case (suspend n r s')
  have "inv_data s' = inv_data s"
    by (rule inv_data_same) (use suspend(3) in \<open>auto dest: SuspendAndMsync_dm_fields\<close>)
  then show ?thesis using assms(2) suspend(1) by (simp add: dm_inv_def)
next
  case (complete n r s')
  then show ?thesis using assms(2)
    by (auto simp: dm_inv_def inv_data_def dest!: closeSuspendDoneCh_effect)
next
  case (throttle n di k t)
  then show ?thesis using assms(2) by (auto simp: dm_inv_def inv_data_def)
qed (auto simp: dm_inv_def inv_data_iff countCycle_keeps)

lemma step_flags:
  assumes "dm_step df s t" and "dm_inv s"
  shows "inv_flags t"
  using assms
proof (cases rule: dm_step.cases)
  case (pre_msync n r s')
  then show ?thesis using assms(2)
    by (auto simp: dm_inv_def inv_flags_def split: if_splits elim!: Msync_effect)
next
  case (sent_dirty n di r)
  have f: "inv_flags s" using assms(2) by (simp add: dm_inv_def)
  have su: "suspended s" using f sent_dirty(2,3) unfolding inv_flags_def by blast
  have "inv_flags (setDevice n (\<lambda>d. d\<lparr>ReadyAndSentDirty := True\<rparr>) s)"
    using f su by (auto simp: inv_flags_def split: if_splits)
  with sent_dirty(5) f show ?thesis
    by (cases rule: markSent_cases) (simp_all add: inv_flags_def)
next
  case (suspend n r s')
  note f = SuspendAndMsync_dm_fields[OF suspend(3)] SuspendAndMsync_fields(2)[OF suspend(3)]
  have "pcs s' = pcs s" using f(6) by (cases s; cases s') simp
  then show ?thesis using assms(2) suspend f(1,7)
    by (fastforce simp: dm_inv_def inv_flags_def split: if_splits)
next
  case (complete n r s')
  then show ?thesis using assms(2)
    by (fastforce simp: dm_inv_def inv_flags_def split: if_splits dest!: closeSuspendDoneCh_effect)
qed (fastforce simp: dm_inv_def inv_flags_def CheckSuspendedVM_def afterMark_def countCycle_keeps
      split: if_splits)+
lemma Msync_times: "Msync df s = (r, s') \<Longrightarrow> times SuspendFunc s' = times SuspendFunc s \<and>
    times AuthorityTransfer s' = times AuthorityTransfer s"
  by (auto simp: times_def elim!: Msync_effect)

lemma SuspendAndMsync_dm_sys:
  assumes "SuspendAndMsync df (s :: ('x, 'z) dm_sys_scheme) = (r, s')"
  shows "pcs s' = pcs s" "suspendLock s' = suspendLock s"
  using SuspendAndMsync_dm_fields(6)[OF assms] by (cases s; cases s'; simp)+

lemma everyone_SuspendAndMsync:
  "SuspendAndMsync df s = (r, s') \<Longrightarrow> everyoneReady s' = everyoneReady s"
  by (simp add: everyoneReady_def SuspendAndMsync_dm_fields)

lemma inv_data_allReady:
  assumes "inv_data s"
  shows "allReady s \<longleftrightarrow> everyoneReady s"
proof -
  have "set (ReadyDevices s) \<subseteq> fst ` set (Devices s)"
    using assms by (auto simp: inv_data_def keys_iff_get)
  then show ?thesis
    using assms by (simp add: everyoneReady_def inv_data_def allReady_iff)
qed

lemma inv_suspend_same:
  "suspended t = suspended s \<Longrightarrow> suspendCompleted t = suspendCompleted s \<Longrightarrow> pcs t = pcs s \<Longrightarrow>
   suspendLock t = suspendLock s \<Longrightarrow> (everyoneReady s \<Longrightarrow> everyoneReady t) \<Longrightarrow>
   suspendDoneCh_closed t = suspendDoneCh_closed s \<Longrightarrow> times SuspendFunc t = times SuspendFunc s \<Longrightarrow>
   inv_suspend s \<Longrightarrow> inv_suspend t"
  unfolding inv_suspend_def by (simp cong: option.case_cong)

lemma inv_suspend_goto:
  assumes "inv_suspend s" and "p \<notin> {Suspending, Locked, Completing}"
    and "pcs s n \<notin> {Locked, Completing}"
  shows "inv_suspend (goto n p s)"
  using assms by (cases "suspendLock s") (auto simp: inv_suspend_def split: if_splits)

lemma inv_suspend_holder:
  "inv_suspend s \<Longrightarrow> suspendLock s = Some n \<Longrightarrow> pcs s m \<in> {Locked, Completing} \<longleftrightarrow> m = n"
  unfolding inv_suspend_def by (metis option.inject)

lemma step_suspend:
  assumes "dm_step df s t" and "dm_inv s"
  shows "inv_suspend t"
proof -
  have f: "inv_suspend s" and dat: "inv_data s" and fl: "inv_flags s"
    using assms(2) by (simp_all add: dm_inv_def)
  from assms(1) show ?thesis
  proof (cases rule: dm_step.cases)
    case (pre_check n)
    with f show ?thesis by (simp add: inv_suspend_goto)
  next
    case (pre_store n b di)
    have "inv_suspend (setDevice n (\<lambda>d. d\<lparr>SuspendedAtPreGetDirty := b\<rparr>) s)"
      by (rule inv_suspend_same[OF _ _ _ _ _ _ _ f]) simp_all
    with pre_store show ?thesis by (simp add: inv_suspend_goto)
  next
    case (pre_msync n r s')
    then have "inv_suspend s'"
      by (intro inv_suspend_same[OF _ _ _ _ _ _ _ f])
        (auto simp: times_def elim!: Msync_effect)
    moreover have "pcs s' = pcs s" using pre_msync by (auto elim!: Msync_effect)
    ultimately show ?thesis using pre_msync by (simp add: inv_suspend_goto)
  next
    case (mark_known n k di)
    with f show ?thesis by (simp add: inv_suspend_goto afterMark_def)
  next
    case (mark_set n k di)
    have "inv_suspend (setDevice n (\<lambda>d. d\<lparr>Ready := True\<rparr>) s)"
      by (rule inv_suspend_same[OF _ _ _ _ _ _ _ f]) simp_all
    with mark_set show ?thesis by (simp add: inv_suspend_goto)
  next
    case (mark_insert n k)
    have "inv_suspend (insertReady n s)"
      by (rule inv_suspend_same[OF _ _ _ _ _ _ _ f])
        (use fl mark_insert in \<open>auto simp: inv_flags_def intro: everyone_insert\<close>)
    with mark_insert show ?thesis by (simp add: inv_suspend_goto afterMark_def)
  next
    case (sent_dirty n di r)
    have g: "inv_suspend (setDevice n (\<lambda>d. d\<lparr>ReadyAndSentDirty := True\<rparr>) s)" (is "inv_suspend ?s1")
      by (rule inv_suspend_same[OF _ _ _ _ _ _ _ f]) simp_all
    from sent_dirty(5) show ?thesis
    proof (cases rule: markSent_cases)
      case (transfer x)
      show ?thesis
        by (rule inv_suspend_same[OF _ _ _ _ _ _ _ g])
          (simp_all add: transfer times_def)
    qed (use f g in simp_all)
  next
    case (throttle n di k w)
    have "inv_suspend (s\<lparr>waited := waited s + throttleWait w di\<rparr>)"
      by (rule inv_suspend_same[OF _ _ _ _ _ _ _ f]) (simp_all add: times_def)
    with throttle show ?thesis by (simp add: inv_suspend_goto)
  next
    case (count_cycle n k di di' mark)
    have "inv_suspend (setDevice n (\<lambda>_. di') s)"
      by (rule inv_suspend_same[OF _ _ _ _ _ _ _ f]) simp_all
    with count_cycle show ?thesis by (simp add: inv_suspend_goto)
  next
    case (check_ready n)
    show ?thesis
    proof (cases "allReady s")
      case True
      then have "everyoneReady s" using dat by (simp add: inv_data_allReady)
      with True check_ready f show ?thesis
        by (cases "suspendLock s") (auto simp: inv_suspend_def)
    next
      case False
      with check_ready f show ?thesis by (simp add: inv_suspend_goto)
    qed
  next
    case (lock_again n)
    with f show ?thesis by (simp add: inv_suspend_goto)
  next
    case (lock_first n)
    then show ?thesis using f
      by (cases "suspendLock s") (auto simp: inv_suspend_def times_def split: if_splits)
  next
    case (suspend n r s')
    have l: "suspendLock s = Some n" using f suspend(2) by (simp add: inv_suspend_def)
    have k: "\<not> suspendCompleted s" "times SuspendFunc s = 0" "everyoneReady s"
        "\<not> suspendDoneCh_closed s"
      using f suspend(2) l unfolding inv_suspend_def by fastforce+
    then have "times SuspendFunc s' \<le> 1" using SuspendAndMsync_effect(1)[OF suspend(3)] by simp
    moreover have "pcs t m \<in> {Locked, Completing} \<longleftrightarrow> m = n" for m
      using inv_suspend_holder[OF f l, of m] by (auto simp: suspend(1) SuspendAndMsync_dm_sys[OF suspend(3)])
    ultimately show ?thesis
      using l k 
      by (simp add: suspend(1) inv_suspend_def SuspendAndMsync_dm_sys[OF suspend(3)] 
        SuspendAndMsync_dm_fields(4,5)[OF suspend(3)] everyone_SuspendAndMsync[OF suspend(3)] eq_commute[of n])
  next
    case (complete n r s')
    have l: "suspendLock s = Some n" using f complete(2) by (simp add: inv_suspend_def)
    have k: "times SuspendFunc s \<le> 1" "everyoneReady s"
      using f complete(2) unfolding inv_suspend_def by blast+
    have "pcs t m \<notin> {Locked, Completing}" for m
      using inv_suspend_holder[OF f l, of m] by (auto simp: complete(1) closeSuspendDoneCh_effect[OF complete(3)])
    then show ?thesis
      using k
      by (simp add: complete(1) closeSuspendDoneCh_effect[OF complete(3)] inv_suspend_def times_def)
  qed
qed

lemma allReadyAndSent_mono:
  "allReadyAndSent s \<Longrightarrow> (\<And>di. gm_get (Devices s) n = Some di \<Longrightarrow> Ready di \<Longrightarrow> ReadyAndSentDirty di \<Longrightarrow> 
     Ready (f di) \<and> ReadyAndSentDirty (f di)) \<Longrightarrow> gm_wf (Devices s) \<Longrightarrow>
   allReadyAndSent (setDevice n f s)"
  by (auto simp: allReadyAndSent_iff)

lemma allReadyAndSent_same: "Devices t = Devices s \<Longrightarrow> allReadyAndSent t = allReadyAndSent s"
  by (simp add: allReadyAndSent_def)

lemma inv_authority_mono:
  assumes "inv_authority s" and "times AuthorityTransfer t = times AuthorityTransfer s"
    and "authorityTransferCompleted t = authorityTransferCompleted s"
    and "suspendCompleted s \<Longrightarrow> suspendCompleted t" and "suspended s \<Longrightarrow> suspended t"
    and "allReadyAndSent s \<Longrightarrow> allReadyAndSent t" and "\<exists>ys. calls t = calls s @ ys"
  shows "inv_authority t"
proof -
  obtain ys where ys: "calls t = calls s @ ys" using assms(7) by blast
  have "subseq xs (calls s) \<Longrightarrow> subseq xs (calls t)" for xs
    unfolding ys by (rule list_emb_prefix)
  then show ?thesis using assms(1-6) unfolding inv_authority_def by fastforce
qed

lemma inv_authority_goto [simp]: "inv_authority (goto n p s) = inv_authority s"
  by (simp add: inv_authority_def)

lemma step_authority:
  assumes "dm_step df s t" and "dm_inv s"
  shows "inv_authority t"
proof -
  have f: "inv_authority s" and dat: "inv_data s" and fl: "inv_flags s" and v: "vm_inv s"
    using assms(2) by (simp_all add: dm_inv_def)
  have w: "gm_wf (Devices s)" using dat by (simp add: inv_data_def)
  from assms(1) show ?thesis
  proof (cases rule: dm_step.cases)
    case (pre_store n b di)
    show ?thesis
      unfolding pre_store(1) by (rule inv_authority_mono[OF f]) (auto intro: allReadyAndSent_mono w)
  next
    case (pre_msync n r s')
    from pre_msync(3) show ?thesis unfolding pre_msync(1)
      by (rule Msync_effect, intro inv_authority_mono[OF f])
       (auto simp: times_def allReadyAndSent_def)
  next
    case (mark_set n k di)
    show ?thesis
      unfolding mark_set(1) by (rule inv_authority_mono[OF f]) (auto intro: allReadyAndSent_mono w)
  next
    case (mark_insert n k)
    show ?thesis
      unfolding mark_insert(1) by (rule inv_authority_mono[OF f]) (auto simp: allReadyAndSent_def)
  next
    case (sent_dirty n di r)
    let ?s1 = "setDevice n (\<lambda>d. d\<lparr>ReadyAndSentDirty := True\<rparr>) s"
    have g: "inv_authority ?s1"
      by (rule inv_authority_mono[OF f]) (auto intro: allReadyAndSent_mono w)
    have su: "suspended s" using fl sent_dirty(2,3) unfolding inv_flags_def by blast
    from sent_dirty(5) show ?thesis
    proof (cases rule: markSent_cases)
      case (transfer x)
      have "subseq [(SuspendFunc, True), (MsyncFunc, True)] (calls s)"
        using v su by (simp add: vm_inv_def)
      then have "subseq ([(SuspendFunc, True), (MsyncFunc, True)] @ [(AuthorityTransfer, r = Ok ())])
          (calls s @ [(AuthorityTransfer, r = Ok ())])"
        by (rule list_emb_append_mono) simp
      moreover have "allReadyAndSent t" 
        using transfer(2) by (simp add: transfer(5) takesSuspendLock_def allReadyAndSent_def)
      ultimately show ?thesis
        using f transfer su by (auto simp: inv_authority_def times_def)
    qed (use f g in simp_all)
  next
    case (throttle n di k w)
    show ?thesis
      unfolding throttle(1) by (rule inv_authority_mono[OF f]) (auto simp: allReadyAndSent_def times_def)
  next
    case (count_cycle n k di di' mark)
    show ?thesis
      unfolding count_cycle(1)
      by (rule inv_authority_mono[OF f])
        (use count_cycle in \<open>auto intro!: allReadyAndSent_mono w dest: countCycle_keeps\<close>)
  next
    case (lock_first n)
    show ?thesis
      unfolding lock_first(1) by (rule inv_authority_mono[OF f]) (auto simp: allReadyAndSent_def times_def)
  next
    case (suspend n r s')
    show ?thesis
      unfolding suspend(1)
      by (rule inv_authority_mono[OF f])
        (simp_all add: SuspendAndMsync_effect(2,3)[OF suspend(3)] SuspendAndMsync_fields(2)[OF suspend(3)]
           SuspendAndMsync_dm_fields[OF suspend(3)] allReadyAndSent_def)
  next
    case (complete n r s')
    show ?thesis
      unfolding complete(1) closeSuspendDoneCh_effect[OF complete(3)]
      by (rule inv_authority_mono[OF f]) (auto simp: allReadyAndSent_def times_def)
  qed (use f in simp_all)
qed

lemma step_vm:
  assumes "dm_step df s t" and "dm_inv s"
  shows "vm_inv t"
proof -
  have v: "vm_inv s" using assms(2) by (simp add: dm_inv_def)
  from assms(1) show ?thesis
  proof (cases rule: dm_step.cases)
    case (pre_msync n r s')
    then show ?thesis using v by (auto simp: vm_inv_def elim!: Msync_effect)
  next
    case (sent_dirty n di r)
    from sent_dirty(5) show ?thesis using v
      by (cases rule: markSent_cases) (auto simp: vm_inv_def)
  next
    case (suspend n r s')
    with v show ?thesis by (auto dest: SuspendAndMsync_inv)
  next
    case (complete n r s')
    with v show ?thesis by (auto simp: vm_inv_def dest!: closeSuspendDoneCh_effect)
  qed (use v in \<open>auto simp: vm_inv_def\<close>)
qed

lemma dm_step_inv: "dm_inv s \<Longrightarrow> dm_step df s t \<Longrightarrow> dm_inv t"
  using step_vm step_data step_flags step_suspend step_authority unfolding dm_inv_def by meson

lemma dm_init_inv:
  assumes "dm_init s"
  shows "dm_inv s"
proof -
  obtain su ms be af x devs where w: "gm_wf devs" and fr: "\<forall>(n, di) \<in> set devs. freshStatus di"
    and t: "dm_state.truncate s = NewDirtyManager (snd (NewVMStateMgr su ms be af x)) devs"
    and p: "pcs s = (\<lambda>_. Idle)" "suspendLock s = None"
    using assms by (auto simp: dm_init_def)
  have "suspended s = False" "suspendedCh_closed s = False" "calls s = []" "Devices s = devs"
    "ReadyDevices s = []" "authorityTransferCompleted s = False" "suspendCompleted s = False"
    "suspendDoneCh_closed s = False"
    using t by (simp_all add: NewDirtyManager_def NewVMStateMgr_def dm_state.defs vm_state.defs)
  moreover have "gm_get devs n = Some di \<Longrightarrow> freshStatus di" for n di
    using fr by (auto dest: map_of_SomeD)
  ultimately show ?thesis
    using w p by (auto simp: dm_inv_def vm_inv_def inv_data_iff inv_flags_def inv_suspend_def
        inv_authority_def times_def freshStatus_def)
qed

interpretation dm: invariant_system dm_init "dm_step df" dm_inv for df
  by unfold_locales (auto intro: dm_init_inv dm_step_inv)

section \<open>A hook that runs alone is a path of steps\<close>

lemma goto_goto [simp]: "goto n p (goto n q s) = goto n p s"
  by (simp add: goto_def)

lemma goto_here: "pcs s n = p \<Longrightarrow> goto n p s = s"
  by (simp add: goto_def fun_upd_idem)

lemma goto_setDevice [simp]: "setDevice n f (goto m p s) = goto m p (setDevice n f s)"
  by (simp add: goto_def setDevice_def)

lemma goto_insertReady [simp]: "insertReady n (goto m p s) = goto m p (insertReady n s)"
  by (simp add: goto_def insertReady_def)

lemma goto_Msync [simp]:
  "Msync df (goto n p s) = (case Msync df s of (r, s') \<Rightarrow> (r, goto n p s'))"
  by (simp add: Msync_def callClosure_def goto_def split: prod.splits)

lemma goto_CheckSuspendedVM [simp]: "CheckSuspendedVM (goto n p s) = CheckSuspendedVM s"
  by (simp add: CheckSuspendedVM_def)

text \<open>
  A program counter is out of reach of the closures: a computation \<open>ignores\<close> \<open>f\<close> when it
  does the same before and after \<open>f\<close>.
\<close>

definition ignores :: "('s \<Rightarrow> 's) \<Rightarrow> ('s, 'a) go \<Rightarrow> bool" where
  "ignores f m \<longleftrightarrow> (\<forall>s. m (f s) = map_prod id f (m s))"

lemma ignores_andThen: "ignores f m \<Longrightarrow> (\<And>x. ignores f (k x)) \<Longrightarrow> ignores f (andThen m k)"
  by (auto simp: ignores_def andThen_def split: prod.splits res.splits)

lemma ignores_wrapErr: "ignores f m \<Longrightarrow> (\<And>x. ignores f (k x)) \<Longrightarrow> ignores f (wrapErr E m k)"
  by (auto simp: ignores_def wrapErr_def split: prod.splits res.splits)

lemma ignores_reading: "(\<And>s. g (f s) = g s) \<Longrightarrow> (\<And>x. ignores f (k x)) \<Longrightarrow> ignores f (reading g k)"
  by (auto simp: ignores_def reading_def)

text \<open>What ignores the fields of a suspend ignores the whole suspend.\<close>

lemma ignores_SuspendAndMsync:
  assumes rd: "\<And>s. suspended (f s) = suspended s" "\<And>s. suspendedCh_closed (f s) = suspendedCh_closed s"
      "\<And>s. outer (f s) = outer s" "\<And>s. calls (f s) = calls s"
    and wr: "\<And>s x. f (s\<lparr>outer := x\<rparr>) = (f s)\<lparr>outer := x\<rparr>" "\<And>s c. f (s\<lparr>calls := c\<rparr>) = (f s)\<lparr>calls := c\<rparr>"
      "\<And>s b. f (s\<lparr>suspended := b\<rparr>) = (f s)\<lparr>suspended := b\<rparr>"
      "\<And>s b. f (s\<lparr>suspendedCh_closed := b\<rparr>) = (f s)\<lparr>suspendedCh_closed := b\<rparr>"
  shows "ignores f (SuspendAndMsync df)"
proof -
  have c: "ignores f (callClosure c m)" for c m
    by (auto simp: ignores_def callClosure_def rd wr split: prod.splits)
  have h: "ignores f (callHook c h)" for c h
    by (cases h) (simp_all add: callHook_def c, simp add: ignores_def go_defs)
  have z: "ignores f closeSuspendedCh"
    by (auto simp: ignores_def closeSuspendedCh_def rd wr)
  have u: "ignores f (update (\<lambda>s. s\<lparr>suspended := True\<rparr>))"
    by (simp add: ignores_def go_defs wr)
  have r: "ignores f (ret ())"
    by (simp add: ignores_def go_defs)
  have i: "ignores f (if b then ret () else m)" if "ignores f m" for b m
    using that r by simp
  show ?thesis
    unfolding SuspendAndMsync_def by (intro ignores_reading ignores_andThen ignores_wrapErr rd i c h z u)
qed

lemma SuspendAndMsync_goto:
  fixes s :: "('x, 'z) dm_sys_scheme"
  assumes "SuspendAndMsync df s = (r, s')"
  shows "SuspendAndMsync df (goto n p s) = (r, goto n p s')"
proof -
  have "ignores (goto n p :: ('x, 'z) dm_sys_scheme \<Rightarrow> _) (SuspendAndMsync df)"
    by (rule ignores_SuspendAndMsync) (simp_all add: goto_def)
  then show ?thesis using assms by (simp add: ignores_def)
qed

lemma SuspendAndMsync_lock:
  fixes s :: "('x, 'z) dm_sys_scheme"
  shows "SuspendAndMsync df s = (r, s') \<Longrightarrow>
    SuspendAndMsync df (s\<lparr>suspendLock := l\<rparr>) = (r, s'\<lparr>suspendLock := l\<rparr>)"
  using ignores_SuspendAndMsync[of "\<lambda>s :: ('x, 'z) dm_sys_scheme. s\<lparr>suspendLock := l\<rparr>" df]
  by (simp add: ignores_def)

text \<open>Marking a device ready is two steps, or one where it is ready already.\<close>

lemma markDeviceReady_steps:
  assumes "pcs s n = MarkTest k" and "gm_get (Devices s) n = Some di"
    and "markDeviceReady n s = (r, s')"
  shows "(dm_step df)\<^sup>*\<^sup>* s (goto n (afterMark k) s') \<and> r = Ok ()"
proof (cases "Ready di")
  case True
  then have "s' = s" "r = Ok ()"
    using assms(2,3) by (auto simp: markDeviceReady_def withDevice_def go_defs)
  then show ?thesis
    using dm_step.mark_known[OF assms(1,2) True, of df] by simp
next
  case False
  let ?s1 = "setDevice n (\<lambda>d. d\<lparr>Ready := True\<rparr>) s"
  have e: "s' = insertReady n ?s1" "r = Ok ()"
    using assms(2,3) False by (auto simp: markDeviceReady_def withDevice_def go_defs)
  have "dm_step df s (goto n (MarkInsert k) ?s1)"
    by (rule dm_step.mark_set[OF assms(1,2) False])
  moreover have "dm_step df (goto n (MarkInsert k) ?s1) (goto n (afterMark k) s')"
    using dm_step.mark_insert[of "goto n (MarkInsert k) ?s1" n k df] by (simp add: e)
  ultimately show ?thesis
    using e(2) by (simp add: converse_rtranclp_into_rtranclp)
qed

lemma PreGetDirty_steps:
  assumes "pcs s n = Idle" and "gm_get (Devices s) n = Some di"
    and "PreGetDirty df n s = (r, s')"
  shows "(dm_step df)\<^sup>*\<^sup>* s s'"
proof -
  let ?b = "CheckSuspendedVM s"
  let ?s1 = "setDevice n (\<lambda>d. d\<lparr>SuspendedAtPreGetDirty := ?b\<rparr>) s"
  let ?p = "if \<not> ?b \<and> n = DeviceMemoryName then (if MaxCycles di > 0 then PreMsync else MarkTest False)
            else Idle"
  have "dm_step df s (goto n (PreChecked ?b) s)" by (rule dm_step.pre_check[OF assms(1)])
  moreover have "dm_step df (goto n (PreChecked ?b) s) (goto n ?p ?s1)"
    using dm_step.pre_store[of "goto n (PreChecked ?b) s" n ?b di df] assms(2) by simp
  ultimately have to1: "(dm_step df)\<^sup>*\<^sup>* s (goto n ?p ?s1)" by simp
  have i: "goto n Idle ?s1 = ?s1" by (rule goto_here) (simp add: assms(1))
  have run: "PreGetDirty df n s = (if \<not> ?b \<and> n = DeviceMemoryName then
      (if MaxCycles di > 0 then
         attempt (Msync df) (\<lambda>r. case r of
            Inl e \<Rightarrow> ret (True, Some (Joined [VmStateErr ErrCouldNotMsyncRunner, e]))
          | Inr _ \<Rightarrow> ret (True, None)) ?s1
       else andThen (markDeviceReady n) (\<lambda>_. ret (False, None)) ?s1)
      else (Ok (True, None), ?s1))"
    using assms(2) by (simp add: PreGetDirty_def go_defs withDevice_def)
  consider "?p = Idle" | "?p = PreMsync" "\<not> ?b" "n = DeviceMemoryName" "MaxCycles di > 0"
    | "?p = MarkTest False" "\<not> ?b" "n = DeviceMemoryName" "\<not> MaxCycles di > 0"
    by force
  then show ?thesis
  proof cases
    case 1
    then have "s' = ?s1" using run assms(3) by (auto split: if_splits)
    then show ?thesis using to1 1 i by simp
  next
    case 2
    obtain q t where q: "Msync df ?s1 = (q, t)" by fastforce
    have "s' = t" using q run assms(3) 2 by (auto simp: go_defs split: res.splits)
    moreover have "pcs t n = Idle" using q assms(1) by (auto elim!: Msync_effect)
    moreover have "dm_step df (goto n PreMsync ?s1) (goto n Idle (goto n PreMsync t))"
      by (rule dm_step.pre_msync[where r = q]) (simp_all add: q)
    ultimately show ?thesis using to1 2 by (simp add: goto_here)
  next
    case 3
    obtain q t where q: "markDeviceReady n (goto n (MarkTest False) ?s1) = (q, t)" by fastforce
    obtain q' t' where q': "markDeviceReady n ?s1 = (q', t')" by fastforce
    have e: "t = goto n (MarkTest False) t'" "q' = Ok ()" "pcs t' n = Idle"
      using q q' assms(1,2) by (auto simp: markDeviceReady_def withDevice_def go_defs split: if_splits)
    have "s' = t'" using q' e run assms(3) 3 by (auto simp: go_defs)
    moreover have "(dm_step df)\<^sup>*\<^sup>* (goto n (MarkTest False) ?s1) (goto n Idle t)"
      using markDeviceReady_steps[OF _ _ q, where k = False and df = df] assms(2) by (simp add: afterMark_def)
    ultimately show ?thesis using to1 3 e by (simp add: goto_here)
  qed
qed

lemma PostGetDirty_steps:
  assumes "pcs s n = Idle" and "gm_get (Devices s) n = Some di" and "suspendLock s = None"
    and "PostGetDirty df n blocks s = (r, s')"
  shows "(dm_step df)\<^sup>*\<^sup>* s s'"
proof (cases "length blocks = 0 \<and> SuspendedAtPreGetDirty di")
  case True
  obtain q where "markReadyDeviceSentDirty df n s = (q, s')"
    using assms(2,4) True
    by (auto simp: PostGetDirty_def withDevice_def finishDirty_def go_defs split: prod.splits res.splits)
  then have "dm_step df s s'"
    using assms True by (intro dm_step.sent_dirty) auto
  then show ?thesis by simp
next
  case False
  then have "s' = s"
    using assms(2,4) by (auto simp: PostGetDirty_def withDevice_def go_defs split: if_splits)
  then show ?thesis by simp
qed

lemma goto_closeSuspendDoneCh [simp]:
  "closeSuspendDoneCh (goto n p s) = (case closeSuspendDoneCh s of (r, s') \<Rightarrow> (r, goto n p s'))"
  by (simp add: closeSuspendDoneCh_def goto_def)

lemma suspendOnce_steps:
  assumes idle: "pcs s n = Idle" and free: "suspendLock s = None" and run: "suspendOnce df s = (r, s')"
    and returns: "\<And>e. r \<noteq> Panic e"
  shows "(dm_step df)\<^sup>*\<^sup>* (goto n Suspending s) s'"
proof (cases "suspendCompleted s")
  case True
  then have "s' = s" using run by (simp add: suspendOnce_def go_defs)
  moreover have "dm_step df (goto n Suspending s) (goto n Idle s)"
    using dm_step.lock_again[of "goto n Suspending s" n df] free True by simp
  ultimately show ?thesis using idle by (simp add: goto_here)
next
  case False
  obtain q t where q: "SuspendAndMsync df s = (q, t)" by fastforce
  let ?done = "\<lambda>u. u\<lparr>suspendCompleted := True, suspendDoneCh_closed := True\<rparr>"
  have s': "s' = ?done t"
    using run q False returns
    by (auto simp: suspendOnce_def closeSuspendDoneCh_def go_defs split: res.splits sum.splits if_splits)
  have t: "pcs t n = Idle" "suspendLock t = None"
    using SuspendAndMsync_dm_sys[OF q] idle free by simp_all
  have "dm_step df (goto n Suspending s) (goto n Locked (s\<lparr>suspendLock := Some n\<rparr>))"
    using dm_step.lock_first[of "goto n Suspending s" n df] free False by (simp add: goto_def)
  moreover have "dm_step df (goto n Locked (s\<lparr>suspendLock := Some n\<rparr>))
      (goto n Completing (t\<lparr>suspendLock := Some n\<rparr>))"
    using dm_step.suspend[of "goto n Locked (s\<lparr>suspendLock := Some n\<rparr>)" n df q]
      SuspendAndMsync_goto[OF SuspendAndMsync_lock[OF q]] by simp
  moreover have "dm_step df (goto n Completing (t\<lparr>suspendLock := Some n\<rparr>)) (goto n Idle (?done t))"
  proof -
    let ?c = "goto n Completing (t\<lparr>suspendLock := Some n\<rparr>)"
    obtain r2 t2 where r2: "closeSuspendDoneCh (?c\<lparr>suspendCompleted := True\<rparr>) = (r2, t2)" by fastforce
    have "goto n Idle (t2\<lparr>suspendLock := None\<rparr>) = goto n Idle (?done t)"
      using closeSuspendDoneCh_effect[OF r2] t(2) by (simp add: goto_def)
    then show ?thesis using dm_step.complete[OF _ r2, of n] by simp
  qed
  ultimately have "(dm_step df)\<^sup>*\<^sup>* (goto n Suspending s) (goto n Idle (?done t))" by simp
  then show ?thesis using t(1) s' by (simp add: goto_here)
qed

lemma PostMigrateDirty_steps:
  assumes idle: "pcs s n = Idle" and dev: "gm_get (Devices s) n = Some di" and free: "suspendLock s = None"
    and run: "PostMigrateDirty df w n blocks s = (r, s')"
    and returns: "\<And>e. r \<noteq> Panic e"
  shows "(dm_step df)\<^sup>*\<^sup>* s s'"
proof (cases "SuspendedAtPreGetDirty di")
  case True
  obtain q where "markReadyDeviceSentDirty df n s = (q, s')"
    using dev run True
    by (auto simp: PostMigrateDirty_def withDevice_def finishDirty_def go_defs split: prod.splits res.splits)
  then have "dm_step df s s'"
    using assms True by (intro dm_step.sent_dirty) auto
  then show ?thesis by simp
next
  case False
  let ?k = "length blocks"
  let ?s1 = "s\<lparr>waited := waited s + throttleWait w di\<rparr>"
  obtain di' mark where c: "countCycle ?k di = (di', mark)" by fastforce
  let ?s2 = "setDevice n (\<lambda>_. di') ?s1"
  obtain s3 where s3: "whenM mark (markDeviceReady n) ?s2 = (Ok (), s3)"
    using dev by (cases mark; cases "Ready di'") (simp_all add: markDeviceReady_def withDevice_def go_defs)
  have s3f: "pcs s3 n = Idle" "suspendLock s3 = None"
    using s3 idle free dev
    by (auto simp: whenM_def markDeviceReady_def withDevice_def go_defs split: if_splits)
  have "dm_step df s (goto n (Throttling ?k) ?s1)"
    by (rule dm_step.throttle[OF idle dev False])
  moreover have "dm_step df (goto n (Throttling ?k) ?s1) (goto n (if mark then MarkTest True else Checking) ?s2)"
    using dm_step.count_cycle[of "goto n (Throttling ?k) ?s1" n ?k di di' mark df] dev c by simp
  ultimately have to2: "(dm_step df)\<^sup>*\<^sup>* s (goto n (if mark then MarkTest True else Checking) ?s2)"
    by simp
  have to3: "(dm_step df)\<^sup>*\<^sup>* s (goto n Checking s3)"
  proof (cases mark)
    case True
    obtain q t where q: "markDeviceReady n (goto n (MarkTest True) ?s2) = (q, t)" by fastforce
    have "goto n Checking t = goto n Checking s3"
      using q s3 True dev by (auto simp: whenM_def markDeviceReady_def withDevice_def go_defs split: if_splits)
    then have "(dm_step df)\<^sup>*\<^sup>* (goto n (MarkTest True) ?s2) (goto n Checking s3)"
      using markDeviceReady_steps[OF _ _ q, where k = True and df = df] dev by (simp add: afterMark_def)
    then show ?thesis using to2 True by simp
  next
    case False
    then show ?thesis using to2 s3 by (simp add: go_defs)
  qed
  have rest: "(r, s') = (if allReady s3 then suspendOnce df s3 else (Ok (True, None), s3))"
    using run dev False c s3 by (cases "allReady s3") (simp_all add: PostMigrateDirty_def withDevice_def go_defs)
  show ?thesis
  proof (cases "allReady s3")
    case False
    then have "dm_step df (goto n Checking s3) (goto n Idle s3)"
      using dm_step.check_ready[of "goto n Checking s3" n df] by (simp add: allReady_def)
    then show ?thesis using to3 rest False s3f by (simp add: goto_here)
  next
    case True
    then have to4: "(dm_step df)\<^sup>*\<^sup>* s (goto n Suspending s3)"
      using dm_step.check_ready[of "goto n Checking s3" n df] to3 by (simp add: allReady_def)
    have "(dm_step df)\<^sup>*\<^sup>* (goto n Suspending s3) s'"
      by (rule suspendOnce_steps[where r = r]) (use rest True s3f returns in simp_all)
    with to4 show ?thesis by simp
  qed
qed
end
