(* ===== verification/DirtySafety.thy ===== *)
theory DirtySafety
  imports DirtySteps
begin

text \<open>
  What the dirty phase guarantees, in every interleaving of the hooks that the steps of
  \<open>DirtySteps\<close> allow: authority moves once and only from a suspended machine whose changes have
  all been sent, the machine is suspended once and only when every device is ready, and the
  phase makes progress. The last section holds a small migration that the witnesses run.
\<close>

section \<open>A small migration\<close>

definition demo_status :: device_status where
  "demo_status = \<lparr>TotalCycles = 0, CycleThrottle = 5, MaxDirtyBlocks = 10,
     CyclesBelowDirtyBlockTreshold = 0, MinCycles = 0, MaxCycles = 1, Ready = False,
     ReadyAndSentDirty = False, SuspendedAtPreGetDirty = False\<rparr>"

definition demo_funcs :: "unit dm_funcs" where
  "demo_funcs = \<lparr>suspendFunc = ret (), msyncFunc = ret (), onBeforeSuspend = Some id,
     onAfterSuspend = None, authorityTransfer = ret ()\<rparr>"

definition demo_start :: "unit dm_sys" where
  "demo_start = \<lparr>suspended = False, suspendedCh_closed = False, calls = [], outer = (),
     Devices = [(''disk'', demo_status)], ReadyDevices = [], authorityTransferCompleted = False,
     suspendCompleted = False, suspendDoneCh_closed = False, waited = 0, pcs = (\<lambda>_. Idle),
     suspendLock = None\<rparr>"

text \<open>The migration after its last cycle, after the next look for dirty blocks, and at the end.\<close>

definition demo_suspended :: "unit dm_sys" where
  "demo_suspended = snd (PostMigrateDirty demo_funcs None ''disk'' [1, 2, 3] demo_start)"

definition demo_looked :: "unit dm_sys" where
  "demo_looked = snd (PreGetDirty demo_funcs ''disk'' demo_suspended)"

definition demo_end :: "unit dm_sys" where
  "demo_end = snd (PostGetDirty demo_funcs ''disk'' [] demo_looked)"

lemmas demo_eval = demo_status_def demo_funcs_def demo_start_def demo_suspended_def demo_looked_def
  demo_end_def PostMigrateDirty_def PreGetDirty_def PostGetDirty_def withDevice_def throttleWait_def
  countCycle_def markDeviceReady_def allReady_def suspendOnce_def SuspendAndMsync_def callHook_def
  callClosure_def closeSuspendedCh_def closeSuspendDoneCh_def setDevice_def insertReady_def
  CheckSuspendedVM_def DeviceMemoryName_def finishDirty_def markReadyDeviceSentDirty_def
  allReadyAndSent_def Let_def go_defs

lemma demo_suspended_eval:
  "PostMigrateDirty demo_funcs None ''disk'' [1, 2, 3] demo_start =
    (Ok (True, None), demo_start\<lparr>
      suspended := True, suspendedCh_closed := True,
      calls := [(OnBeforeSuspend, True), (SuspendFunc, True), (MsyncFunc, True)],
      Devices := [(''disk'', demo_status\<lparr>TotalCycles := 1, CyclesBelowDirtyBlockTreshold := 1,
        Ready := True\<rparr>)],
      ReadyDevices := [''disk''], suspendCompleted := True, suspendDoneCh_closed := True,
      waited := 5\<rparr>)"
  by (simp add: demo_eval)


lemma demo_suspended_simp: "demo_suspended = snd (Ok (True, None :: goerr option), demo_start\<lparr>
      suspended := True, suspendedCh_closed := True,
      calls := [(OnBeforeSuspend, True), (SuspendFunc, True), (MsyncFunc, True)],
      Devices := [(''disk'', demo_status\<lparr>TotalCycles := 1, CyclesBelowDirtyBlockTreshold := 1,
        Ready := True\<rparr>)],
      ReadyDevices := [''disk''], suspendCompleted := True, suspendDoneCh_closed := True,
      waited := 5\<rparr>)"
  unfolding demo_suspended_def demo_suspended_eval by simp

lemma demo_suspended_run:
  "PostMigrateDirty demo_funcs None ''disk'' [1, 2, 3] demo_start = (Ok (True, None), demo_suspended)"
  by (simp only: demo_suspended_eval demo_suspended_simp snd_conv)

lemma demo_looked_eval:
  "PreGetDirty demo_funcs ''disk'' demo_suspended = (Ok (True, None), demo_looked)"
  "PostGetDirty demo_funcs ''disk'' [] demo_looked = (Ok (False, None), demo_end)"
  by (simp_all add: demo_eval)

lemma demo_end_eval:
  "calls demo_end = [(OnBeforeSuspend, True), (SuspendFunc, True), (MsyncFunc, True),
     (AuthorityTransfer, True)]"
  "suspended demo_end" "suspendCompleted demo_end" "authorityTransferCompleted demo_end"
  "Devices demo_end = [(''disk'', demo_status\<lparr>TotalCycles := 1, CyclesBelowDirtyBlockTreshold := 1,
     Ready := True, ReadyAndSentDirty := True, SuspendedAtPreGetDirty := True\<rparr>)]"
  "ReadyDevices demo_end = [''disk'']"
  by (simp_all add: demo_eval)

lemma demo_init: "dm_init demo_start"
proof -
  have "dm_state.truncate demo_start =
      NewDirtyManager (snd (NewVMStateMgr (ret ()) (ret ()) None None ())) [(''disk'', demo_status)]"
    by (simp add: NewDirtyManager_def NewVMStateMgr_def dm_state.defs vm_state.defs demo_start_def)
  moreover have "freshStatus demo_status" by (simp add: freshStatus_def demo_status_def)
  ultimately show ?thesis
    unfolding dm_init_def
    by (intro conjI exI[of _ "[(''disk'', demo_status)]"] exI[of _ "ret ()"] exI[of _ None] exI[of _ "()"])
      (auto simp: demo_start_def)
qed

lemma demo_reaches:
  "reaches dm_init (dm_step demo_funcs) demo_start"
  "reaches dm_init (dm_step demo_funcs) demo_suspended"
  "reaches dm_init (dm_step demo_funcs) demo_end"
proof -
  have 1: "(dm_step demo_funcs)\<^sup>*\<^sup>* demo_start demo_suspended"
    by (rule PostMigrateDirty_steps[OF _ _ _ demo_suspended_run]) (simp_all add: demo_start_def)
  have 2: "(dm_step demo_funcs)\<^sup>*\<^sup>* demo_suspended demo_looked"
    by (rule PreGetDirty_steps[OF _ _ demo_looked_eval(1)])
      (simp_all add: demo_suspended_simp, simp add: demo_start_def)
  have 3: "(dm_step demo_funcs)\<^sup>*\<^sup>* demo_looked demo_end"
    by (rule PostGetDirty_steps[OF _ _ _ demo_looked_eval(2)]) (simp_all add: demo_eval)
  show 0: "reaches dm_init (dm_step demo_funcs) demo_start"
    by (rule reaches_init) (rule demo_init)
  show "reaches dm_init (dm_step demo_funcs) demo_suspended"
    "reaches dm_init (dm_step demo_funcs) demo_end"
    using 0 1 2 3 by (meson reaches_rtranclp)+
qed

section \<open>Properties\<close>

text \<open>
  C2. Transfer of authority. In every interleaving, the authority-transfer function is called at
  most once, and only after the machine has been suspended and its memory synced successfully, at a
  time when every device is ready and has sent the changes made before the suspend.
\<close>

theorem authority_transferred_safely:
  assumes "reaches dm_init (dm_step df) s"
  shows "times AuthorityTransfer s \<le> 1 \<and>
    (times AuthorityTransfer s = 1 \<longrightarrow>
       suspended s \<and> allReadyAndSent s \<and>
       (\<exists>b. subseq [(SuspendFunc, True), (MsyncFunc, True), (AuthorityTransfer, b)] (calls s)))"
proof -
  have "inv_authority s" using dm.reachable_inv[OF assms] by (simp add: dm_inv_def)
  then show ?thesis by (auto simp: inv_authority_def split: if_splits)
qed

theorem authority_transferred_safely_witness:
  "times AuthorityTransfer demo_end = 1 \<and> suspended demo_end \<and> allReadyAndSent demo_end"
proof -
  have "times AuthorityTransfer demo_end = 1" by (simp add: times_def demo_end_eval)
  then show ?thesis using authority_transferred_safely[OF demo_reaches(3)] by simp
qed

text \<open>
  C14. One suspend. In every interleaving the machine's suspend function is called at most once, and
  a device's goroutine only gets there when every device of the migration is in the ready map.
\<close>

theorem suspended_once_when_ready:
  assumes "reaches dm_init (dm_step df) s"
  shows "times SuspendFunc s \<le> 1 \<and>
    (times SuspendFunc s = 1 \<longrightarrow> set (ReadyDevices s) = fst ` set (Devices s))"
proof -
  have "inv_suspend s" using dm.reachable_inv[OF assms] by (simp add: dm_inv_def)
  then show ?thesis
    by (cases "suspendLock s")
      (auto simp: inv_suspend_def everyoneReady_def)
qed

theorem suspended_once_when_ready_witness:
  "times SuspendFunc demo_end = 1 \<and> set (ReadyDevices demo_end) = fst ` set (Devices demo_end)"
proof -
  have "times SuspendFunc demo_end = 1" by (simp add: times_def demo_end_eval)
  then show ?thesis using suspended_once_when_ready[OF demo_reaches(3)] by simp
qed

text \<open>
  C26. No double close. Whatever the goroutines do, neither of the two channels that are closed to
  wake waiting goroutines is closed twice, so that no step panics on a closed channel: a goroutine
  that reaches the close of \<open>suspendDoneCh\<close> finds it open, and the suspend under the lock does not
  panic as long as the functions it calls do not.
\<close>

theorem channels_closed_once:
  assumes "reaches dm_init (dm_step df) s"
  shows "(\<forall>n. pcs s n = Completing \<longrightarrow>
      fst (closeSuspendDoneCh (s\<lparr>suspendCompleted := True\<rparr>)) = Ok ()) \<and>
    (\<not> suspended s \<longrightarrow> fst (closeSuspendedCh s) = Ok ())"
proof -
  have "inv_suspend s" "vm_inv s" using dm.reachable_inv[OF assms] by (simp_all add: dm_inv_def)
  then show ?thesis
    by (auto simp: inv_suspend_def vm_inv_def closeSuspendDoneCh_def closeSuspendedCh_def)
qed

theorem channels_closed_once_witness: "fst (closeSuspendedCh demo_start) = Ok ()"
  using channels_closed_once[OF demo_reaches(1)] by (simp add: demo_start_def)

text \<open>
  C27. The cycles end. A device that starts fresh is marked ready after at most
  \<open>max 1 MaxCycles + max 0 MinCycles\<close> cycles, whatever numbers of dirty blocks the cycles find, so
  that a guest that keeps writing cannot keep the migration in its dirty phase.
\<close>

theorem cycles_bounded:
  assumes "freshStatus di"
    and "int (length blockCounts) \<ge> max 1 (MaxCycles di) + max 0 (MinCycles di)"
  shows "snd (countCycles blockCounts di)"
  by (rule countCycles_marks) (use assms in \<open>auto simp: freshStatus_def cyclesLeft_def\<close>)

theorem cycles_bounded_witness: "snd (countCycles [500] demo_status)"
  by (rule cycles_bounded) (simp_all add: demo_status_def freshStatus_def)

text \<open>
  C28. The last device hands over. When the suspend is complete and every other device is ready
  and has sent its changes, an empty look for dirty blocks on the last device, begun after the
  suspend, calls the authority-transfer function, ends the dirty phase of that device and returns
  exactly the error of that function.
\<close>

theorem last_device_transfers:
  assumes dat: "inv_data s" and dev: "gm_get (Devices s) n = Some di"
    and own: "n \<in> set (ReadyDevices s)" "SuspendedAtPreGetDirty di"
    and others: "\<And>m dm. m \<noteq> n \<Longrightarrow> gm_get (Devices s) m = Some dm \<Longrightarrow> Ready dm \<and> ReadyAndSentDirty dm"
    and sus: "suspendCompleted s" and pending: "\<not> authorityTransferCompleted s"
    and auth: "authorityTransfer df (outer s) = (r, x)" "\<And>e. r \<noteq> Panic e"
  shows "\<exists>s'. PostGetDirty df n [] s = (Ok (False, case r of Err e \<Rightarrow> Some e | _ \<Rightarrow> None), s') \<and>
    times AuthorityTransfer s' = Suc (times AuthorityTransfer s) \<and> authorityTransferCompleted s' \<and>
    outer s' = x"
proof -
  have "Ready di" using dat own(1) dev by (auto simp: inv_data_def)
  then have all: "allReadyAndSent (setDevice n (\<lambda>d. d\<lparr>ReadyAndSentDirty := True\<rparr>) s)"
    using dat dev others by (subst allReadyAndSent_iff) (auto simp: inv_data_def split: if_splits)
  show ?thesis
    using all dev own sus pending auth
    by (cases r) (auto simp: PostGetDirty_def withDevice_def finishDirty_def
        markReadyDeviceSentDirty_def callClosure_def go_defs times_def)
qed

theorem last_device_transfers_witness:
  "\<exists>s'. PostGetDirty demo_funcs ''disk'' [] demo_looked = (Ok (False, None), s') \<and>
     times AuthorityTransfer s' = 1"
proof -
  have "inv_data demo_looked" by (simp add: inv_data_def demo_eval)
  moreover obtain di where "gm_get (Devices demo_looked) ''disk'' = Some di" "SuspendedAtPreGetDirty di"
    by (simp add: demo_eval)
  moreover have "\<And>m d. m \<noteq> ''disk'' \<Longrightarrow> gm_get (Devices demo_looked) m = Some d \<Longrightarrow> Ready d \<and> ReadyAndSentDirty d"
    "''disk'' \<in> set (ReadyDevices demo_looked)" "suspendCompleted demo_looked"
    "\<not> authorityTransferCompleted demo_looked" "times AuthorityTransfer demo_looked = 0"
    "authorityTransfer demo_funcs (outer demo_looked) = (Ok (), ())"
    by (auto simp: demo_eval times_def split: if_splits)
  ultimately show ?thesis
    using last_device_transfers[of demo_looked "''disk''" di demo_funcs "Ok ()" "()"] by auto
qed





end
