(* ===== verification/Migrations.thy ===== *)
theory Migrations
  imports Schemas DirtySafety
begin

text \<open>
  The three migrations (\<^verbatim>\<open>pkg/common/migrations.go\<close>): from the local file system, from a pair of
  streams, and to a pair of streams. A device group and the migration protocol are Silo's: what the
  program asks of them is a parameter. Logging and metrics that only read are left out.
\<close>

section \<open>From the file system\<close>

text \<open>What the device group answers: the device node of a name, nil for a name it does not have.\<close>

record dg_env = mig_env +
  exposedDevice :: "mig_trace \<Rightarrow> string \<Rightarrow> string option"
  infoDevice :: "mig_trace \<Rightarrow> string \<Rightarrow> string option"
  groupNames :: "mig_trace \<Rightarrow> string list"

definition devNode :: "string \<Rightarrow> string" where
  "devNode d = filepath_Join [''/dev'', d]"

text \<open>\<open>skipSilos\<close> has the value of the last device with a name.\<close>

definition skipSilos :: "migrate_from_device list \<Rightarrow> (string, bool) gomap" where
  "skipSilos devices = fold (\<lambda>d m. gm_put (mf_Name d) (mf_SkipSilo d) m) devices []"

fun collectSchemas ::
    "('y) mig_env_scheme \<Rightarrow> string \<Rightarrow> (nat \<Rightarrow> string \<Rightarrow> device_schema \<Rightarrow> device_schema) option \<Rightarrow> nat \<Rightarrow>
     migrate_from_device list \<Rightarrow> device_schema list \<Rightarrow> ((mig_call, 'z) world_scheme, device_schema list) go" where
  "collectSchemas e vmpath tweak i [] acc = ret acc"
| "collectSchemas e vmpath tweak i (input # devices) acc =
     (if mf_Shared input then
        andThen (ExposeSiloDeviceAsFile e vmpath (mf_Name input) (mf_Base input)) (\<lambda>_.
        collectSchemas e vmpath tweak (Suc i) devices acc)
      else
        andThen (CreateSiloDevSchema e input) (\<lambda>ds.
        collectSchemas e vmpath tweak (Suc i) devices
          (acc @ [case tweak of None \<Rightarrow> ds | Some f \<Rightarrow> f i (mf_Name input) ds])))"

definition copyOver ::
    "('y) dg_env_scheme \<Rightarrow> string \<Rightarrow> string \<Rightarrow> ((mig_call, 'z) world_scheme, unit) go" where
  "copyOver e vmpath name =
     reading (\<lambda>s. infoDevice e (trace s) name) (\<lambda>di. case di of
       None \<Rightarrow> panic NilDeref
     | Some d \<Rightarrow>
        andThen (act e (OpenSource (devNode d))) (\<lambda>_.
        andThen (act e (CreateCopy (filepath_Join [vmpath, name]))) (\<lambda>_.
        andThen (act e (CopyContents (devNode d) (filepath_Join [vmpath, name]))) (\<lambda>_.
        andThen (act e (CloseSource (devNode d))) (\<lambda>_.
        act e (CloseCopy (filepath_Join [vmpath, name])))))))"

definition exposeDevice ::
    "('y) dg_env_scheme \<Rightarrow> string \<Rightarrow> string \<Rightarrow> ((mig_call, 'z) world_scheme, unit) go" where
  "exposeDevice e vmpath name =
     reading (\<lambda>s. exposedDevice e (trace s) name) (\<lambda>dev. case dev of
       None \<Rightarrow> panic NilDeref
     | Some d \<Rightarrow> ExposeSiloDeviceAsFile e vmpath name (devNode d))"

definition placeDevice ::
    "('y) dg_env_scheme \<Rightarrow> string \<Rightarrow> (string, bool) gomap \<Rightarrow> string \<Rightarrow> ((mig_call, 'z) world_scheme, unit) go" where
  "placeDevice e vmpath skips name =
     (if gm_get skips name = Some True then copyOver e vmpath name else exposeDevice e vmpath name)"

definition MigrateFromFS ::
    "('y) dg_env_scheme \<Rightarrow> string \<Rightarrow> string \<Rightarrow> migrate_from_device list \<Rightarrow>
     (nat \<Rightarrow> string \<Rightarrow> device_schema \<Rightarrow> device_schema) option \<Rightarrow> ((mig_call, 'z) world_scheme, unit) go" where
  "MigrateFromFS e instanceID vmpath devices tweak =
     andThen (collectSchemas e vmpath tweak 0 devices []) (\<lambda>schemas.
     andThen (act e (NewFromSchema instanceID schemas)) (\<lambda>_.
     forEach schemas (\<lambda>input. placeDevice e vmpath (skipSilos devices) (ds_Name input))))"

section \<open>From a pair of streams\<close>

text \<open>
  The handler of the protocol runs in a goroutine of its own. An error of it other than the end of
  the stream cancels the context of the protocol; the first custom data it gets closes \<open>ready\<close>,
  which is what the caller waits for.
\<close>

record from_sys = "mig_call world" +
  protocolCancelled :: bool
  ready_closed :: bool
  customData :: "string list"          \<comment> \<open>what \<open>cdh\<close> was called with\<close>

definition handlerReturns :: "goerr option \<Rightarrow> (('z) from_sys_scheme, unit) go" where
  "handlerReturns r = (case r of
      None \<Rightarrow> ret ()
    | Some x \<Rightarrow> whenM (x \<noteq> IoEOF) (update (\<lambda>s. s\<lparr>protocolCancelled := True\<rparr>)))"

definition icdh :: "bool \<Rightarrow> string \<Rightarrow> (('z) from_sys_scheme, unit) go" where
  "icdh has_cdh data =
     andThen (whenM has_cdh (update (\<lambda>s. s\<lparr>customData := customData s @ [data]\<rparr>))) (\<lambda>_.
     (\<lambda>s. if ready_closed s then (Panic CloseOfClosedChannel, s) else (Ok (), s\<lparr>ready_closed := True\<rparr>)))"

definition exposeAll ::
    "('y) dg_env_scheme \<Rightarrow> string \<Rightarrow> string list \<Rightarrow> ((mig_call, 'z) world_scheme, unit) go" where
  "exposeAll e vmpath names = forEach names (\<lambda>n.
     reading (\<lambda>s. exposedDevice e (trace s) n) (\<lambda>dev. case dev of
       None \<Rightarrow> ret ()
     | Some d \<Rightarrow> ExposeSiloDeviceAsFile e vmpath n (devNode d)))"

text \<open>
  What comes first, the context being cancelled (with its error) or the custom data, is left to the
  goroutines: \<open>arrival\<close> is the error of the context, or the bytes of the custom data.
\<close>

definition MigrateFromPipe ::
    "('y) dg_env_scheme \<Rightarrow> bool \<Rightarrow> string \<Rightarrow> string \<Rightarrow> bool \<Rightarrow> goerr + string \<Rightarrow> (('z) from_sys_scheme, unit) go" where
  "MigrateFromPipe e has_met instanceID vmpath has_cdh arrival =
     andThen (whenM has_met (actIgnore e (AddProtocol instanceID ''migrateFromPipe''))) (\<lambda>_.
     andThen (act e (NewFromProtocol instanceID)) (\<lambda>_.
     reading (\<lambda>s. groupNames e (trace s)) (\<lambda>names.
     andThen (exposeAll e vmpath names) (\<lambda>_. case arrival of
       Inl x \<Rightarrow> throw x
     | Inr data \<Rightarrow> icdh has_cdh data))))"

section \<open>To a pair of streams\<close>

record migrate_to_options =
  opt_Concurrency :: int
  opt_Compression :: bool
  opt_CompressionType :: nat

text \<open>The calls to Silo act on the state behind the closures of the suspend manager.\<close>

definition onOuter :: "('x, 'a) go \<Rightarrow> (('x, 'z) vm_state_scheme, 'a) go" where
  "onOuter m = (\<lambda>s. case m (outer s) of (r, x) \<Rightarrow> (r, s\<lparr>outer := x\<rparr>))"

definition statusOf :: "migrate_to_device \<Rightarrow> device_status" where
  "statusOf d = \<lparr>TotalCycles = 0, CycleThrottle = mt_CycleThrottle d, MaxDirtyBlocks = mt_MaxDirtyBlocks d,
     CyclesBelowDirtyBlockTreshold = 0, MinCycles = mt_MinCycles d, MaxCycles = mt_MaxCycles d,
     Ready = False, ReadyAndSentDirty = False, SuspendedAtPreGetDirty = False\<rparr>"

definition dirtyDevices :: "migrate_to_device list \<Rightarrow> (string, device_status) gomap" where
  "dirtyDevices devices = fold (\<lambda>d m. gm_put (mt_Name d) (statusOf d) m) devices []"

definition authTransfer ::
    "('y) mig_env_scheme \<Rightarrow> string option option \<Rightarrow> ((mig_call, 'w) world_scheme, unit) go" where
  "authTransfer e getCustomPayload = (case getCustomPayload of
      Some (Some cdata) \<Rightarrow> act e (SendCustomData cdata)
    | _ \<Rightarrow> act e (SendCustomData []))"

text \<open>The goroutines of the dirty phase start at rest, without the lock.\<close>

definition startDirty :: "'x vm_state \<Rightarrow> (string, device_status) gomap \<Rightarrow> 'x dm_sys" where
  "startDirty vm devs = dm_state.extend (NewDirtyManager vm devs)
     (dm_sys.fields (\<lambda>_. Idle) None)"

definition dmFuncs :: "'x vm_funcs \<Rightarrow> ('x, unit) go \<Rightarrow> 'x dm_funcs" where
  "dmFuncs vf transfer = vm_funcs.extend vf (dm_funcs.fields transfer)"

text \<open>
  \<open>silo\<close> is what Silo's \<open>MigrateDirty\<close> does with the hooks: it turns the state at the start into one
  at the end and returns an error or not. That it does nothing to the state but call the hooks is a
  hypothesis where it is needed.
\<close>

type_synonym 'x silo_dirty = "'x dm_funcs \<Rightarrow> 'x dm_sys \<Rightarrow> goerr option \<times> 'x dm_sys"

definition dirtyPhase ::
    "'x silo_dirty \<Rightarrow> 'x dm_funcs \<Rightarrow> (string, device_status) gomap \<Rightarrow> ('x vm_state, unit) go" where
  "dirtyPhase silo df devs = (\<lambda>s. case silo df (startDirty s devs) of (r, t) \<Rightarrow>
     (case r of None \<Rightarrow> Ok () | Some x \<Rightarrow> Err x, vm_state.truncate t))"

definition MigrateToPipe ::
    "('y) mig_env_scheme \<Rightarrow> (mig_call, 'w) world_scheme silo_dirty \<Rightarrow> (mig_call, 'w) world_scheme vm_funcs \<Rightarrow>
     bool \<Rightarrow> string \<Rightarrow> migrate_to_options \<Rightarrow> migrate_to_device list \<Rightarrow> string option option \<Rightarrow>
     ((mig_call, 'w) world_scheme vm_state, unit) go" where
  "MigrateToPipe e silo vf has_met instanceID options devices getCustomPayload =
     andThen (whenM has_met (onOuter (actIgnore e (AddProtocol instanceID ''migrateToPipe'')))) (\<lambda>_.
     andThen (onOuter (act e (StartMigrationTo (opt_Compression options) (opt_CompressionType options)))) (\<lambda>_.
     andThen (onOuter (act e (MigrateAll (opt_Concurrency options)))) (\<lambda>_.
     andThen (dirtyPhase silo (dmFuncs vf (authTransfer e getCustomPayload)) (dirtyDevices devices)) (\<lambda>_.
     onOuter (act e DevicesCompleted)))))"

section \<open>The device files of a machine\<close>

lemma placeDevice_ok:
  fixes s :: "(mig_call, 'z) world_scheme"
  assumes "vmpath \<noteq> []"
  shows "wp (placeDevice e vmpath skips n)
    (if_ok (\<lambda>_ s'. made (trace s') = made (trace s) @ [filepath_Join [vmpath, n]])) s"
proof (cases "gm_get skips n = Some True")
  case True
  then show ?thesis
    by (simp add: placeDevice_def copyOver_def go_wp split: option.splits)
next
  case False
  then show ?thesis
    by (auto simp: placeDevice_def exposeDevice_def go_wp ExposeSiloDeviceAsFile_ok[OF assms] split: option.splits)
qed

lemma placeDevices_ok:
  fixes s :: "(mig_call, 'z) world_scheme"
  assumes "vmpath \<noteq> []"
  shows "wp (forEach schemas (\<lambda>d. placeDevice e vmpath skips (ds_Name d)))
    (if_ok (\<lambda>_ s'. made (trace s') = made (trace s) @ map (\<lambda>d. filepath_Join [vmpath, ds_Name d]) schemas)) s"
proof (induction schemas arbitrary: s)
  case Nil
  show ?case by (simp add: go_wp)
next
  case (Cons d schemas)
  show ?case
    unfolding forEach.simps
    by (intro ok_andThen if_ok_weaken[OF placeDevice_ok[OF assms]] if_ok_weaken[OF Cons]) simp
qed

lemma collectSchemas_ok:
  fixes s :: "(mig_call, 'z) world_scheme"
  assumes "vmpath \<noteq> []" and ov: "\<And>c ds. ds_Name (AddOverlay e c ds) = ds_Name ds"
    and tw: "\<And>f i n ds. tweak = Some f \<Longrightarrow> ds_Name (f i n ds) = ds_Name ds"
  shows "wp (collectSchemas e vmpath tweak i devices acc) (if_ok (\<lambda>schemas s'.
     made (trace s') = made (trace s) @ [filepath_Join [vmpath, mf_Name d]. d \<leftarrow> devices, mf_Shared d] \<and>
     map ds_Name schemas = map ds_Name acc @ [mf_Name d. d \<leftarrow> devices, \<not> mf_Shared d])) s"
proof (induction devices arbitrary: i acc s)
  case Nil
  show ?case by (simp add: go_wp)
next
  case (Cons d devices)
  show ?case
  proof (cases "mf_Shared d")
    case True
    show ?thesis
      unfolding collectSchemas.simps
      using True by simp (intro ok_andThen if_ok_weaken[OF ExposeSiloDeviceAsFile_ok[OF assms(1)]]
          if_ok_weaken[OF Cons]; simp)
  next
    case False
    have schema: "wp (CreateSiloDevSchema e d) (if_ok (\<lambda>ds s'. made (trace s') = made (trace s) \<and>
        ds_Name ds = mf_Name d)) s"
      by (rule if_okI) (use wpD[OF CreateSiloDevSchema_wp] schemaOf_name[OF ov] in blast)
    show ?thesis
      unfolding collectSchemas.simps
      using False by simp (intro ok_andThen if_ok_weaken[OF schema] if_ok_weaken[OF Cons];
          auto simp: tw split: option.splits)
  qed
qed

text \<open>
  C20. When \<open>MigrateFromFS\<close> succeeds every device has its file in the directory of the machine, made
  once: first the shared ones, which do not go through Silo, then the others, in their order. Silo's
  overlays and the caller's tweak must keep the names.
\<close>

theorem MigrateFromFS_places_devices:
  fixes s :: "(mig_call, 'z) world_scheme"
  assumes "vmpath \<noteq> []" and "\<And>c ds. ds_Name (AddOverlay e c ds) = ds_Name ds"
    and "\<And>f i n ds. tweak = Some f \<Longrightarrow> ds_Name (f i n ds) = ds_Name ds"
  shows "wp (MigrateFromFS e inst vmpath devices tweak) (if_ok (\<lambda>_ s'.
     made (trace s') = made (trace s) @
       [filepath_Join [vmpath, mf_Name d]. d \<leftarrow> devices, mf_Shared d] @
       [filepath_Join [vmpath, mf_Name d]. d \<leftarrow> devices, \<not> mf_Shared d])) s"
proof -
  have names: "map (\<lambda>d. filepath_Join [vmpath, ds_Name d]) schemas =
      [filepath_Join [vmpath, mf_Name d]. d \<leftarrow> devices, \<not> mf_Shared d]"
    if "map ds_Name schemas = [mf_Name d. d \<leftarrow> devices, \<not> mf_Shared d]" for schemas :: "device_schema list"
  proof -
    have "map (\<lambda>d. filepath_Join [vmpath, ds_Name d]) schemas = map (\<lambda>n. filepath_Join [vmpath, n]) (map ds_Name schemas)"
      by (simp add: comp_def)
    also have "\<dots> = [filepath_Join [vmpath, mf_Name d]. d \<leftarrow> devices, \<not> mf_Shared d]"
      unfolding that by (induction devices) auto
    finally show ?thesis .
  qed
  have coll: "wp (collectSchemas e vmpath tweak 0 devices []) (if_ok (\<lambda>schemas s'.
     made (trace s') = made (trace s) @ [filepath_Join [vmpath, mf_Name d]. d \<leftarrow> devices, mf_Shared d] \<and>
     map ds_Name schemas = map ds_Name ([] :: device_schema list) @ [mf_Name d. d \<leftarrow> devices, \<not> mf_Shared d])) s"
    by (rule collectSchemas_ok) (use assms in auto)
  show ?thesis
    unfolding MigrateFromFS_def
    by (intro ok_andThen if_ok_weaken[OF coll] ok_act if_ok_weaken[OF placeDevices_ok[OF assms(1)]])
      (simp add: names)
qed

lemma ExposeSiloDeviceAsFile_more:
  fixes s :: "(mig_call, 'z) world_scheme"
  shows "wp (ExposeSiloDeviceAsFile e vmpath n d) (if_ok (\<lambda>_ s'. world.more s' = world.more s)) s"
  by (simp add: ExposeSiloDeviceAsFile_def go_wp split: option.splits)

lemma exposeAll_ok:
  fixes s :: "(mig_call, 'z) world_scheme"
  assumes "vmpath \<noteq> []" and dev: "\<And>tr. exposedDevice e tr = dev"
  shows "wp (exposeAll e vmpath names) (if_ok (\<lambda>_ s'. world.more s' = world.more s \<and>
     made (trace s') = made (trace s) @ [filepath_Join [vmpath, n]. n \<leftarrow> names, dev n \<noteq> None])) s"
proof (induction names arbitrary: s)
  case Nil
  show ?case by (simp add: exposeAll_def go_wp)
next
  case (Cons n names)
  have both: "wp (ExposeSiloDeviceAsFile e vmpath n d) (if_ok (\<lambda>_ s'. world.more s' = world.more s \<and>
     made (trace s') = made (trace s) @ [filepath_Join [vmpath, n]])) s" for d and s :: "(mig_call, 'z) world_scheme"
    by (rule if_okI) (use if_okD[OF ExposeSiloDeviceAsFile_more] if_okD[OF ExposeSiloDeviceAsFile_ok[OF assms(1)]] in blast)
  show ?case
    unfolding exposeAll_def forEach.simps dev
    by (intro ok_andThen ok_reading ok_option ok_ret if_ok_weaken[OF both]
        if_ok_weaken[OF Cons[unfolded exposeAll_def dev]]) auto
qed

text \<open>
  C36. When \<open>MigrateFromPipe\<close> succeeds, every device of the group that Silo exposes has its file, the
  custom data arrived and was handed on, and \<open>ready\<close> was closed; a second custom data message of the
  other side would then crash the program, by closing a closed channel.
\<close>

theorem MigrateFromPipe_ready:
  fixes s :: "('z) from_sys_scheme"
  assumes "vmpath \<noteq> []" and "\<And>tr. exposedDevice e tr = dev" and "\<And>tr. groupNames e tr = names"
  shows "wp (MigrateFromPipe e has_met inst vmpath has_cdh arrival) (if_ok (\<lambda>_ s'.
     made (trace s') = made (trace s) @ [filepath_Join [vmpath, n]. n \<leftarrow> names, dev n \<noteq> None] \<and>
     (\<exists>data. arrival = Inr data \<and> ready_closed s' \<and>
        (has_cdh \<longrightarrow> customData s' = customData s @ [data])) \<and>
     (\<forall>data'. \<exists>t. icdh has_cdh data' s' = (Panic CloseOfClosedChannel, t)))) s"
proof -
  have twice: "\<exists>t. icdh has_cdh data' u = (Panic CloseOfClosedChannel, t)" if "ready_closed u"
    for data' and u :: "('z) from_sys_scheme"
    using that by (simp add: icdh_def go_defs)
  have icdh: "wp (icdh has_cdh data) (if_ok (\<lambda>_ s'. trace s' = trace u \<and> ready_closed s' \<and>
      (has_cdh \<longrightarrow> customData s' = customData u @ [data]))) u" for data and u :: "('z) from_sys_scheme"
    by (simp add: icdh_def wp_def go_defs)
  have fields: "customData u = customData v" if "world.more u = world.more v" for u v :: "('z) from_sys_scheme"
    using that by (cases u; cases v) simp
  have tail: "wp (case arrival of Inl x \<Rightarrow> throw x | Inr data \<Rightarrow> icdh has_cdh data) (if_ok (\<lambda>_ s'.
     made (trace s') = made (trace s) @ [filepath_Join [vmpath, n]. n \<leftarrow> names, dev n \<noteq> None] \<and>
     (\<exists>data. arrival = Inr data \<and> ready_closed s' \<and>
        (has_cdh \<longrightarrow> customData s' = customData s @ [data])) \<and>
     (\<forall>data'. \<exists>t. icdh has_cdh data' s' = (Panic CloseOfClosedChannel, t)))) u"
    if "made (trace u) = made (trace s) @ [filepath_Join [vmpath, n]. n \<leftarrow> names, dev n \<noteq> None]"
      "customData u = customData s" for u :: "('z) from_sys_scheme"
    by (cases arrival) (use that twice in \<open>auto intro!: if_ok_weaken[OF icdh] simp: go_wp\<close>)
  show ?thesis
    unfolding MigrateFromPipe_def assms(3)
    by (intro ok_andThen ok_whenM ok_actIgnore ok_act ok_reading if_ok_weaken[OF exposeAll_ok[OF assms(1,2)]] tail)
      (auto dest: fields)
qed

section \<open>A migration to a pipe\<close>

lemma wp_onOuter [go_wp]: "wp (onOuter m) Q s \<longleftrightarrow> wp m (\<lambda>r x. Q r (s\<lparr>outer := x\<rparr>)) (outer s)"
  by (simp add: wp_def onOuter_def split: prod.splits)

lemma wp_dirtyPhase [go_wp]:
  "wp (dirtyPhase silo df devs) Q s \<longleftrightarrow> (case silo df (startDirty s devs) of (r, t) \<Rightarrow>
     Q (case r of None \<Rightarrow> Ok () | Some x \<Rightarrow> Err x) (vm_state.truncate t))"
  by (simp add: wp_def dirtyPhase_def split: prod.splits)

section \<open>The status of each device\<close>

text \<open>The last device of a name counts.\<close>

fun lastNamed :: "('a \<Rightarrow> string) \<Rightarrow> string \<Rightarrow> 'a list \<Rightarrow> 'a option" where
  "lastNamed nm n [] = None"
| "lastNamed nm n (d # ds) =
     (case lastNamed nm n ds of Some x \<Rightarrow> Some x | None \<Rightarrow> if nm d = n then Some d else None)"

lemma fold_put_wf: "gm_wf m \<Longrightarrow> gm_wf (fold (\<lambda>d m. gm_put (nm d) (v d) m) ds m)"
  by (induction ds arbitrary: m) (simp_all add: gm_wf_put)

lemma fold_put_get:
  "gm_get (fold (\<lambda>d m. gm_put (nm d) (v d) m) ds m) n =
     (case lastNamed nm n ds of None \<Rightarrow> gm_get m n | Some d \<Rightarrow> Some (v d))"
  by (induction ds arbitrary: m) (auto simp: gm_get_put split: option.splits)

lemma dirtyDevices_get:
  "gm_get (dirtyDevices devices) n = map_option statusOf (lastNamed mt_Name n devices)"
  by (simp add: dirtyDevices_def fold_put_get split: option.splits)

lemma dirtyDevices_wf: "gm_wf (dirtyDevices devices)"
  by (simp add: dirtyDevices_def fold_put_wf)

lemma dirtyDevices_fresh: "(n, di) \<in> set (dirtyDevices devices) \<Longrightarrow> freshStatus di"
  using dirtyDevices_get[of devices n] gm_wf_get[OF dirtyDevices_wf, of devices n di]
  by (auto simp: freshStatus_def statusOf_def)

text \<open>A migration to a pipe starts where the steps of the dirty phase start.\<close>

lemma startDirty_init:
  assumes "suspended vm = False" "suspendedCh_closed vm = False" "calls vm = []"
  shows "dm_init (startDirty vm (dirtyDevices devices))"
proof -
  have "dm_state.truncate (startDirty vm (dirtyDevices devices)) =
      NewDirtyManager (snd (NewVMStateMgr (ret ()) (ret ()) None None (outer vm))) (dirtyDevices devices)"
    using assms by (simp add: startDirty_def NewDirtyManager_def NewVMStateMgr_def dm_state.defs vm_state.defs dm_sys.defs)
  then show ?thesis
    unfolding dm_init_def
    by (intro conjI exI[of _ "dirtyDevices devices"] exI[of _ "ret ()"] exI[of _ None] exI[of _ "outer vm"])
      (auto simp: dirtyDevices_wf dest: dirtyDevices_fresh, simp_all add: startDirty_def dm_state.defs dm_sys.defs)
qed

lemma times_truncate [simp]: "times c (vm_state.truncate t) = times c t"
  by (simp add: times_def vm_state.defs)

lemma truncate_fields [simp]:
  "calls (vm_state.truncate t) = calls t" "suspended (vm_state.truncate t) = suspended t"
  by (simp_all add: vm_state.defs)

text \<open>Without devices no hook does anything.\<close>

definition nothing_done :: "('x, 'z) dm_sys_scheme \<Rightarrow> bool" where
  "nothing_done s \<longleftrightarrow> Devices s = [] \<and> calls s = [] \<and> \<not> suspended s \<and> (\<forall>n. pcs s n \<in> {Idle, PreChecked False})"

lemma nothing_done_step:
  assumes "nothing_done s" and "dm_step df s t"
  shows "nothing_done t"
proof -
  have pc: "pcs s n = Idle \<or> pcs s n = PreChecked False" for n
    using assms(1) by (auto simp: nothing_done_def)
  have [simp]: "pcs s n \<noteq> PreMsync" "pcs s n \<noteq> MarkTest k" "pcs s n \<noteq> MarkInsert k" "pcs s n \<noteq> Throttling j"
    "pcs s n \<noteq> Checking" "pcs s n \<noteq> Suspending" "pcs s n \<noteq> Locked" "pcs s n \<noteq> Completing" for n k j
    using pc[of n] by auto
  have [simp]: "Devices s = []" using assms(1) by (simp add: nothing_done_def)
  show ?thesis
    using assms(2)
  proof (cases rule: dm_step.cases)
    case (pre_check n)
    then show ?thesis using assms(1) by (simp add: nothing_done_def CheckSuspendedVM_def)
  qed simp_all
qed

lemma nothing_done_steps: "(dm_step df)\<^sup>*\<^sup>* s t \<Longrightarrow> nothing_done s \<Longrightarrow> nothing_done t"
  by (induction rule: rtranclp_induct) (auto intro: nothing_done_step)

text \<open>
  The calls to Silo around the dirty phase only touch the outer state: what holds of the suspend
  manager before the dirty phase and after it, holds at the end.
\<close>

lemma thenQ_cases:
  "(\<And>x. wp (k x) Q s) \<Longrightarrow> (\<And>e. Q (Err e) s) \<Longrightarrow> (\<And>e. Q (Panic e) s) \<Longrightarrow> thenQ k Q r s"
  by (cases r) simp_all

lemma wp_onOuter_any: "(\<And>r x. Q r (s\<lparr>outer := x\<rparr>)) \<Longrightarrow> wp (onOuter m) Q s"
  unfolding wp_onOuter by (rule wpI) blast

lemma MigrateToPipe_wp:
  fixes e :: "('y) mig_env_scheme" and vm :: "(mig_call, 'w) world_scheme vm_state"
  assumes "\<And>x s. P (s\<lparr>outer := x\<rparr>) = P s" and "P vm"
    and "\<And>x. P (vm_state.truncate (snd (silo (dmFuncs vf (authTransfer e payload))
        (startDirty (vm\<lparr>outer := x\<rparr>) (dirtyDevices devices)))))"
  shows "wp (MigrateToPipe e silo vf has_met i options devices payload) (\<lambda>r s'. P s') vm"
proof -
  have dirty: "wp (dirtyPhase silo (dmFuncs vf (authTransfer e payload)) (dirtyDevices devices))
      (thenQ (\<lambda>_. onOuter (act e DevicesCompleted)) (\<lambda>r. P)) (vm\<lparr>outer := x\<rparr>)" for x
    unfolding wp_dirtyPhase using assms(3)[of x]
    by (auto intro!: thenQ_cases wp_onOuter_any simp: assms(1) split: prod.splits)
  have met: "wp (whenM has_met (onOuter m)) Q vm" if "\<And>r x. Q r (vm\<lparr>outer := x\<rparr>)"
    for m :: "((mig_call, 'w) world_scheme, unit) go" and Q
    using that[of _ "outer vm"] that by (simp add: wp_whenM wp_onOuter_any)
  show ?thesis
    unfolding MigrateToPipe_def wp_andThen
    by (rule met, rule thenQ_cases, unfold wp_andThen, rule wp_onOuter_any, rule thenQ_cases,
        unfold wp_andThen, rule wp_onOuter_any, rule thenQ_cases, unfold wp_andThen vm_state.simps)
      (auto simp: assms(1,2) dirty)
qed


text \<open>
  A migration with no devices never hands over: whatever Silo does with the hooks, no custom
  data is sent, so the other side, which waits for it, is not told that it is in charge; and when no
  call fails the migration reports success.
\<close>

theorem MigrateToPipe_without_devices:
  fixes e :: "('y) mig_env_scheme" and vm :: "(mig_call, 'w) world_scheme vm_state"
  assumes hooks_only: "\<And>df s. (dm_step df)\<^sup>*\<^sup>* s (snd (silo df s))"
    and "suspended vm = False" "calls vm = []"
  shows "wp (MigrateToPipe e silo vf has_met i options [] payload) (\<lambda>r s'.
     (times AuthorityTransfer s' = 0 \<and> \<not> suspended s') \<and>
     ((\<forall>tr c. fails e tr c = None) \<and> (\<forall>df s. fst (silo df s) = None) \<longrightarrow> r = Ok ())) vm"
proof (rule wp_conj)
  have start: "nothing_done (startDirty (vm\<lparr>outer := x\<rparr>) (dirtyDevices []))" for x
    using assms(2,3) by (simp add: nothing_done_def startDirty_def dirtyDevices_def NewDirtyManager_def
        dm_state.defs dm_sys.defs vm_state.defs)
  have nd: "nothing_done (snd (silo df (startDirty (vm\<lparr>outer := x\<rparr>) (dirtyDevices []))))" for df x
    by (rule nothing_done_steps[OF hooks_only start])
  show "wp (MigrateToPipe e silo vf has_met i options [] payload) (\<lambda>r s'.
     times AuthorityTransfer s' = 0 \<and> \<not> suspended s') vm"
    by (rule MigrateToPipe_wp)
      (use nd in \<open>simp_all add: times_def nothing_done_def assms(2,3)\<close>)
  show "wp (MigrateToPipe e silo vf has_met i options [] payload) (\<lambda>r s'.
     (\<forall>tr c. fails e tr c = None) \<and> (\<forall>df s. fst (silo df s) = None) \<longrightarrow> r = Ok ()) vm"
  proof (cases "(\<forall>tr c. fails e tr c = None) \<and> (\<forall>df s. fst (silo df s) = None)")
    case True
    then show ?thesis by (simp add: MigrateToPipe_def go_wp case_prod_unfold)
  next
    case False
    then show ?thesis by (auto intro: wpI)
  qed
qed

section \<open>Examples\<close>

definition dg_demo :: dg_env where
  "dg_demo = mig_env.extend mig_demo (dg_env.fields (\<lambda>_ n. Some ''nbd0'') (\<lambda>_ n. Some ''nbd0'') (\<lambda>_. [''disk'']))"

lemma dg_demo_fields [simp]:
  "exposedDevice dg_demo = (\<lambda>_ n. Some ''nbd0'')" "groupNames dg_demo = (\<lambda>_. [''disk''])"
  "AddOverlay dg_demo = AddOverlay mig_demo" "fails dg_demo = (\<lambda>_ _. None)"
  "statHasRdev dg_demo = (\<lambda>_. True)" "fileRdev dg_demo = (\<lambda>_. 7)" "fileSize dg_demo = (\<lambda>_. 4096)"
  "infoDevice dg_demo = (\<lambda>_ n. Some ''nbd0'')"
  by (simp_all add: dg_demo_def mig_demo_def mig_env.defs dg_env.defs)

lemmas fs_eval = MigrateFromFS_def placeDevice_def exposeDevice_def copyOver_def ExposeSiloDeviceAsFile_def
  skipSilos_def devNode_def

theorem MigrateFromFS_places_devices_witness:
  "wp (MigrateFromFS dg_demo ''vm'' ''/run/vm'' [demo_device\<lparr>mf_Name := ''state'', mf_SkipSilo := True\<rparr>,
       demo_device\<lparr>mf_Name := ''kernel'', mf_Shared := True\<rparr>, demo_device] None)
     (\<lambda>r s'. r = Ok () \<and> made (trace s') = [''/run/vm/kernel'', ''/run/vm/state'', ''/run/vm/disk'']) \<lparr>trace = []\<rparr>"
proof -
  let ?ds = "[demo_device\<lparr>mf_Name := ''state'', mf_SkipSilo := True\<rparr>,
       demo_device\<lparr>mf_Name := ''kernel'', mf_Shared := True\<rparr>, demo_device]"
  let ?s = "\<lparr>trace = []\<rparr> :: mig_call world"
  have ok: "fst (MigrateFromFS dg_demo ''vm'' ''/run/vm'' ?ds None ?s) = Ok ()"
    by (simp add: fs_eval mig_demo_eval)
  have "wp (MigrateFromFS dg_demo ''vm'' ''/run/vm'' ?ds None) (if_ok (\<lambda>_ s'.
     made (trace s') = made (trace ?s) @
       [filepath_Join [''/run/vm'', mf_Name d]. d \<leftarrow> ?ds, mf_Shared d] @
       [filepath_Join [''/run/vm'', mf_Name d]. d \<leftarrow> ?ds, \<not> mf_Shared d])) ?s"
    by (rule MigrateFromFS_places_devices) (simp_all add: mig_demo_def)
  then show ?thesis
    using ok by (simp add: wp_def if_ok_def demo_device_def path_defs split: prod.splits)
qed

theorem MigrateFromPipe_ready_witness:
  "\<exists>s'. MigrateFromPipe dg_demo True ''vm'' ''/run/vm'' True (Inr ''data'')
       \<lparr>trace = [], protocolCancelled = False, ready_closed = False, customData = []\<rparr> = (Ok (), s') \<and>
     made (trace s') = [''/run/vm/disk''] \<and> customData s' = [''data'']"
proof -
  let ?s = "\<lparr>trace = [], protocolCancelled = False, ready_closed = False, customData = []\<rparr> :: from_sys"
  let ?m = "MigrateFromPipe dg_demo True ''vm'' ''/run/vm'' True (Inr ''data'')"
  have ok: "fst (?m ?s) = Ok ()"
    by (simp add: MigrateFromPipe_def exposeAll_def ExposeSiloDeviceAsFile_def icdh_def go_defs)
  have "wp ?m (if_ok (\<lambda>_ s'.
     made (trace s') = made (trace ?s) @ [filepath_Join [''/run/vm'', n]. n \<leftarrow> [''disk''], Some ''nbd0'' \<noteq> None] \<and>
     (\<exists>data. (Inr ''data'' :: goerr + string) = Inr data \<and> ready_closed s' \<and>
        (True \<longrightarrow> customData s' = customData ?s @ [data])) \<and>
     (\<forall>data'. \<exists>t. icdh True data' s' = (Panic CloseOfClosedChannel, t)))) ?s"
    by (rule MigrateFromPipe_ready) simp_all
  then show ?thesis
    using ok by (auto simp: wp_def if_ok_def path_defs split: prod.splits)
qed

text \<open>A Silo that migrates the one device in one cycle, if the hooks can run and do not panic.\<close>

definition runHook :: "('x dm_sys \<Rightarrow> 'a res \<times> 'x dm_sys) \<Rightarrow> 'x dm_sys \<Rightarrow> 'x dm_sys" where
  "runHook h s = (if pcs s ''disk'' = Idle \<and> gm_get (Devices s) ''disk'' \<noteq> None \<and> suspendLock s = None
     then (case h s of (Panic x, _) \<Rightarrow> s | (_, s') \<Rightarrow> s') else s)"

definition one_cycle :: "'x silo_dirty" where
  "one_cycle df s = (None, runHook (PostGetDirty df ''disk'' []) (runHook (PreGetDirty df ''disk'')
     (runHook (PostMigrateDirty df None ''disk'' [1, 2, 3]) s)))"

lemma runHook_steps:
  assumes "\<And>s di r s'. pcs s ''disk'' = Idle \<Longrightarrow> gm_get (Devices s) ''disk'' = Some di \<Longrightarrow>
      suspendLock s = None \<Longrightarrow> h s = (r, s') \<Longrightarrow> (\<And>x. r \<noteq> Panic x) \<Longrightarrow> (dm_step df)\<^sup>*\<^sup>* s s'"
  shows "(dm_step df)\<^sup>*\<^sup>* s (runHook h s)"
  using assms by (auto simp: runHook_def split: prod.split res.split)

lemma one_cycle_hooks_only: "(dm_step df)\<^sup>*\<^sup>* s (snd (one_cycle df s))"
proof -
  have 1: "(dm_step df)\<^sup>*\<^sup>* s (runHook (PostMigrateDirty df None ''disk'' [1, 2, 3]) s)" for s
    by (rule runHook_steps) (rule PostMigrateDirty_steps)
  have 2: "(dm_step df)\<^sup>*\<^sup>* s (runHook (PreGetDirty df ''disk'') s)" for s
    by (rule runHook_steps) (rule PreGetDirty_steps)
  have 3: "(dm_step df)\<^sup>*\<^sup>* s (runHook (PostGetDirty df ''disk'' []) s)" for s
    by (rule runHook_steps) (rule PostGetDirty_steps)
  show ?thesis
    unfolding one_cycle_def snd_conv by (rule rtranclp_trans[OF rtranclp_trans[OF 1 2] 3])
qed

definition vm_demo :: "mig_call world vm_state" where
  "vm_demo = \<lparr>suspended = False, suspendedCh_closed = False, calls = [], outer = \<lparr>trace = []\<rparr>\<rparr>"

definition vf_demo :: "mig_call world vm_funcs" where
  "vf_demo = \<lparr>suspendFunc = ret (), msyncFunc = ret (), onBeforeSuspend = None, onAfterSuspend = None\<rparr>"

definition to_demo :: migrate_to_device where
  "to_demo = \<lparr>mt_Name = ''disk'', mt_MaxDirtyBlocks = 10, mt_MinCycles = 0, mt_MaxCycles = 1, mt_CycleThrottle = 5\<rparr>"

definition opt_demo :: migrate_to_options where
  "opt_demo = \<lparr>opt_Concurrency = 4, opt_Compression = True, opt_CompressionType = 0\<rparr>"

lemmas to_eval = MigrateToPipe_def onOuter_def dirtyPhase_def startDirty_def dirtyDevices_def statusOf_def
  dmFuncs_def authTransfer_def vm_demo_def vf_demo_def to_demo_def opt_demo_def one_cycle_def runHook_def
  NewDirtyManager_def vm_state.defs dm_state.defs dm_sys.defs vm_funcs.defs dm_funcs.defs

lemma demo_hands_over:
  "\<exists>s. MigrateToPipe mig_demo one_cycle vf_demo False ''vm'' opt_demo [to_demo] None vm_demo = (Ok (), s) \<and>
     calls s = [(SuspendFunc, True), (MsyncFunc, True), (AuthorityTransfer, True)]"
  by (simp add: to_eval mig_demo_def demo_eval)


theorem MigrateToPipe_without_devices_witness:
  "wp (MigrateToPipe mig_demo one_cycle vf_demo False ''vm'' opt_demo [] None)
     (\<lambda>r s'. r = Ok () \<and> times AuthorityTransfer s' = 0) vm_demo"
proof -
  have "wp (MigrateToPipe mig_demo one_cycle vf_demo False ''vm'' opt_demo [] None) (\<lambda>r s'.
     (times AuthorityTransfer s' = 0 \<and> \<not> suspended s') \<and>
     ((\<forall>tr c. fails mig_demo tr c = None) \<and> (\<forall>(df :: mig_call world dm_funcs) s. fst (one_cycle df s) = None) \<longrightarrow> r = Ok ())) vm_demo"
    by (rule MigrateToPipe_without_devices) (simp_all add: one_cycle_hooks_only vm_demo_def)
  then show ?thesis
    by (rule wp_mono) (simp add: mig_demo_def one_cycle_def)
qed

end
