(* ===== verification/Peer.thy ===== *)
theory Peer
  imports Migrations Runtimes
begin

text \<open>
  A peer (\<^verbatim>\<open>pkg/peer/peer.go\<close>) owns a runtime and the device group of its machine: it starts the runtime, migrates
  the devices from the file system or from another peer, resumes the machine, and migrates it away. The
  runtime is any that has the interface; its state is the field \<open>p_runtime\<close>. The device group is Silo's, and
  only whether there is one is kept. The metrics (\<^verbatim>\<open>pkg/common/drafter_metrics.go\<close>) are kept twice, in the peer's own
  counters and, if it has them, in the labelled gauges.
\<close>

section \<open>State\<close>

datatype gauge =
    FlushDataOps | FlushDataTimeMs | VMRunning | MigratingTo | MigratingFrom | MigratingFromWaitReady

datatype peer_hook = OnLocalAllDevicesRequested | OnCompletion | HookBeforeSuspend | HookAfterSuspend

record 'r peer = from_sys +
  p_log :: bool                                   \<comment> \<open>the logger is not nil\<close>
  p_met :: bool
  p_dmet :: "(string \<times> gauge \<Rightarrow> int) option"      \<comment> \<open>by the instance's label\<close>
  p_dg :: bool
  p_devices :: "migrate_from_device list"
  p_runtime :: 'r
  p_VMPath :: string
  p_VMPid :: nat
  p_backgroundErr :: "goerr list"
  p_instanceID :: string
  p_metrics :: "gauge \<Rightarrow> int"
  p_hooksCalled :: "peer_hook list"

record peer_env = dg_env +
  newUUID :: "mig_trace \<Rightarrow> string"
  flushMs :: "mig_trace \<Rightarrow> int"                   \<comment> \<open>how long a flush took\<close>

definition NewDrafterMetrics :: "string \<times> gauge \<Rightarrow> int" where
  "NewDrafterMetrics = (\<lambda>_. 0)"

definition setMetric :: "gauge \<Rightarrow> int \<Rightarrow> (('r, 'z) peer_scheme, unit) go" where
  "setMetric g v = update (\<lambda>s. s\<lparr>p_metrics := (p_metrics s)(g := v),
     p_dmet := map_option (\<lambda>f. f((p_instanceID s, g) := v)) (p_dmet s)\<rparr>)"

definition addMetric :: "gauge \<Rightarrow> int \<Rightarrow> (('r, 'z) peer_scheme, unit) go" where
  "addMetric g v = update (\<lambda>s. s\<lparr>p_metrics := (p_metrics s)(g := p_metrics s g + v),
     p_dmet := map_option (\<lambda>f. f((p_instanceID s, g) := f (p_instanceID s, g) + v)) (p_dmet s)\<rparr>)"

text \<open>The runtime's operations run on its own state.\<close>

definition onRuntime :: "('r, 'a) go \<Rightarrow> (('r, 'z) peer_scheme, 'a) go" where
  "onRuntime m = (\<lambda>s. case m (p_runtime s) of (r, x) \<Rightarrow> (r, s\<lparr>p_runtime := x\<rparr>))"

text \<open>The channel holds twelve errors; one more is dropped.\<close>

definition backgroundErr :: "goerr \<Rightarrow> (('r, 'z) peer_scheme, unit) go" where
  "backgroundErr x = update (\<lambda>s. if length (p_backgroundErr s) < 12
     then s\<lparr>p_backgroundErr := p_backgroundErr s @ [x]\<rparr> else s)"

section \<open>Reading and setting\<close>

definition GetMetrics :: "('r, 'z) peer_scheme \<Rightarrow> gauge \<Rightarrow> int" where
  "GetMetrics s = p_metrics s"

definition GetInstanceID :: "('r, 'z) peer_scheme \<Rightarrow> string" where
  "GetInstanceID s = p_instanceID s"

definition SetInstanceID :: "string \<Rightarrow> (('r, 'z) peer_scheme, unit) go" where
  "SetInstanceID i = update (\<lambda>s. s\<lparr>p_instanceID := i\<rparr>)"

definition BackgroundErr :: "('r, 'z) peer_scheme \<Rightarrow> goerr list" where
  "BackgroundErr s = p_backgroundErr s"

definition setDG :: "(('r, 'z) peer_scheme, unit) go" where
  "setDG = update (\<lambda>s. s\<lparr>p_dg := True\<rparr>)"

definition GetDG :: "('r, 'z) peer_scheme \<Rightarrow> bool" where
  "GetDG s = p_dg s"

definition closeDG :: "('y) peer_env_scheme \<Rightarrow> (('r, 'z) peer_scheme, unit) go" where
  "closeDG e = reading p_dg (\<lambda>dg. whenM dg
     (attempt (act e CloseGroup) (\<lambda>r. andThen (update (\<lambda>s. s\<lparr>p_dg := False\<rparr>)) (\<lambda>_.
      case r of Inl x \<Rightarrow> throw x | Inr _ \<Rightarrow> ret ()))))"

section \<open>Starting and closing\<close>

definition StartPeer ::
    "('y) peer_env_scheme \<Rightarrow> ('r, 'w) runtime_provider_scheme \<Rightarrow> bool \<Rightarrow> bool \<Rightarrow>
     (string \<times> gauge \<Rightarrow> int) option \<Rightarrow> string \<Rightarrow> (('r, 'z) peer_scheme, unit) go" where
  "StartPeer e rp log met dmet i =
     andThen (update (\<lambda>s. s\<lparr>p_log := log, p_met := met, p_dmet := dmet, p_dg := False, p_devices := [],
       p_VMPath := [], p_VMPid := 0, p_backgroundErr := [],
       p_instanceID := newUUID e (trace s) @ ''-'' @ i, p_metrics := (\<lambda>_. 0)\<rparr>)) (\<lambda>_.
     andThen (onRuntime (rp_Start rp)) (\<lambda>_.
     andThen (onRuntime (rp_DevicePath rp)) (\<lambda>path.
     andThen (update (\<lambda>s. s\<lparr>p_VMPath := path\<rparr>)) (\<lambda>_.
     andThen (onRuntime (rp_GetVMPid rp)) (\<lambda>pid.
     update (\<lambda>s. s\<lparr>p_VMPid := pid\<rparr>))))))"

text \<open>The error is logged without a test whether there is a logger.\<close>

definition logClosingError :: "goerr + unit \<Rightarrow> (('r, 'z) peer_scheme, unit) go" where
  "logClosingError r = (case r of
      Inl _ \<Rightarrow> reading p_log (\<lambda>log. if log then ret () else panic NilDeref)
    | Inr _ \<Rightarrow> ret ())"

fun errOf :: "goerr + unit \<Rightarrow> goerr option" where
  "errOf (Inl x) = Some x"
| "errOf (Inr _) = None"

definition returnErr :: "goerr option \<Rightarrow> ('s, unit) go" where
  "returnErr x = (case x of None \<Rightarrow> ret () | Some y \<Rightarrow> throw y)"

definition CloseRuntime :: "('r, 'w) runtime_provider_scheme \<Rightarrow> (('r, 'z) peer_scheme, unit) go" where
  "CloseRuntime rp = attempt (onRuntime (rp_Close rp)) (\<lambda>r.
     andThen (logClosingError r) (\<lambda>_. returnErr (errOf r)))"

definition peer_Close ::
    "('y) peer_env_scheme \<Rightarrow> ('r, 'w) runtime_provider_scheme \<Rightarrow> (('r, 'z) peer_scheme, unit) go" where
  "peer_Close e rp =
     attempt (onRuntime (rp_Close rp)) (\<lambda>errRuntime.
     andThen (logClosingError errRuntime) (\<lambda>_.
     attempt (closeDG e) (\<lambda>errDG.
     andThen (reading (\<lambda>s. (p_met s, p_instanceID s)) (\<lambda>(met, i). whenM met (actIgnore e (RemoveAllID i)))) (\<lambda>_.
     returnErr (errors_Join [errOf errRuntime, errOf errDG])))))"

section \<open>Migrating in\<close>

text \<open>
  The schema another peer announces is adapted by the first device of that name for which this succeeds;
  without one it is taken as it is.
\<close>

fun tweakRemote ::
    "('y) mig_env_scheme \<Rightarrow> migrate_from_device list \<Rightarrow> (('z) incoming_sys_scheme, device_schema) go" where
  "tweakRemote e [] = reading incoming ret"
| "tweakRemote e (d # ds) = reading incoming (\<lambda>schema.
     if mf_Name d = ds_Name schema then
       attempt (CreateIncomingSiloDevSchema e d) (\<lambda>r. case r of
         Inr newSchema \<Rightarrow> ret newSchema
       | Inl _ \<Rightarrow> tweakRemote e ds)
     else tweakRemote e ds)"

definition tweakLocal :: "nat \<Rightarrow> string \<Rightarrow> device_schema \<Rightarrow> device_schema" where
  "tweakLocal index name schema = schema"

record migrate_from_hooks =
  has_OnLocalAllDevicesRequested :: bool
  has_OnCompletion :: bool
  has_OnXferCustomData :: bool

definition callPeerHook :: "bool \<Rightarrow> peer_hook \<Rightarrow> (('r, 'z) peer_scheme, unit) go" where
  "callPeerHook present h = whenM present (update (\<lambda>s. s\<lparr>p_hooksCalled := p_hooksCalled s @ [h]\<rparr>))"

text \<open>From another peer: the context of the protocol and the channel \<open>ready\<close> are new.\<close>

definition migrateFromPeer ::
    "('y) peer_env_scheme \<Rightarrow> ('r, 'w) runtime_provider_scheme \<Rightarrow> migrate_from_hooks \<Rightarrow> goerr + string \<Rightarrow>
     (('r, 'z) peer_scheme, unit) go" where
  "migrateFromPeer e rp hooks arrival =
     andThen (update (\<lambda>s. s\<lparr>protocolCancelled := False, ready_closed := False\<rparr>)) (\<lambda>_.
     andThen (onRuntime (rp_DevicePath rp)) (\<lambda>vmpath.
     reading (\<lambda>s. (p_met s, p_instanceID s)) (\<lambda>(met, i).
     attempt (MigrateFromPipe e met i vmpath (has_OnXferCustomData hooks) arrival) (\<lambda>r. case r of
       Inl x \<Rightarrow> andThen (update (\<lambda>s. s\<lparr>protocolCancelled := True\<rparr>)) (\<lambda>_. throw x)
     | Inr _ \<Rightarrow> setDG))))"

text \<open>The goroutine that watches the rest of the transfer.\<close>

definition watchTransfer ::
    "('y) peer_env_scheme \<Rightarrow> migrate_from_hooks \<Rightarrow> (('r, 'z) peer_scheme, unit) go" where
  "watchTransfer e hooks =
     deferring (update (\<lambda>s. s\<lparr>protocolCancelled := True\<rparr>)) (deferring (setMetric MigratingFrom 0) (
     attempt (act e WaitForCompletion) (\<lambda>r. case r of
       Inl x \<Rightarrow> backgroundErr x
     | Inr _ \<Rightarrow>
         andThen (setMetric MigratingFromWaitReady 1) (\<lambda>_.
         attempt (act e WaitForReady) (\<lambda>r.
         andThen (setMetric MigratingFromWaitReady 0) (\<lambda>_. case r of
           Inl x \<Rightarrow> backgroundErr x
         | Inr _ \<Rightarrow> callPeerHook (has_OnCompletion hooks) OnCompletion))))))"

definition migrateFromLocal ::
    "('y) peer_env_scheme \<Rightarrow> ('r, 'w) runtime_provider_scheme \<Rightarrow> migrate_from_hooks \<Rightarrow> migrate_from_device list \<Rightarrow>
     (('r, 'z) peer_scheme, unit) go" where
  "migrateFromLocal e rp hooks devices =
     deferring (setMetric MigratingFrom 0) (
     andThen (onRuntime (rp_DevicePath rp)) (\<lambda>vmpath.
     reading p_instanceID (\<lambda>i.
     andThen (MigrateFromFS e i vmpath devices (Some tweakLocal)) (\<lambda>_.
     andThen setDG (\<lambda>_.
     andThen (callPeerHook (has_OnLocalAllDevicesRequested hooks) OnLocalAllDevicesRequested) (\<lambda>_.
     callPeerHook (has_OnCompletion hooks) OnCompletion))))))"

text \<open>\<open>nr\<close> and \<open>nw\<close> are the numbers of readers and writers.\<close>

definition MigrateFrom ::
    "('y) peer_env_scheme \<Rightarrow> ('r, 'w) runtime_provider_scheme \<Rightarrow> migrate_from_hooks \<Rightarrow> migrate_from_device list \<Rightarrow>
     nat \<Rightarrow> nat \<Rightarrow> goerr + string \<Rightarrow> (('r, 'z) peer_scheme, unit) go" where
  "MigrateFrom e rp hooks devices nr nw arrival =
     andThen (setMetric MigratingFrom 1) (\<lambda>_.
     andThen (update (\<lambda>s. s\<lparr>p_devices := devices\<rparr>)) (\<lambda>_.
     andThen (whenM (0 < nr \<and> 0 < nw) (migrateFromPeer e rp hooks arrival)) (\<lambda>_.
     whenM (nr = 0 \<and> nw = 0) (migrateFromLocal e rp hooks devices))))"

section \<open>Resuming and migrating away\<close>

definition peer_Resume :: "('r, 'w) runtime_provider_scheme \<Rightarrow> (('r, 'z) peer_scheme, unit) go" where
  "peer_Resume rp = andThen (onRuntime (rp_Resume rp)) (\<lambda>_. setMetric VMRunning 1)"

text \<open>The closures the manager of the machine's state is built with.\<close>

definition suspendClosure :: "('r, 'w) runtime_provider_scheme \<Rightarrow> (('r, 'z) peer_scheme, unit) go" where
  "suspendClosure rp = andThen (onRuntime (rp_Suspend rp)) (\<lambda>_. setMetric VMRunning 0)"

definition flushClosure ::
    "('y) peer_env_scheme \<Rightarrow> ('r, 'w) runtime_provider_scheme \<Rightarrow> (('r, 'z) peer_scheme, unit) go" where
  "flushClosure e rp = reading (\<lambda>s. flushMs e (trace s)) (\<lambda>ms.
     andThen (onRuntime (rp_FlushData rp)) (\<lambda>_.
     andThen (addMetric FlushDataOps 1) (\<lambda>_. addMetric FlushDataTimeMs ms)))"

definition suspendHook :: "bool \<Rightarrow> peer_hook \<Rightarrow> (('r, 'z) peer_scheme \<Rightarrow> ('r, 'z) peer_scheme) option" where
  "suspendHook present h = (if present then Some (\<lambda>s. s\<lparr>p_hooksCalled := p_hooksCalled s @ [h]\<rparr>) else None)"

text \<open>The migration runs on the state manager, whose outer state is the peer.\<close>

definition onNewVMState ::
    "('x vm_funcs \<times> 'x vm_state \<Rightarrow> 'a res \<times> 'x vm_state) \<Rightarrow> ('x \<Rightarrow> 'x vm_funcs \<times> 'x vm_state) \<Rightarrow> ('x, 'a) go" where
  "onNewVMState run mk = (\<lambda>x. case run (mk x) of (r, vm) \<Rightarrow> (r, outer vm))"

definition MigrateTo ::
    "('y) peer_env_scheme \<Rightarrow> ('r, 'w) runtime_provider_scheme \<Rightarrow> ('r, 'z) peer_scheme silo_dirty \<Rightarrow>
     bool \<Rightarrow> bool \<Rightarrow> migrate_to_options \<Rightarrow> migrate_to_device list \<Rightarrow> string option option \<Rightarrow> (('r, 'z) peer_scheme, unit) go" where
  "MigrateTo e rp silo onBefore onAfter options devices payload =
     andThen (setMetric MigratingTo 1) (\<lambda>_.
     deferring (setMetric MigratingTo 0) (reading (\<lambda>s. (p_met s, p_instanceID s)) (\<lambda>(met, i).
       onNewVMState (\<lambda>(vf, vm). MigrateToPipe e silo vf met i options devices payload vm)
         (NewVMStateMgr (suspendClosure rp) (flushClosure e rp)
           (suspendHook onBefore HookBeforeSuspend) (suspendHook onAfter HookAfterSuspend)))))"

section \<open>The steps of a dirty phase and the state outside\<close>

text \<open>
  \<open>J\<close> is what a successful suspend makes true outside and nothing else undoes; \<open>N\<close> counts something that
  only the transfer of authority changes. Both are followed through every interleaving of the hooks.
\<close>

definition follows :: "('x \<Rightarrow> bool) \<Rightarrow> ('x \<Rightarrow> nat) \<Rightarrow> nat \<Rightarrow> ('x, 'z) vm_state_scheme \<Rightarrow> bool" where
  "follows J N n s \<longleftrightarrow> (if suspended s then J (outer s) else N (outer s) = n)"

locale outside =
  fixes df :: "('x, 'y) dm_funcs_scheme" and J :: "'x \<Rightarrow> bool" and N :: "'x \<Rightarrow> nat"
  assumes suspend_makes: "suspendFunc df x = (Ok u, y) \<Longrightarrow> J y"
    and suspend_counts: "N (snd (suspendFunc df x)) = N x"
    and msync_keeps: "J x \<Longrightarrow> J (snd (msyncFunc df x))" "N (snd (msyncFunc df x)) = N x"
    and hooks_keep: "onBeforeSuspend df = Some h \<or> onAfterSuspend df = Some h \<Longrightarrow> J x \<Longrightarrow> J (h x)"
      "onBeforeSuspend df = Some h \<or> onAfterSuspend df = Some h \<Longrightarrow> N (h x) = N x"
    and transfer_keeps: "J x \<Longrightarrow> J (snd (authorityTransfer df x))"
begin

lemma follows_fields [simp]:
  "follows J N n (goto m p s) = follows J N n s" "follows J N n (setDevice m f s) = follows J N n s"
  "follows J N n (insertReady m s) = follows J N n s"
  by (simp_all add: follows_def goto_def setDevice_def insertReady_def)

lemma follows_Msync: "follows J N n s \<Longrightarrow> Msync df s = (r, s') \<Longrightarrow> follows J N n s'"
  using msync_keeps[of "outer s"]
  by (auto simp: follows_def Msync_def callClosure_def split: prod.splits if_splits)

lemma wp_suspendFunc:
  "(\<And>r y. (r = Ok () \<Longrightarrow> J y) \<Longrightarrow> N y = N x \<Longrightarrow> Q r y) \<Longrightarrow> wp (suspendFunc df) Q x"
  using suspend_counts[of x] suspend_makes[of x] by (cases "suspendFunc df x") (auto simp: wp_def)

lemma wp_msyncFunc:
  "J x \<Longrightarrow> (\<And>r y. J y \<Longrightarrow> N y = N x \<Longrightarrow> Q r y) \<Longrightarrow> wp (msyncFunc df) Q x"
  using msync_keeps[of x] by (cases "msyncFunc df x") (auto simp: wp_def)

lemma follows_SuspendAndMsync:
  assumes "follows J N n s" and "SuspendAndMsync df s = (r, s')"
  shows "follows J N n s'"
proof (cases "suspended s")
  case True
  then show ?thesis using assms by simp
next
  case False
  then have n: "N (outer s) = n" using assms(1) by (simp add: follows_def)
  have tail: "wp (wrapErr E (callClosure SuspendFunc (suspendFunc df)) (\<lambda>_.
     wrapErr E' (callClosure MsyncFunc (msyncFunc df)) (\<lambda>_.
     andThen (callHook OnAfterSuspend (onAfterSuspend df)) (\<lambda>_.
     andThen (update (\<lambda>s. s\<lparr>suspended := True\<rparr>)) (\<lambda>_. closeSuspendedCh))))) (\<lambda>_ s'. follows J N n s') t"
    if "N (outer t) = n" "\<not> suspended t" for t :: "('x, 'w) vm_state_scheme" and E E'
    unfolding wp_wrapErr wp_callClosure
  proof (rule wp_suspendFunc, rename_tac r y, case_tac r, goal_cases)
    case (1 r y u)
    have "wp (msyncFunc df) (\<lambda>r x. wrapQ E' (\<lambda>_. andThen (callHook OnAfterSuspend (onAfterSuspend df)) (\<lambda>_.
       andThen (update (\<lambda>s. s\<lparr>suspended := True\<rparr>)) (\<lambda>_. closeSuspendedCh))) (\<lambda>_ s'. follows J N n s') r
       (s1\<lparr>outer := x, calls := cs r\<rparr>)) y" if "\<not> suspended s1" for s1 :: "('x, 'w) vm_state_scheme" and cs
      by (rule wp_msyncFunc, use 1 in simp, rename_tac r x, case_tac r)
        (use 1 that \<open>N (outer t) = n\<close> in \<open>auto simp: go_wp follows_def hooks_keep split: option.split\<close>)
    then show ?case using 1 that by (simp add: go_wp)
  qed (use that in \<open>simp_all add: follows_def\<close>)
  have "wp (SuspendAndMsync df) (\<lambda>_ s'. follows J N n s') s"
    unfolding SuspendAndMsync_def using False n
    by (simp add: wp_reading wp_andThen wp_callHook wp_if tail hooks_keep split: option.split)
  then show ?thesis using assms(2) by (simp add: wp_def)
qed

lemma follows_step:
  assumes "dm_inv s" and "follows J N n s" and step: "dm_step df s t"
  shows "follows J N n t"
  using step
proof (cases rule: dm_step.cases)
  case (pre_msync m r s')
  then show ?thesis using follows_Msync assms(2) by simp
next
  case (sent_dirty m di r)
  have inv: "dm_inv t" by (rule dm_step_inv[OF assms(1) step])
  show ?thesis
    using sent_dirty(5)
  proof (cases rule: markSent_cases)
    case (transfer x)
    have "suspended t" using inv transfer(5) by (simp add: dm_inv_def inv_authority_def)
    then have "suspended s" using transfer(5) by simp
    then have "J (outer s)" using assms(2) by (simp add: follows_def)
    then show ?thesis
      using transfer_keeps[OF \<open>J (outer s)\<close>] \<open>suspended t\<close> transfer(5,6) by (simp add: follows_def)
  qed (use assms(2) in simp_all)
next
  case (suspend m r s')
  then show ?thesis using follows_SuspendAndMsync assms(2) by simp
next
  case (complete m r s')
  then show ?thesis using assms(2) closeSuspendDoneCh_effect[OF complete(3)] by (simp add: follows_def goto_def)
qed (use assms(2) in \<open>simp_all add: follows_def goto_def\<close>)

lemma follows_steps:
  assumes "(dm_step df)\<^sup>*\<^sup>* s t" and "dm_inv s" and "follows J N n s"
  shows "follows J N n t"
  using assms
proof (induction rule: rtranclp_induct)
  case (step u v)
  then show ?case using dm.steps_inv follows_step by blast
qed

end

section \<open>A peer hands over a machine that has stopped\<close>

definition handovers :: "mig_trace \<Rightarrow> nat" where
  "handovers tr = length (filter (\<lambda>p. case fst p of SendCustomData _ \<Rightarrow> True | _ \<Rightarrow> False) tr)"

lemma handovers_snoc [simp]:
  "handovers (tr @ [p]) = handovers tr + (case fst p of SendCustomData _ \<Rightarrow> 1 | _ \<Rightarrow> 0)"
  by (simp add: handovers_def split: mig_call.split)

text \<open>What a successful suspend makes true of the peer.\<close>

definition peer_stopped :: "('r \<Rightarrow> bool) \<Rightarrow> ('r, 'z) peer_scheme \<Rightarrow> bool" where
  "peer_stopped stopped x \<longleftrightarrow> stopped (p_runtime x) \<and> p_metrics x VMRunning = 0"

abbreviation migrationFuncs ::
    "('y) peer_env_scheme \<Rightarrow> ('r, 'w) runtime_provider_scheme \<Rightarrow> bool \<Rightarrow> bool \<Rightarrow> string option option \<Rightarrow>
     ('r, 'z) peer_scheme dm_funcs" where
  "migrationFuncs e rp onBefore onAfter payload \<equiv> dmFuncs
     \<lparr>suspendFunc = suspendClosure rp, msyncFunc = flushClosure e rp,
      onBeforeSuspend = suspendHook onBefore HookBeforeSuspend, onAfterSuspend = suspendHook onAfter HookAfterSuspend\<rparr>
     (authTransfer e payload)"

lemma dmFuncs_fields [simp]:
  "suspendFunc (dmFuncs vf tr) = suspendFunc vf" "msyncFunc (dmFuncs vf tr) = msyncFunc vf"
  "onBeforeSuspend (dmFuncs vf tr) = onBeforeSuspend vf" "onAfterSuspend (dmFuncs vf tr) = onAfterSuspend vf"
  "authorityTransfer (dmFuncs vf tr) = tr"
  by (simp_all add: dmFuncs_def vm_funcs.defs dm_funcs.defs)

lemma wp_onRuntime [go_wp]: "wp (onRuntime m) Q s \<longleftrightarrow> wp m (\<lambda>r x. Q r (s\<lparr>p_runtime := x\<rparr>)) (p_runtime s)"
  by (simp add: wp_def onRuntime_def split: prod.splits)

sublocale runtime_contract \<subseteq> handover: outside "migrationFuncs e rp onBefore onAfter payload"
  "peer_stopped stopped" "\<lambda>x. handovers (trace x)" for e onBefore onAfter payload
proof
  show "peer_stopped stopped y"
    if "suspendFunc (migrationFuncs e rp onBefore onAfter payload) x = (Ok u, y)" for x u y
    using that suspend_stops
    by (fastforce simp: peer_stopped_def suspendClosure_def setMetric_def andThen_Ok_iff onRuntime_def update_def
        split: prod.splits)
  have flush: "wp (flushClosure e rp) (\<lambda>_ y. (peer_stopped stopped x \<longrightarrow> peer_stopped stopped y) \<and>
     handovers (trace y) = handovers (trace x)) x" for x
  proof (cases "stopped (p_runtime x)")
    case True
    show ?thesis
      unfolding flushClosure_def addMetric_def
      by (simp add: go_wp, rule stays_wp[OF flush_keeps True], rename_tac r t, case_tac r)
        (simp_all add: go_wp peer_stopped_def)
  next
    case False
    then show ?thesis
      unfolding flushClosure_def addMetric_def
      by (simp add: go_wp peer_stopped_def) (rule wpI, rename_tac r t, case_tac r, simp_all add: go_wp)
  qed
  show "peer_stopped stopped (snd (msyncFunc (migrationFuncs e rp onBefore onAfter payload) x))"
    if "peer_stopped stopped x" for x
    using flush[of x] that by (simp add: wp_def case_prod_unfold)
  show "handovers (trace (snd (msyncFunc (migrationFuncs e rp onBefore onAfter payload) x))) = handovers (trace x)" for x
    using flush[of x] by (simp add: wp_def case_prod_unfold)
  show "handovers (trace (snd (suspendFunc (migrationFuncs e rp onBefore onAfter payload) x))) = handovers (trace x)" for x
    by (simp add: suspendClosure_def setMetric_def onRuntime_def go_defs split: prod.split res.split)
  show "peer_stopped stopped (snd (authorityTransfer (migrationFuncs e rp onBefore onAfter payload) x))"
    if "peer_stopped stopped x" for x
    using that by (simp add: authTransfer_def act_def record_call_def peer_stopped_def split: option.split)
qed (auto simp: suspendHook_def peer_stopped_def split: if_splits)

lemma stays_then_wp:
  assumes "wp m (\<lambda>_. P) s" and "\<And>x t. P t \<Longrightarrow> wp (k x) (\<lambda>_. I) t" and "\<And>t. P t \<Longrightarrow> I t"
  shows "wp (andThen m k) (\<lambda>_. I) s"
  unfolding wp_andThen
  by (rule wp_mono[OF assms(1)], rename_tac r t, case_tac r) (use assms(2,3) in auto)

text \<open>A whole migration follows what its steps follow, if the calls made around them do not matter.\<close>

lemma MigrateToPipe_follows:
  fixes x :: "('r, 'z) peer_scheme"
  assumes "outside (dmFuncs vf (authTransfer e payload)) J N"
    and hooks_only: "\<And>df s. (dm_step df)\<^sup>*\<^sup>* s (snd (silo df s))"
    and calls: "\<And>y c b. (\<And>d. c \<noteq> SendCustomData d) \<Longrightarrow> J (trace_update (\<lambda>t. t @ [(c, b)]) y) = J y"
      "\<And>y c b. (\<And>d. c \<noteq> SendCustomData d) \<Longrightarrow> N (trace_update (\<lambda>t. t @ [(c, b)]) y) = N y"
  shows "wp (MigrateToPipe e silo vf met i options devices payload) (\<lambda>_ s'. follows J N (N x) s')
    \<lparr>suspended = False, suspendedCh_closed = False, calls = [], outer = x\<rparr>"
proof -
  let ?I = "\<lambda>s :: ('r, 'z) peer_scheme vm_state. follows J N (N x) s"
  let ?fresh = "\<lambda>s :: ('r, 'z) peer_scheme vm_state. \<not> suspended s \<and> \<not> suspendedCh_closed s \<and> calls s = [] \<and> N (outer s) = N x"
  have last: "wp (onOuter (act e DevicesCompleted)) (\<lambda>_. ?I) s" if "?I s" for s
    using that by (auto simp: go_wp follows_def trace_snoc calls[of DevicesCompleted, simplified] split: option.split)
  have dirty: "wp (andThen (dirtyPhase silo (dmFuncs vf (authTransfer e payload)) (dirtyDevices devices))
      (\<lambda>_. onOuter (act e DevicesCompleted))) (\<lambda>_. ?I) s" if "?fresh s" for s
  proof -
    let ?t = "snd (silo (dmFuncs vf (authTransfer e payload)) (startDirty s (dirtyDevices devices)))"
    have start: "dm_init (startDirty s (dirtyDevices devices))" using that by (intro startDirty_init) auto
    have "follows J N (N x) (startDirty s (dirtyDevices devices))"
      using that by (simp add: follows_def startDirty_def NewDirtyManager_def vm_state.defs dm_state.defs dm_sys.defs)
    then have "follows J N (N x) ?t"
      by (rule outside.follows_steps[OF assms(1) hooks_only dm_init_inv[OF start]])
    then have I: "?I (vm_state.truncate ?t)" by (simp add: follows_def vm_state.defs)
    show ?thesis
      using I last[OF I] by (simp add: go_wp case_prod_unfold split: option.split)
  qed
  have call: "wp (onOuter (act e c)) (\<lambda>_. ?fresh) s"
    if "?fresh s" "\<And>d. c \<noteq> SendCustomData d" for s c
    using that(1) by (auto simp: go_wp trace_snoc calls[OF that(2)] split: option.split)
  have fresh_I: "?I s" if "?fresh s" for s using that by (simp add: follows_def)
  show ?thesis
    unfolding MigrateToPipe_def
  proof (rule stays_then_wp[where P = ?fresh], goal_cases)
    case 1
    show ?case
      by (simp add: go_wp trace_snoc calls(2)[of "AddProtocol i ''migrateToPipe''", simplified])
  next
    case (2 _ s1)
    show ?case
    proof (rule stays_then_wp[OF call[OF 2]], goal_cases)
      case (2 _ s2)
      show ?case
        by (rule stays_then_wp[OF call[OF 2]]) (simp_all add: dirty fresh_I)
    qed (simp_all add: fresh_I)
  qed (simp_all add: fresh_I)
qed

context runtime_contract
begin

lemma migration_wp:
  fixes x :: "('r, 'z) peer_scheme"
  assumes hooks_only: "\<And>df s. (dm_step df)\<^sup>*\<^sup>* s (snd (silo df s))"
  shows "wp (MigrateToPipe e silo \<lparr>suspendFunc = suspendClosure rp, msyncFunc = flushClosure e rp,
      onBeforeSuspend = suspendHook onBefore HookBeforeSuspend, onAfterSuspend = suspendHook onAfter HookAfterSuspend\<rparr>
      met i options devices payload)
    (\<lambda>_ s'. follows (peer_stopped stopped) (\<lambda>x. handovers (trace x)) (handovers (trace x)) s')
    \<lparr>suspended = False, suspendedCh_closed = False, calls = [], outer = x\<rparr>"
  by (rule MigrateToPipe_follows[OF handover.outside_axioms hooks_only])
    (auto simp: peer_stopped_def split: mig_call.split)

lemma MigrateTo_wp:
  fixes x :: "('r, 'z) peer_scheme"
  assumes hooks_only: "\<And>df s. (dm_step df)\<^sup>*\<^sup>* s (snd (silo df s))"
  shows "wp (MigrateTo e rp silo onBefore onAfter options devices payload) (\<lambda>_ y.
     p_metrics y MigratingTo = 0 \<and> (handovers (trace y) \<noteq> handovers (trace x) \<longrightarrow> peer_stopped stopped y)) x"
proof -
  have run: "wp (onNewVMState (\<lambda>(vf, vm). MigrateToPipe e silo vf met i options devices payload vm)
      (NewVMStateMgr (suspendClosure rp) (flushClosure e rp)
        (suspendHook onBefore HookBeforeSuspend) (suspendHook onAfter HookAfterSuspend)))
     (\<lambda>_ y. handovers (trace y) \<noteq> handovers (trace x1) \<longrightarrow> peer_stopped stopped y) x1"
    for met i and x1 :: "('r, 'z) peer_scheme"
    using migration_wp[OF hooks_only, of e onBefore onAfter met i options devices payload x1]
    by (auto simp: wp_def onNewVMState_def NewVMStateMgr_def follows_def split: prod.splits if_splits)
  show ?thesis
    unfolding MigrateTo_def setMetric_def
    by (simp add: go_wp, rule wp_mono[OF run]) (simp add: go_wp peer_stopped_def)
qed

end

text \<open>
  C1. A peer never hands over a machine that still runs. With the Firecracker runtime, if Silo does nothing to the
  migration but run its hooks, in any interleaving, then however \<open>MigrateTo\<close> ends: if custom data, which is what
  hands over authority, was sent to the other peer, successfully or not, the machine here is not running and the
  metric says so; and the peer no longer counts as migrating.
\<close>

theorem MigrateTo_hands_over_stopped:
  fixes x :: "(('w) rt_sys_scheme, 'z) peer_scheme"
  assumes "\<And>df s. (dm_step df)\<^sup>*\<^sup>* s (snd (silo df s))"
  shows "wp (MigrateTo e (firecrackerRuntime fe c evs exit) silo onBefore onAfter options devices payload) (\<lambda>_ y.
     p_metrics y MigratingTo = 0 \<and>
     (handovers (trace y) \<noteq> handovers (trace x) \<longrightarrow> \<not> rt_running (p_runtime y) \<and> p_metrics y VMRunning = 0)) x"
  by (rule wp_mono[OF firecracker.MigrateTo_wp[OF assms]]) (simp add: peer_stopped_def)

section \<open>Migrating in\<close>

definition keepsMetrics :: "(gauge \<Rightarrow> int) \<Rightarrow> ('r, 'z) peer_scheme \<Rightarrow> bool" where
  "keepsMetrics m s \<longleftrightarrow> p_metrics s = m"

lemma keepsMetrics_fields [simp]:
  "keepsMetrics m (trace_update f s) = keepsMetrics m s" "keepsMetrics m (protocolCancelled_update g s) = keepsMetrics m s"
  "keepsMetrics m (ready_closed_update g s) = keepsMetrics m s" "keepsMetrics m (customData_update h s) = keepsMetrics m s"
  "keepsMetrics m (p_dg_update g s) = keepsMetrics m s" "keepsMetrics m (p_hooksCalled_update k s) = keepsMetrics m s"
  "keepsMetrics m (p_runtime_update j s) = keepsMetrics m s"
  by (simp_all add: keepsMetrics_def)


lemma stays_Expose:
  assumes "\<And>s c b. I s \<Longrightarrow> (\<And>d. c \<noteq> SendCustomData d) \<Longrightarrow> I (trace_update (\<lambda>t. t @ [(c, b)]) s)"
  shows "stays_inv I (ExposeSiloDeviceAsFile e vmpath n d)"
  unfolding ExposeSiloDeviceAsFile_def by (intro stays assms; simp)

lemma stays_MigrateFromFS:
  assumes upd: "\<And>s c b. I s \<Longrightarrow> (\<And>d. c \<noteq> SendCustomData d) \<Longrightarrow> I (trace_update (\<lambda>t. t @ [(c, b)]) s)"
  shows "stays_inv I (MigrateFromFS e i vmpath devices tweak)"
proof -
  have over: "stays_inv I (addOverlays e d os ds)" for d os ds
    by (induction e d os ds rule: addOverlays.induct) (auto intro!: stays upd)
  have schema: "stays_inv I (CreateSiloDevSchema e d)" for d
    unfolding CreateSiloDevSchema_def useOverlays_def
    by (intro stays over upd; simp)
  have coll: "stays_inv I (collectSchemas e vmpath tweak k devices acc)" for k acc
    by (induction devices arbitrary: k acc) (auto intro!: stays schema stays_Expose upd)
  show ?thesis
    unfolding MigrateFromFS_def placeDevice_def copyOver_def exposeDevice_def
    by (intro stays coll stays_Expose upd; simp)
qed

lemma stays_MigrateFromPipe:
  fixes I :: "('z) from_sys_scheme \<Rightarrow> bool"
  assumes upd: "\<And>s c b. I s \<Longrightarrow> (\<And>d. c \<noteq> SendCustomData d) \<Longrightarrow> I (trace_update (\<lambda>t. t @ [(c, b)]) s)"
    "\<And>s f. I s \<Longrightarrow> I (ready_closed_update f s)"
    "\<And>s f. I s \<Longrightarrow> I (customData_update f s)"
  shows "stays_inv I (MigrateFromPipe e met i vmpath cdh arrival)"
proof -
  have data: "stays_inv I (icdh cdh data)" for data
    unfolding icdh_def by (intro stays upd; (assumption | simp add: stays_inv_def upd))
  show ?thesis
    unfolding MigrateFromPipe_def exposeAll_def by (intro stays data stays_Expose upd; simp)
qed

text \<open>
  C21. What \<open>MigrateFrom\<close> leaves. From the file system the peer no longer counts as migrating when it returns,
  whatever the outcome, and has a device group exactly when it succeeded (or had one). From another peer it has
  one if it succeeded, and counts as migrating until the watching goroutine ends; after an error the context is
  cancelled, but the peer counts as migrating for ever. With readers but no writers, or the reverse, it
  reports success without doing anything, and also counts as migrating for ever.
\<close>

theorem MigrateFrom_outcomes:
  fixes s :: "('r, 'z) peer_scheme"
  shows "wp (MigrateFrom e rp hooks devices nr nw arrival) (\<lambda>r s'.
     (nr = 0 \<and> nw = 0 \<longrightarrow> p_metrics s' MigratingFrom = 0 \<and> (p_dg s' \<longleftrightarrow> p_dg s \<or> r = Ok ())) \<and>
     (nr > 0 \<and> nw > 0 \<longrightarrow> p_metrics s' MigratingFrom = 1 \<and> (p_dg s' \<longleftrightarrow> p_dg s \<or> r = Ok ())) \<and>
     (nr > 0 \<and> nw = 0 \<or> nr = 0 \<and> nw > 0 \<longrightarrow> p_metrics s' MigratingFrom = 1 \<and> r = Ok () \<and> p_dg s' = p_dg s \<and>
        p_runtime s' = p_runtime s \<and> trace s' = trace s)) s"
proof -
  let ?J = "\<lambda>m s :: ('r, 'z) peer_scheme. p_metrics s MigratingFrom = 1 \<and> p_dg s = m"
  have fs: "wp (MigrateFromFS e i vmpath devices tw) Q t"
    if "?J m t" "\<And>r t. ?J m t \<Longrightarrow> Q r t" for m i vmpath tw Q and t :: "('r, 'z) peer_scheme"
    by (rule stays_wp[OF stays_MigrateFromFS[where I = "?J m"]]) (use that in auto)
  have pipe: "wp (MigrateFromPipe e met i vmpath cdh arrival) Q t"
    if "?J m t" "\<And>r t. ?J m t \<Longrightarrow> Q r t" for m met i vmpath cdh Q and t :: "('r, 'z) peer_scheme"
    by (rule stays_wp[OF stays_MigrateFromPipe[where I = "?J m"]]) (use that in auto)
  have peer: "wp (migrateFromPeer e rp hooks arrival) (\<lambda>r s'. p_metrics s' MigratingFrom = 1 \<and> (p_dg s' \<longleftrightarrow> m \<or> r = Ok ())) t"
    if "?J m t" for m and t :: "('r, 'z) peer_scheme"
    unfolding migrateFromPeer_def setDG_def
    using that by (simp add: go_wp) (rule wpI, rename_tac r x, case_tac r, simp_all add: go_wp,
      rule pipe[where m = m], simp, rename_tac r t, case_tac r, simp_all add: go_wp)
  have local: "wp (migrateFromLocal e rp hooks devices) (\<lambda>r s'. p_metrics s' MigratingFrom = 0 \<and> (p_dg s' \<longleftrightarrow> m \<or> r = Ok ())) t"
    if "?J m t" for m and t :: "('r, 'z) peer_scheme"
    unfolding migrateFromLocal_def setDG_def setMetric_def callPeerHook_def
    using that by (simp add: go_wp) (rule wpI, rename_tac r x, case_tac r, simp_all add: go_wp,
      rule fs[where m = m], simp, rename_tac r t, case_tac r, simp_all add: go_wp)
  let ?s = "s\<lparr>p_metrics := (p_metrics s)(MigratingFrom := 1),
     p_dmet := map_option (\<lambda>f. f((p_instanceID s, MigratingFrom) := 1)) (p_dmet s), p_devices := devices\<rparr>"
  have J: "?J (p_dg s) ?s" by simp
  consider "nr = 0" "nw = 0" | "0 < nr" "0 < nw" | "nr > 0 \<and> nw = 0 \<or> nr = 0 \<and> nw > 0" by auto
  then show ?thesis
  proof cases
    case 1
    then show ?thesis
      unfolding MigrateFrom_def setMetric_def by (simp add: go_wp) (rule wp_mono[OF local[OF J]], simp)
  next
    case 2
    then show ?thesis
      unfolding MigrateFrom_def setMetric_def
      by (simp add: go_wp) (rule wp_mono[OF peer[OF J]], rename_tac r t, case_tac r, simp_all add: go_wp)
  qed (auto simp: MigrateFrom_def setMetric_def go_wp)
qed

section \<open>Closing\<close>

text \<open>
  Closing the runtime and the group are both tried; without a logger an error of the runtime crashes the peer
  before the group is closed.
\<close>

lemma peer_Close_without_logger:
  fixes s :: "('r, 'z) peer_scheme"
  assumes "rp_Close rp (p_runtime s) = (Err x, rt)" and "\<not> p_log s"
  shows "fst (peer_Close e rp s) = Panic NilDeref" "fst (CloseRuntime rp s) = Panic NilDeref"
  using assms by (simp_all add: peer_Close_def CloseRuntime_def logClosingError_def onRuntime_def go_defs)

section \<open>Examples\<close>

lemma peer_trace_fields [simp]:
  fixes s :: "('r, 'z) peer_scheme"
  shows "p_runtime (trace_update f s) = p_runtime s" "p_metrics (trace_update f s) = p_metrics s"
    "p_dmet (trace_update f s) = p_dmet s" "p_met (trace_update f s) = p_met s"
    "p_instanceID (trace_update f s) = p_instanceID s" "trace (p_runtime_update g s) = trace s"
    "trace (p_metrics_update h s) = trace s" "trace (p_dmet_update j s) = trace s"
  by simp_all

definition peer_demo :: peer_env where
  "peer_demo = dg_env.extend dg_demo (peer_env.fields (\<lambda>_. ''uuid'') (\<lambda>_. 5))"

lemma peer_demo_fields [simp]:
  "fails peer_demo = (\<lambda>_ _. None)" "flushMs peer_demo = (\<lambda>_. 5)" "newUUID peer_demo = (\<lambda>_. ''uuid'')"
  by (simp_all add: peer_demo_def dg_demo_def mig_demo_def mig_env.defs dg_env.defs peer_env.defs)

definition rt_live :: rt_sys where
  "rt_live = rt_start\<lparr>rt_running := True, rt_hasAgent := True, rt_GrabMemory := False\<rparr>"

definition peer_start :: "(rt_sys, unit) peer_scheme" where
  "peer_start = from_sys.extend \<lparr>trace = [], protocolCancelled = False, ready_closed = False, customData = []\<rparr>
     (peer.fields False False None True [] rt_live
        ''vm'' 42 [] ''uuid-peer'' ((\<lambda>_. 0)(VMRunning := 1)) [])"

abbreviation demo_migrate :: "((rt_sys, unit) peer_scheme, unit) go" where
  "demo_migrate \<equiv> MigrateTo peer_demo (firecrackerRuntime (rt_demo None) rc_demo [] None) one_cycle False False opt_demo
     [to_demo] None"

lemma demo_runtime_stops:
  obtains rt1 rt2 where "rt_Suspend (rt_demo None) rc_demo rt_live = (Ok (), rt1)"
    "FlushData (rt_demo None) rc_demo rt1 = (Ok (), rt2)"
proof -
  have "wp (rt_Suspend (rt_demo None) rc_demo) (\<lambda>r rt1. r = Ok () \<and>
      wp (FlushData (rt_demo None) rc_demo) (\<lambda>r rt2. r = Ok ()) rt1) rt_live"
    by (simp add: rt_live_def rt_Suspend_def Machine_CreateSnapshot_def watchLateWrites_def setRunning_def sdk_names
        FlushData_def onMachine_def rt_demo_eval go_wp)
  then show ?thesis using that by (auto simp: wp_def split: prod.splits)
qed

text \<open>One cycle of one device hands over once, if the closures succeed.\<close>

definition demoSys ::
    "bool \<Rightarrow> (vm_call \<times> bool) list \<Rightarrow> 'x \<Rightarrow> device_status \<Rightarrow> string list \<Rightarrow> bool \<Rightarrow> nat \<Rightarrow> 'x dm_sys" where
  "demoSys b cs x di rd sent w = \<lparr>suspended = b, suspendedCh_closed = b, calls = cs, outer = x,
     Devices = [(''disk'', di)], ReadyDevices = rd, authorityTransferCompleted = sent,
     suspendCompleted = b, suspendDoneCh_closed = b, waited = w, pcs = (\<lambda>_. Idle), suspendLock = None\<rparr>"

lemma one_cycle_run:
  fixes df :: "'x dm_funcs"
  assumes "suspendFunc df x = (Ok (), x1)" and "msyncFunc df x1 = (Ok (), x2)"
    and "authorityTransfer df x2 = (Ok (), x3)" and "onBeforeSuspend df = None" "onAfterSuspend df = None"
  shows "\<exists>di. one_cycle df (demoSys False [] x demo_status [] False 0) = (None, demoSys True
    [(SuspendFunc, True), (MsyncFunc, True), (AuthorityTransfer, True)] x3 di [''disk''] True 5)"
proof -
  let ?di = "demo_status\<lparr>TotalCycles := 1, CyclesBelowDirtyBlockTreshold := 1, Ready := True\<rparr>"
  let ?cs = "[(SuspendFunc, True), (MsyncFunc, True)]"
  have "PostMigrateDirty df None ''disk'' [1, 2, 3] (demoSys False [] x demo_status [] False 0) =
      (Ok (True, None), demoSys True ?cs x2 ?di [''disk''] False 5)"
    using assms by (simp add: demoSys_def demo_eval)
  moreover have "PreGetDirty df ''disk'' (demoSys True ?cs x2 ?di [''disk''] False 5) =
      (Ok (True, None), demoSys True ?cs x2 (?di\<lparr>SuspendedAtPreGetDirty := True\<rparr>) [''disk''] False 5)"
    by (simp add: demoSys_def demo_eval)
  moreover have "PostGetDirty df ''disk'' [] (demoSys True ?cs x2 (?di\<lparr>SuspendedAtPreGetDirty := True\<rparr>) [''disk''] False 5) =
      (Ok (False, None), demoSys True (?cs @ [(AuthorityTransfer, True)]) x3
        (?di\<lparr>SuspendedAtPreGetDirty := True, ReadyAndSentDirty := True\<rparr>) [''disk''] True 5)"
    using assms(3) by (simp add: demoSys_def demo_eval)
  ultimately show ?thesis
    by (simp add: one_cycle_def runHook_def) (simp add: demoSys_def)
qed

lemma demo_pipe:
  fixes x :: "(mig_call, 'w) world_scheme"
  assumes "\<And>tr c. fails e tr c = None" and "onBeforeSuspend vf = None" "onAfterSuspend vf = None"
    and "suspendFunc vf (x\<lparr>trace := trace x @ [(StartMigrationTo True 0, True), (MigrateAll 4, True)]\<rparr>) = (Ok (), x1)"
    and "msyncFunc vf x1 = (Ok (), x2)"
  shows "wp (MigrateToPipe e one_cycle vf False i opt_demo [to_demo] None)
    (\<lambda>r s. r = Ok () \<and> trace (outer s) = trace x2 @ [(SendCustomData [], True), (DevicesCompleted, True)])
    \<lparr>suspended = False, suspendedCh_closed = False, calls = [], outer = x\<rparr>"
proof -
  let ?x = "x\<lparr>trace := trace x @ [(StartMigrationTo True 0, True), (MigrateAll 4, True)]\<rparr>"
  have start: "startDirty \<lparr>suspended = False, suspendedCh_closed = False, calls = [], outer = ?x\<rparr> (dirtyDevices [to_demo]) =
      demoSys False [] ?x demo_status [] False 0"
    by (simp add: demoSys_def to_eval demo_status_def)
  have "authTransfer e None x2 = (Ok (), x2\<lparr>trace := trace x2 @ [(SendCustomData [], True)]\<rparr>)"
    by (simp add: authTransfer_def act_def record_call_def assms(1))
  then obtain di where run: "one_cycle (dmFuncs vf (authTransfer e None)) (demoSys False [] ?x demo_status [] False 0) =
      (None, demoSys True [(SuspendFunc, True), (MsyncFunc, True), (AuthorityTransfer, True)]
        (x2\<lparr>trace := trace x2 @ [(SendCustomData [], True)]\<rparr>) di [''disk''] True 5)"
    using one_cycle_run[of "dmFuncs vf (authTransfer e None)" ?x x1 x2] assms(2-5) by auto
  show ?thesis
    by (simp add: MigrateToPipe_def go_wp assms(1) opt_demo_def start run)
      (simp add: demoSys_def vm_state.defs)
qed

lemma demo_migrates: "wp demo_migrate (\<lambda>r y. r = Ok () \<and> handovers (trace y) = 1) peer_start"
proof -
  obtain rt1 rt2 where rt: "rt_Suspend (rt_demo None) rc_demo rt_live = (Ok (), rt1)"
    "FlushData (rt_demo None) rc_demo rt1 = (Ok (), rt2)" by (rule demo_runtime_stops)
  let ?rp = "firecrackerRuntime (rt_demo None) rc_demo [] None"
  let ?x = "peer_start\<lparr>p_metrics := (p_metrics peer_start)(MigratingTo := 1)\<rparr>"
  let ?y = "?x\<lparr>trace := [(StartMigrationTo True 0, True), (MigrateAll 4, True)]\<rparr>"
  have start: "p_runtime peer_start = rt_live" "trace peer_start = []" "p_dmet peer_start = None" "\<not> p_met peer_start"
    by (simp_all add: peer_start_def from_sys.defs peer.defs)
  obtain y1 where y1: "suspendClosure ?rp ?y = (Ok (), y1)" "p_runtime y1 = rt1" "trace y1 = trace ?y"
    by (simp add: suspendClosure_def onRuntime_def firecrackerRuntime_def start rt setMetric_def go_defs)
  obtain y2 where y2: "flushClosure peer_demo ?rp y1 = (Ok (), y2)" "trace y2 = trace ?y"
    using y1(2,3) by (simp add: flushClosure_def onRuntime_def firecrackerRuntime_def rt addMetric_def go_defs)
  have pipe: "wp (MigrateToPipe peer_demo one_cycle \<lparr>suspendFunc = suspendClosure ?rp, msyncFunc = flushClosure peer_demo ?rp,
      onBeforeSuspend = None, onAfterSuspend = None\<rparr> False (p_instanceID peer_start) opt_demo [to_demo] None)
    (\<lambda>r s. r = Ok () \<and> trace (outer s) = trace y2 @ [(SendCustomData [], True), (DevicesCompleted, True)])
    \<lparr>suspended = False, suspendedCh_closed = False, calls = [], outer = ?x\<rparr>"
    by (rule demo_pipe[where ?x1.0 = y1]) (use y1(1) y2(1) start in simp_all)
  have same: "peer_start\<lparr>p_metrics := f, p_dmet := None\<rparr> = peer_start\<lparr>p_metrics := f\<rparr>" for f
    using start(3) by (cases peer_start) simp
  have "wp (onNewVMState (\<lambda>(vf, vm). MigrateToPipe peer_demo one_cycle vf False (p_instanceID peer_start) opt_demo [to_demo] None vm)
      (NewVMStateMgr (suspendClosure ?rp) (flushClosure peer_demo ?rp) None None))
     (\<lambda>r y. r = Ok () \<and> handovers (trace y) = 1) ?x"
    using pipe y2(2) by (auto simp: wp_def onNewVMState_def NewVMStateMgr_def handovers_def split: prod.splits)
  then show ?thesis
    unfolding MigrateTo_def setMetric_def suspendHook_def
    by (simp add: go_wp start same) (erule wp_mono, simp add: go_wp)
qed

theorem MigrateTo_hands_over_stopped_witness:
  "wp demo_migrate (\<lambda>r y. r = Ok () \<and> handovers (trace y) = 1 \<and> \<not> rt_running (p_runtime y)) peer_start"
proof -
  have "handovers (trace peer_start) = 0"
    by (simp add: peer_start_def from_sys.defs peer.defs handovers_def)
  then show ?thesis
    using wp_conj[OF demo_migrates MigrateTo_hands_over_stopped[OF one_cycle_hooks_only]]
    by (elim wp_mono) simp
qed

definition peer_idle :: "(empty_rt, unit) peer_scheme" where
  "peer_idle = from_sys.extend \<lparr>trace = [], protocolCancelled = False, ready_closed = False, customData = []\<rparr>
     (peer.fields True False None False [] \<lparr>er_HomePath = ''vm''\<rparr> ''vm'' 0 [] ''uuid-peer'' (\<lambda>_. 0) [])"

theorem MigrateFrom_outcomes_witness:
  "wp (MigrateFrom peer_demo emptyRuntime \<lparr>has_OnLocalAllDevicesRequested = True, has_OnCompletion = True,
       has_OnXferCustomData = False\<rparr> [] 1 0 (Inr [])) (\<lambda>r s'. r = Ok () \<and> p_metrics s' MigratingFrom = 1) peer_idle"
  by (rule wp_mono[OF MigrateFrom_outcomes]) simp

end
