(* ===== verification/PeerMain.thy ===== *)
theory PeerMain
  imports Peer
begin

text \<open>
  The program that runs a peer (\<^verbatim>\<open>cmd/drafter-peer/main.go\<close>, \<^verbatim>\<open>devices.go\<close>, \<^verbatim>\<open>net.go\<close>): it starts the peer, gets its
  devices from another peer or from files, resumes the machine, waits for a peer to send the machine to, and sends it.
  The parsed flags are a record. The state is the peer's with the variable that holds the connection to close. The
  runtime is made from the machine's configuration by a parameter, since the program chooses between two.
  Flag parsing, the metrics' web server, logging and the progress that is only logged are left out.
\<close>

section \<open>Devices\<close>

record composite_device =
  cmp_Name :: string
  cmp_Base :: string
  cmp_Overlay :: string
  cmp_State :: string
  cmp_BlockSize :: "32 word"
  cmp_Expiry :: int
  cmp_MaxDirtyBlocks :: int
  cmp_MinCycles :: int
  cmp_MaxCycles :: int
  cmp_CycleThrottle :: nat
  cmp_MakeMigratable :: bool
  cmp_Shared :: bool
  cmp_SharedBase :: bool
  cmp_S3Sync :: bool
  cmp_S3AccessKey :: string
  cmp_S3SecretKey :: string
  cmp_S3Endpoint :: string
  cmp_S3Secure :: bool
  cmp_S3Bucket :: string
  cmp_S3Concurrency :: int
  cmp_SkipSilo :: bool

text \<open>The devices used when none are configured, in nanoseconds where a field is a time; fields not named are zero.\<close>

definition defaultDevice :: "string \<Rightarrow> string \<Rightarrow> composite_device" where
  "defaultDevice name fn = \<lparr>cmp_Name = name, cmp_Base = filepath_Join [''out'', ''package'', fn],
     cmp_Overlay = filepath_Join [''out'', ''overlay'', fn], cmp_State = filepath_Join [''out'', ''state'', fn],
     cmp_BlockSize = 1024 * 64, cmp_Expiry = 1000000000, cmp_MaxDirtyBlocks = 200, cmp_MinCycles = 5,
     cmp_MaxCycles = 20, cmp_CycleThrottle = 500000000, cmp_MakeMigratable = True, cmp_Shared = False,
     cmp_SharedBase = False, cmp_S3Sync = False, cmp_S3AccessKey = [], cmp_S3SecretKey = [], cmp_S3Endpoint = [],
     cmp_S3Secure = False, cmp_S3Bucket = [], cmp_S3Concurrency = 0, cmp_SkipSilo = False\<rparr>"

definition getDefaultDevices :: "composite_device list" where
  "getDefaultDevices =
     [defaultDevice DeviceStateName ''state.bin'', defaultDevice DeviceMemoryName ''memory.bin'',
      defaultDevice DeviceKernelName ''vmlinux'', defaultDevice DeviceDiskName ''rootfs.ext4'',
      defaultDevice DeviceConfigName ''config.json'', defaultDevice ''oci'' ''oci.ext4'']"

definition fromComposite :: "composite_device \<Rightarrow> migrate_from_device" where
  "fromComposite d = \<lparr>mf_Name = cmp_Name d, mf_Base = cmp_Base d, mf_Overlay = cmp_Overlay d, mf_State = cmp_State d,
     mf_BlockSize = cmp_BlockSize d, mf_Shared = cmp_Shared d, mf_UseSparseFile = False, mf_AnyOrder = False,
     mf_UseWriteCache = False, mf_WriteCacheMin = [], mf_WriteCacheMax = [], mf_WriteCacheBlocksize = [],
     mf_SharedBase = cmp_SharedBase d, mf_SkipSilo = cmp_SkipSilo d, mf_S3Sync = cmp_S3Sync d,
     mf_S3AccessKey = cmp_S3AccessKey d, mf_S3SecretKey = cmp_S3SecretKey d, mf_S3Endpoint = cmp_S3Endpoint d,
     mf_S3Secure = cmp_S3Secure d, mf_S3Bucket = cmp_S3Bucket d, mf_S3Concurrency = cmp_S3Concurrency d,
     mf_S3Prefix = [], mf_S3OnlyDirty = False, mf_S3BlockShift = 2, mf_S3MaxAge = ''100ms'', mf_S3MinChanged = 4,
     mf_S3Limit = 256, mf_S3CheckPeriod = ''100ms''\<rparr>"

definition toComposite :: "composite_device \<Rightarrow> migrate_to_device" where
  "toComposite d = \<lparr>mt_Name = cmp_Name d, mt_MaxDirtyBlocks = cmp_MaxDirtyBlocks d, mt_MinCycles = cmp_MinCycles d,
     mt_MaxCycles = cmp_MaxCycles d, mt_CycleThrottle = cmp_CycleThrottle d\<rparr>"

definition migrateToDevices :: "composite_device list \<Rightarrow> migrate_to_device list" where
  "migrateToDevices devices = map toComposite (filter (\<lambda>d. cmp_MakeMigratable d \<and> \<not> cmp_Shared d) devices)"

section \<open>Flags and state\<close>

text \<open>\<open>fl_devices\<close> is the result of decoding the devices.\<close>

record peer_flags =
  fl_devices :: "goerr + composite_device list"
  fl_raddr :: string
  fl_laddr :: string
  fl_concurrency :: int
  fl_FirecrackerBin :: string
  fl_JailerBin :: string
  fl_ChrootBaseDir :: string
  fl_uid :: int
  fl_gid :: int
  fl_enableOutput :: bool
  fl_enableInput :: bool
  fl_netns :: string
  fl_numaNode :: int
  fl_cgroupVersion :: int
  fl_mockRuntime :: bool
  fl_serveMetrics :: bool

record cli_env = peer_env +
  foundPath :: "mig_trace \<Rightarrow> string"

text \<open>\<open>cli_closer\<close> is the variable \<open>closer\<close>: a connection by its number, or nil.\<close>

record 'r cli = "'r peer" +
  cli_closer :: "nat option"
  cli_conns :: nat

text \<open>Without input the machine's input is a pipe that only sends backspaces.\<close>

definition machineConfig :: "peer_flags \<Rightarrow> string \<Rightarrow> string \<Rightarrow> machine_config" where
  "machineConfig fl firecrackerBin jailerBin = \<lparr>mc_FirecrackerBin = firecrackerBin, mc_JailerBin = jailerBin,
     mc_ChrootBaseDir = fl_ChrootBaseDir fl, mc_UID = fl_uid fl, mc_GID = fl_gid fl, mc_NetNS = fl_netns fl,
     mc_NumaNode = fl_numaNode fl, mc_CgroupVersion = fl_cgroupVersion fl,
     mc_Stdout = (if fl_enableOutput fl then Some ''stdout'' else None),
     mc_Stderr = (if fl_enableOutput fl then Some ''stderr'' else None),
     mc_Stdin = (if fl_enableInput fl then Some ''stdin'' else if fl_mockRuntime fl then None else Some ''pusher''),
     mc_NoMapShared = False\<rparr>"

section \<open>Connections\<close>

definition newConn :: "(('r, 'z) cli_scheme, nat) go" where
  "newConn = reading cli_conns (\<lambda>n. andThen (update (\<lambda>s. s\<lparr>cli_conns := Suc n\<rparr>)) (\<lambda>_. ret n))"

definition connectAddr :: "('y) cli_env_scheme \<Rightarrow> string \<Rightarrow> (('r, 'z) cli_scheme, nat) go" where
  "connectAddr e addr = andThen (act e (DialAddr addr)) (\<lambda>_. newConn)"

text \<open>What the \<open>select\<close> finds first: the context is done, or the accepting goroutine has a result.\<close>

datatype listen_event = ListenCtxDone | AcceptDone

definition listenAddr :: "('y) cli_env_scheme \<Rightarrow> string \<Rightarrow> listen_event \<Rightarrow> (('r, 'z) cli_scheme, nat) go" where
  "listenAddr e addr ev = andThen (act e (ListenAddr addr)) (\<lambda>_.
     deferring (actIgnore e CloseListener) (case ev of
       ListenCtxDone \<Rightarrow> throw CtxCanceled
     | AcceptDone \<Rightarrow> andThen (act e AcceptConn) (\<lambda>_. newConn)))"

definition setCloser :: "nat option \<Rightarrow> (('r, 'z) cli_scheme, unit) go" where
  "setCloser c = update (\<lambda>s. s\<lparr>cli_closer := c\<rparr>)"

text \<open>The deferred close uses the variable as it is by then; its error is only logged.\<close>

definition closeCloser :: "('y) cli_env_scheme \<Rightarrow> (('r, 'z) cli_scheme, unit) go" where
  "closeCloser e = reading cli_closer (\<lambda>c. case c of
     None \<Rightarrow> panic NilDeref | Some n \<Rightarrow> actIgnore e (CloseConn n))"

section \<open>The program\<close>

text \<open>\<open>if err != nil { panic(err) }\<close>.\<close>

definition orCrash :: "('s, 'a) go \<Rightarrow> ('a \<Rightarrow> ('s, 'b) go) \<Rightarrow> ('s, 'b) go" where
  "orCrash m k = attempt m (\<lambda>r. case r of Inl x \<Rightarrow> panic x | Inr y \<Rightarrow> k y)"

definition mainHooks :: migrate_from_hooks where
  "mainHooks = \<lparr>has_OnLocalAllDevicesRequested = True, has_OnCompletion = True, has_OnXferCustomData = False\<rparr>"

text \<open>
  The goroutine that watches an incoming transfer runs beside the program, on nothing the program reads; it is
  given a place among the steps. With post-copy disabled the program waits for it before it resumes the machine,
  unless it is interrupted.
\<close>

datatype watched = BeforeResume | AfterResume | AtEnd

definition watchIf :: "('y) cli_env_scheme \<Rightarrow> bool \<Rightarrow> (('r, 'z) cli_scheme, unit) go" where
  "watchIf e now = whenM now (watchTransfer e mainHooks)"

definition serve ::
    "('y) cli_env_scheme \<Rightarrow> ('r, 'w) runtime_provider_scheme \<Rightarrow> peer_flags \<Rightarrow> composite_device list \<Rightarrow>
     ('r, 'z) cli_scheme silo_dirty \<Rightarrow> listen_event \<Rightarrow> (('r, 'z) cli_scheme, unit) go" where
  "serve e rp fl devices silo ev = attempt (listenAddr e (fl_laddr fl) ev) (\<lambda>r. case r of
     Inl x \<Rightarrow> andThen (setCloser None) (\<lambda>_. if x = CtxCanceled then ret () else panic x)
   | Inr c \<Rightarrow> andThen (setCloser (Some c)) (\<lambda>_. deferring (closeCloser e) (
       orCrash (MigrateTo e rp silo True True
         \<lparr>opt_Concurrency = fl_concurrency fl, opt_Compression = True, opt_CompressionType = 0\<rparr>
         (migrateToDevices devices) None) ret)))"

text \<open>\<open>n\<close> is the number of readers and of writers. The program ends when its context is done.\<close>

definition migrateAndServe ::
    "('y) cli_env_scheme \<Rightarrow> ('r, 'w) runtime_provider_scheme \<Rightarrow> peer_flags \<Rightarrow> composite_device list \<Rightarrow>
     ('r, 'z) cli_scheme silo_dirty \<Rightarrow> watched \<Rightarrow> goerr + string \<Rightarrow> listen_event \<Rightarrow> nat \<Rightarrow> (('r, 'z) cli_scheme, unit) go" where
  "migrateAndServe e rp fl devices silo w arrival ev n =
     orCrash (MigrateFrom e rp mainHooks (map fromComposite devices) n n arrival) (\<lambda>_.
     andThen (watchIf e (0 < n \<and> w = BeforeResume)) (\<lambda>_.
     orCrash (peer_Resume rp) (\<lambda>_.
     andThen (watchIf e (0 < n \<and> w = AfterResume)) (\<lambda>_.
     andThen (whenM (\<not> isBlank (fl_laddr fl)) (serve e rp fl devices silo ev)) (\<lambda>_.
     watchIf e (0 < n \<and> w = AtEnd))))))"

definition runPeer ::
    "('y) cli_env_scheme \<Rightarrow> ('r, 'w) runtime_provider_scheme \<Rightarrow> peer_flags \<Rightarrow> composite_device list \<Rightarrow>
     ('r, 'z) cli_scheme silo_dirty \<Rightarrow> watched \<Rightarrow> goerr + string \<Rightarrow> listen_event \<Rightarrow> (('r, 'z) cli_scheme, unit) go" where
  "runPeer e rp fl devices silo w arrival ev =
     andThen (setCloser None) (\<lambda>_. if fl_raddr fl \<noteq> [] then orCrash (connectAddr e (fl_raddr fl)) (\<lambda>c. andThen (setCloser (Some c)) (\<lambda>_.
        deferring (closeCloser e) (migrateAndServe e rp fl devices silo w arrival ev 1)))
      else migrateAndServe e rp fl devices silo w arrival ev 0)"

definition peer_main ::
    "('y) cli_env_scheme \<Rightarrow> (machine_config \<Rightarrow> ('r, 'w) runtime_provider_scheme) \<Rightarrow> peer_flags \<Rightarrow>
     ('r, 'z) cli_scheme silo_dirty \<Rightarrow> watched \<Rightarrow> goerr + string \<Rightarrow> listen_event \<Rightarrow> (('r, 'z) cli_scheme, unit) go" where
  "peer_main e mkRuntime fl silo w arrival ev = (case fl_devices fl of Inl x \<Rightarrow> panic x | Inr devices \<Rightarrow>
     orCrash (ask e (foundPath e) (LookPath (fl_FirecrackerBin fl))) (\<lambda>firecrackerBin.
     orCrash (ask e (foundPath e) (LookPath (fl_JailerBin fl))) (\<lambda>jailerBin.
     let rp = mkRuntime (machineConfig fl firecrackerBin jailerBin) in
     orCrash (StartPeer e rp True (fl_serveMetrics fl)
         (if fl_serveMetrics fl then Some NewDrafterMetrics else None) ''drafter_cli'') (\<lambda>_.
     deferring (orCrash (peer_Close e rp) ret) (runPeer e rp fl devices silo w arrival ev)))))"

section \<open>Interrupted while it listens\<close>

lemma orCrash_any:
  "(\<And>x t. wp (k x) Q t) \<Longrightarrow> (\<And>x t. Q (Panic x) t) \<Longrightarrow> wp (orCrash m k) Q s"
  unfolding orCrash_def wp_attempt by (rule wp_any) (simp_all add: go_wp)

lemma watchTransfer_quiet:
  fixes s :: "('r, 'z) cli_scheme"
  shows "wp (watchTransfer e hooks) (\<lambda>r t. r = Ok () \<and> cli_closer t = cli_closer s) s"
  by (simp add: watchTransfer_def setMetric_def backgroundErr_def callPeerHook_def go_wp split: option.split)

lemma watchIf_then:
  fixes s :: "('r, 'z) cli_scheme"
  assumes "\<And>t :: ('r, 'z) cli_scheme. cli_closer t = cli_closer s \<Longrightarrow> wp (k ()) Q t"
  shows "wp (andThen (watchIf e b) k) Q s"
  unfolding watchIf_def wp_andThen wp_whenM
  using assms by (auto intro!: wp_mono[OF watchTransfer_quiet])

definition crashesOrNil :: "unit res \<Rightarrow> ('r, 'z) cli_scheme \<Rightarrow> bool" where
  "crashesOrNil r s \<longleftrightarrow> (\<exists>x. r = Panic x) \<or> r = Ok () \<and> cli_closer s = None"

lemma serve_interrupted: "wp (serve e rp fl devices silo ListenCtxDone) crashesOrNil s"
  by (simp add: serve_def listenAddr_def setCloser_def crashesOrNil_def go_wp split: option.split)

lemma migrateAndServe_interrupted:
  fixes s :: "('r, 'z) cli_scheme"
  assumes "\<not> isBlank (fl_laddr fl)"
  shows "wp (migrateAndServe e rp fl devices silo w arrival ListenCtxDone n) crashesOrNil s"
proof -
  have last: "wp (watchIf e b) crashesOrNil t" if "cli_closer t = None" for b and t :: "('r, 'z) cli_scheme"
    unfolding watchIf_def
    by (cases b; simp add: whenM_def wp_ret that crashesOrNil_def)
      (rule wp_mono[OF watchTransfer_quiet], simp add: crashesOrNil_def that)
  have serve: "wp (andThen (serve e rp fl devices silo ListenCtxDone) (\<lambda>_. watchIf e b)) crashesOrNil t"
    for b and t :: "('r, 'z) cli_scheme"
    unfolding wp_andThen
    by (rule wp_mono[OF serve_interrupted], rename_tac r t, case_tac r) (simp_all add: crashesOrNil_def last)
  have crash: "crashesOrNil (Panic x) t" for x and t :: "('r, 'z) cli_scheme"
    by (simp add: crashesOrNil_def)
  show ?thesis
    unfolding migrateAndServe_def whenM_def if_P[OF assms]
    by (intro orCrash_any watchIf_then serve crash)
qed

text \<open>
  C24. A peer that got its machine from another peer crashes when it is interrupted while it waits to send the machine
  on: the variable with the connection to close is nil by then, and the deferred close of the first connection uses
  it. With both addresses set and the wait ended by the interrupt, the program never ends without a panic.
\<close>

theorem interrupted_peer_crashes:
  fixes s :: "('r, 'z) cli_scheme"
  assumes "fl_raddr fl \<noteq> []" and "\<not> isBlank (fl_laddr fl)"
  shows "wp (peer_main e mkRuntime fl silo w arrival ListenCtxDone) (\<lambda>r _. \<exists>x. r = Panic x) s"
proof -
  have run: "wp (runPeer e rp fl devices silo w arrival ListenCtxDone) (\<lambda>r _. \<exists>x. r = Panic x) t" for rp devices and t :: "('r, 'z) cli_scheme"
  proof -
    have conn: "wp (deferring (closeCloser e) (migrateAndServe e rp fl devices silo w arrival ListenCtxDone 1)) (\<lambda>r _. \<exists>x. r = Panic x) t"
      for t :: "('r, 'z) cli_scheme"
      unfolding wp_deferring
      by (rule wp_mono[OF migrateAndServe_interrupted[OF assms(2)]])
        (auto simp: crashesOrNil_def closeCloser_def go_wp split: option.split)
    show ?thesis
      unfolding runPeer_def if_P[OF assms(1)] setCloser_def wp_andThen wp_update thenQ.simps
      by (rule orCrash_any) (simp_all only: wp_andThen wp_update thenQ.simps conn, simp)
  qed
  have deferred: "wp (deferring d (runPeer e rp fl devices silo w arrival ListenCtxDone)) (\<lambda>r _. \<exists>x. r = Panic x) t"
    for d rp devices and t :: "('r, 'z) cli_scheme"
    unfolding wp_deferring
    by (rule wp_mono[OF run]) (auto simp: deferQ_def intro!: wp_any)
  show ?thesis
  proof (cases "fl_devices fl")
    case (Inr devices)
    show ?thesis
      unfolding peer_main_def Let_def Inr sum.case by (intro orCrash_any deferred) auto
  qed (simp add: peer_main_def go_wp)
qed

section \<open>The machine that was sent has stopped\<close>

text \<open>\<open>handed n\<close>: authority was handed over \<open>n\<close> times; \<open>safeAfter n\<close>: if it was handed over since, the machine is stopped.\<close>

definition handed :: "nat \<Rightarrow> ('r, 'z) peer_scheme \<Rightarrow> bool" where
  "handed n s \<longleftrightarrow> handovers (trace s) = n"

definition safeAfter :: "('r \<Rightarrow> bool) \<Rightarrow> nat \<Rightarrow> ('r, 'z) peer_scheme \<Rightarrow> bool" where
  "safeAfter stopped n s \<longleftrightarrow> handovers (trace s) = n \<or> stopped (p_runtime s)"

lemma safe_fields [simp]:
  fixes s :: "('r, 'z) cli_scheme"
  shows "handed n (p_metrics_update f1 s) = handed n s" "handed n (p_dmet_update f2 s) = handed n s"
    "handed n (p_dg_update f3 s) = handed n s" "handed n (p_devices_update f4 s) = handed n s"
    "handed n (p_VMPath_update f5 s) = handed n s" "handed n (p_VMPid_update f6 s) = handed n s"
    "handed n (p_backgroundErr_update f7 s) = handed n s" "handed n (p_hooksCalled_update f8 s) = handed n s"
    "handed n (p_runtime_update f9 s) = handed n s" "handed n (cli_closer_update f10 s) = handed n s"
    "handed n (cli_conns_update f11 s) = handed n s" "handed n (protocolCancelled_update f12 s) = handed n s"
    "handed n (ready_closed_update f13 s) = handed n s" "handed n (customData_update f14 s) = handed n s"
    "handed n (p_log_update f15 s) = handed n s" "handed n (p_met_update f16 s) = handed n s"
    "handed n (p_instanceID_update f17 s) = handed n s"
  and "safeAfter st n (p_metrics_update f1 s) = safeAfter st n s" "safeAfter st n (p_dmet_update f2 s) = safeAfter st n s"
    "safeAfter st n (p_dg_update f3 s) = safeAfter st n s" "safeAfter st n (p_backgroundErr_update f7 s) = safeAfter st n s"
    "safeAfter st n (p_hooksCalled_update f8 s) = safeAfter st n s" "safeAfter st n (cli_closer_update f10 s) = safeAfter st n s"
    "safeAfter st n (protocolCancelled_update f12 s) = safeAfter st n s"
  by (simp_all add: handed_def safeAfter_def)

lemma safe_trace [simp]:
  assumes "\<And>d. c \<noteq> SendCustomData d"
  shows "handed n (trace_update (\<lambda>t. t @ [(c, b)]) s) = handed n s"
    "safeAfter st n (trace_update (\<lambda>t. t @ [(c, b)]) s) = safeAfter st n s"
  using assms by (auto simp: handed_def safeAfter_def split: mig_call.split)

lemma stays_onRuntime: "(\<And>s x. I s \<Longrightarrow> I (p_runtime_update (\<lambda>_. x) s)) \<Longrightarrow> stays_inv I (onRuntime m)"
  by (auto simp: stays_inv_def onRuntime_def split: prod.splits)

lemma stays_orCrash [stays]: "stays_inv I m \<Longrightarrow> (\<And>x. stays_inv I (k x)) \<Longrightarrow> stays_inv I (orCrash m k)"
  unfolding orCrash_def by (intro stays; assumption)

lemma stays_handed [stays]:
  fixes n :: nat
  defines "I \<equiv> (handed n :: ('r, 'z) cli_scheme \<Rightarrow> bool)"
  shows "stays_inv I (StartPeer e rp log met dmet i)" "stays_inv I (MigrateFrom e rp hooks devices nr nw arrival)"
    "stays_inv I (peer_Resume rp)" "stays_inv I (watchIf ce now)" "stays_inv I (connectAddr ce addr)"
    "stays_inv I (listenAddr ce addr ev)" "stays_inv I (setCloser c)" "stays_inv I (closeCloser ce)"
proof -
  have fs: "stays_inv I (MigrateFromFS e i p ds tw)" for i p ds tw
    unfolding I_def by (rule stays_MigrateFromFS) simp
  have pipe: "stays_inv I (MigrateFromPipe e met i p cdh arrival)" for met i p cdh
    unfolding I_def by (rule stays_MigrateFromPipe) simp_all
  show "stays_inv I (StartPeer e rp log met dmet i)"
    unfolding StartPeer_def I_def by (intro stays stays_onRuntime; simp)
  show "stays_inv I (MigrateFrom e rp hooks devices nr nw arrival)"
    unfolding MigrateFrom_def migrateFromPeer_def migrateFromLocal_def setMetric_def setDG_def callPeerHook_def
    by (intro stays stays_onRuntime fs pipe; simp add: I_def)
  show "stays_inv I (peer_Resume rp)"
    unfolding peer_Resume_def setMetric_def I_def by (intro stays stays_onRuntime; simp)
  show "stays_inv I (watchIf ce now)"
    unfolding watchIf_def watchTransfer_def setMetric_def backgroundErr_def callPeerHook_def I_def by (intro stays stays_onRuntime; simp)
  show "stays_inv I (connectAddr ce addr)"
    unfolding connectAddr_def newConn_def I_def by (intro stays stays_onRuntime; simp)
  show "stays_inv I (listenAddr ce addr ev)"
    unfolding listenAddr_def newConn_def I_def by (cases ev; simp) (intro stays; simp)+
  show "stays_inv I (setCloser c)" "stays_inv I (closeCloser ce)"
    unfolding setCloser_def closeCloser_def I_def by (intro stays stays_onRuntime; simp)+
qed

lemma stays_safeAfter [stays]:
  "stays_inv (safeAfter st n :: ('r, 'z) cli_scheme \<Rightarrow> bool) (watchIf e now)"
  "stays_inv (safeAfter st n :: ('r, 'z) cli_scheme \<Rightarrow> bool) (setCloser c)"
  "stays_inv (safeAfter st n :: ('r, 'z) cli_scheme \<Rightarrow> bool) (closeCloser e)"
  unfolding watchIf_def watchTransfer_def setMetric_def backgroundErr_def callPeerHook_def setCloser_def closeCloser_def
  by (intro stays; simp)+

lemma handed_safe: "handed n s \<Longrightarrow> safeAfter st n s"
  by (simp add: handed_def safeAfter_def)

text \<open>From the first phase, in which nothing is handed over, to the second, which keeps the machine stopped.\<close>

lemma phase_andThen:
  assumes "stays_inv (handed n) m" and "handed n s" and "\<And>x t. handed n t \<Longrightarrow> wp (k x) (\<lambda>_. safeAfter st n) t"
  shows "wp (andThen m k) (\<lambda>_. safeAfter st n) s"
  unfolding wp_andThen
  by (rule stays_wp[OF assms(1,2)], rename_tac r t, case_tac r) (simp_all add: assms(3) handed_safe)

lemma phase_orCrash:
  assumes "stays_inv (handed n) m" and "handed n s" and "\<And>x t. handed n t \<Longrightarrow> wp (k x) (\<lambda>_. safeAfter st n) t"
  shows "wp (orCrash m k) (\<lambda>_. safeAfter st n) s"
  unfolding orCrash_def wp_attempt
  by (rule stays_wp[OF assms(1,2)], rename_tac r t, case_tac r) (simp_all add: assms(3) handed_safe wp_panic)

lemma then_safe:
  assumes "wp m (\<lambda>_. safeAfter st n) s" and "\<And>x. stays_inv (safeAfter st n) (k x)"
  shows "wp (andThen m k) (\<lambda>_. safeAfter st n) s" "wp (orCrash m k) (\<lambda>_. safeAfter st n) s"
proof -
  have "wp (k x) (\<lambda>_. safeAfter st n) t" if "safeAfter st n t" for x t
    by (rule stays_wp[OF assms(2) that])
  then show "wp (andThen m k) (\<lambda>_. safeAfter st n) s" "wp (orCrash m k) (\<lambda>_. safeAfter st n) s"
    unfolding orCrash_def wp_andThen wp_attempt
    by (rule_tac wp_mono[OF assms(1)], rename_tac r t, case_tac r, simp_all add: wp_panic)+
qed

lemma defer_safe:
  assumes "wp m (\<lambda>_. safeAfter st n) s" and "stays_inv (safeAfter st n) d"
  shows "wp (deferring d m) (\<lambda>_. safeAfter st n) s"
  unfolding wp_deferring
  by (rule wp_mono[OF assms(1)], unfold deferQ_def, rule stays_wp[OF assms(2)], assumption)
    (rename_tac r t r' t', case_tac r', simp_all)

context peer_contract
begin

lemma stays_closing:
  "stays_inv (safeAfter stopped n :: ('r, 'z) cli_scheme \<Rightarrow> bool) (orCrash (peer_Close e rp) ret)"
proof -
  have close: "stays_inv (safeAfter stopped n :: ('r, 'z) cli_scheme \<Rightarrow> bool) (onRuntime (rp_Close rp))"
    using close_keeps by (auto simp: stays_inv_def onRuntime_def safeAfter_def split: prod.splits)
  show ?thesis
    unfolding peer_Close_def closeDG_def logClosingError_def returnErr_def
    by (intro stays close; simp)
qed

lemma serve_safe:
  fixes s :: "('r, 'z) cli_scheme"
  assumes "\<And>df s. (dm_step df)\<^sup>*\<^sup>* s (snd (silo df s))" and "handed n s"
  shows "wp (serve e rp fl devices silo ev) (\<lambda>_. safeAfter stopped n) s"
proof -
  have migrate: "wp (MigrateTo e rp silo b a opts ds payload) (\<lambda>_. safeAfter stopped n) t"
    if "handed n t" for b a opts ds payload and t :: "('r, 'z) cli_scheme"
    by (rule wp_mono[OF MigrateTo_wp[OF assms(1)]]) (use that in \<open>auto simp: handed_def safeAfter_def peer_stopped_def\<close>)
  have away: "wp (andThen (setCloser (Some c)) (\<lambda>_. deferring (closeCloser e)
      (orCrash (MigrateTo e rp silo b a opts ds payload) ret))) (\<lambda>_. safeAfter stopped n) t"
    if "handed n t" for c b a opts ds payload and t :: "('r, 'z) cli_scheme"
    by (rule phase_andThen[OF _ that])
      (intro stays defer_safe then_safe migrate; assumption?)+
  have fails: "wp (andThen (setCloser None) (\<lambda>_. if x = CtxCanceled then ret () else panic x)) (\<lambda>_. safeAfter stopped n) t"
    if "handed n t" for x and t :: "('r, 'z) cli_scheme"
    using that by (simp add: setCloser_def go_wp handed_safe)
  show ?thesis
    unfolding serve_def wp_attempt
    by (rule stays_wp[OF stays_handed(6) assms(2)], rename_tac r t, case_tac r)
      (simp_all add: away fails handed_safe)
qed

lemma migrateAndServe_safe:
  fixes s :: "('r, 'z) cli_scheme"
  assumes "\<And>df s. (dm_step df)\<^sup>*\<^sup>* s (snd (silo df s))" and "handed n s"
  shows "wp (migrateAndServe e rp fl devices silo w arrival ev k) (\<lambda>_. safeAfter stopped n) s"
proof -
  have serving: "wp (andThen (whenM b (serve e rp fl devices silo ev)) (\<lambda>_. watchIf e now)) (\<lambda>_. safeAfter stopped n) t"
    if "handed n t" for b now and t :: "('r, 'z) cli_scheme"
  proof (cases b)
    case True
    show ?thesis
      unfolding whenM_def if_P[OF True]
      by (rule then_safe(1)[OF serve_safe[OF assms(1) that]]) (rule stays_safeAfter)
  next
    case False
    show ?thesis
      unfolding whenM_def if_not_P[OF False]
      by (rule phase_andThen[OF stays_basic(1) that], rule stays_wp[OF stays_safeAfter(1) handed_safe]) assumption+
  qed
  show ?thesis
    unfolding migrateAndServe_def
    by (rule phase_orCrash[OF _ assms(2)] phase_andThen phase_orCrash stays_handed serving | assumption)+
qed

lemma runPeer_safe:
  fixes s :: "('r, 'z) cli_scheme"
  assumes "\<And>df s. (dm_step df)\<^sup>*\<^sup>* s (snd (silo df s))" and "handed n s"
  shows "wp (deferring (orCrash (peer_Close e rp) ret) (runPeer e rp fl devices silo w arrival ev)) (\<lambda>_. safeAfter stopped n) s"
proof (rule defer_safe[OF _ stays_closing])
  have run: "wp (migrateAndServe e rp fl devices silo w arrival ev k) (\<lambda>_. safeAfter stopped n) t"
    if "handed n t" for k and t :: "('r, 'z) cli_scheme"
    by (rule migrateAndServe_safe[OF assms(1) that])
  have dialled: "wp (orCrash (connectAddr e addr) (\<lambda>c. andThen (setCloser (Some c)) (\<lambda>_. deferring (closeCloser e)
      (migrateAndServe e rp fl devices silo w arrival ev k)))) (\<lambda>_. safeAfter stopped n) t"
    if "handed n t" for addr k and t :: "('r, 'z) cli_scheme"
    by (rule phase_orCrash[OF stays_handed(5) that], rule phase_andThen[OF stays_handed(7)], assumption,
        rule defer_safe[OF run stays_safeAfter(3)])
  show "wp (runPeer e rp fl devices silo w arrival ev) (\<lambda>_. safeAfter stopped n) s"
    unfolding runPeer_def
    by (rule phase_andThen[OF stays_handed(7) assms(2)]) (cases "fl_raddr fl \<noteq> []", simp_all add: run dialled)
qed

end

text \<open>
  C3. The program never leaves a machine running that it has handed over. With the Firecracker runtime, if Silo does
  nothing to the outgoing migration but run its hooks, in any interleaving, then however the program ends, with every
  deferred close done: if custom data was sent to the other peer, the machine here is not running.
\<close>

theorem peer_main_leaves_it_stopped:
  fixes s :: "('w rt_sys_scheme, 'z) cli_scheme"
  assumes "\<And>df s. (dm_step df)\<^sup>*\<^sup>* s (snd (silo df s))"
  shows "wp (peer_main e (\<lambda>conf. firecrackerRuntime fe (c\<lparr>rc_Machine := conf\<rparr>) evs exit) fl silo w arrival ev)
     (\<lambda>_ t. handovers (trace t) \<noteq> handovers (trace s) \<longrightarrow> \<not> rt_running (p_runtime t)) s"
proof -
  let ?n = "handovers (trace s)" and ?stopped = "\<lambda>x :: 'w rt_sys_scheme. \<not> rt_running x"
  have "handed ?n s" by (simp add: handed_def)
  have found: "stays_inv (handed ?n :: ('w rt_sys_scheme, 'z) cli_scheme \<Rightarrow> bool) (ask e (foundPath e) (LookPath p))" for p
    by (intro stays) simp
  have "wp (peer_main e (\<lambda>conf. firecrackerRuntime fe (c\<lparr>rc_Machine := conf\<rparr>) evs exit) fl silo w arrival ev)
     (\<lambda>_. safeAfter ?stopped ?n) s"
  proof (cases "fl_devices fl")
    case (Inr devices)
    show ?thesis
      unfolding peer_main_def Let_def Inr sum.case
      by (rule phase_orCrash[OF found \<open>handed ?n s\<close>] phase_orCrash[OF found] phase_orCrash[OF stays_handed(1)]
          firecracker.runPeer_safe[OF assms] | assumption)+
  qed (simp add: peer_main_def go_wp handed_safe[OF \<open>handed ?n s\<close>])
  then show ?thesis
    by (rule wp_mono) (unfold safeAfter_def, blast)
qed

section \<open>Examples\<close>

text \<open>The default devices are the known ones and the container image, each once, and all can be migrated.\<close>

lemma default_devices:
  "set (map cmp_Name getDefaultDevices) = insert DeviceOCIName (set KnownNames)" "distinct (map cmp_Name getDefaultDevices)"
  "map mt_Name (migrateToDevices getDefaultDevices) = map cmp_Name getDefaultDevices"
  by (auto simp: getDefaultDevices_def defaultDevice_def migrateToDevices_def toComposite_def KnownNames_def
      DeviceStateName_def DeviceMemoryName_def DeviceKernelName_def DeviceDiskName_def DeviceConfigName_def DeviceOCIName_def)

definition flags_demo :: peer_flags where
  "flags_demo = \<lparr>fl_devices = Inr getDefaultDevices, fl_raddr = ''other:1337'', fl_laddr = ''here:1337'',
     fl_concurrency = 1024, fl_FirecrackerBin = ''firecracker'', fl_JailerBin = ''jailer'', fl_ChrootBaseDir = ''out/vms'',
     fl_uid = 0, fl_gid = 0, fl_enableOutput = True, fl_enableInput = False, fl_netns = ''ark0'', fl_numaNode = 0,
     fl_cgroupVersion = 2, fl_mockRuntime = True, fl_serveMetrics = False\<rparr>"

definition cli_demo :: cli_env where
  "cli_demo = peer_env.extend peer_demo \<lparr>foundPath = (\<lambda>_. ''/usr/bin/firecracker'')\<rparr>"

definition cli_idle :: "(empty_rt, unit) cli_scheme" where
  "cli_idle = peer.extend peer_idle (cli.fields None 0)"

definition cli_start :: "(rt_sys, unit) cli_scheme" where
  "cli_start = peer.extend peer_start (cli.fields None 0)"

lemma flags_demo_set: "fl_raddr flags_demo \<noteq> []" "\<not> isBlank (fl_laddr flags_demo)"
proof -
  have "\<not> isBlank ''here:1337''" by code_simp
  then show "fl_raddr flags_demo \<noteq> []" "\<not> isBlank (fl_laddr flags_demo)" by (simp_all add: flags_demo_def)
qed

theorem interrupted_peer_crashes_witness:
  "\<exists>x s. peer_main cli_demo (\<lambda>_. emptyRuntime) flags_demo (\<lambda>df s. (None, s)) BeforeResume (Inr []) ListenCtxDone cli_idle
     = (Panic x, s)"
  using interrupted_peer_crashes[OF flags_demo_set, of cli_demo "\<lambda>_. emptyRuntime" "\<lambda>df s. (None, s)" BeforeResume "Inr []" cli_idle]
  by (auto simp: wp_def split: prod.splits)

theorem peer_main_leaves_it_stopped_witness:
  "\<exists>r t. peer_main cli_demo (\<lambda>conf. firecrackerRuntime (rt_demo None) (rc_demo\<lparr>rc_Machine := conf\<rparr>) [Tick] None)
       flags_demo one_cycle BeforeResume (Inr []) AcceptDone cli_start = (r, t) \<and>
     (handovers (trace t) \<noteq> handovers (trace cli_start) \<longrightarrow> \<not> rt_running (p_runtime t))"
  using peer_main_leaves_it_stopped[of one_cycle cli_demo "rt_demo None" rc_demo "[Tick]" None flags_demo BeforeResume
      "Inr []" AcceptDone cli_start, OF one_cycle_hooks_only]
  unfolding wp_def by (auto split: prod.splits)

end
