(* ===== verification/Liveness.thy ===== *)
theory Liveness
  imports Machine
begin

text \<open>
  The liveness server (\<^verbatim>\<open>pkg/ipc/liveness.go\<close>): a socket on which the guest reports, once, that it is up.
  The state also holds the regular files of the host, which the snapshotter reads and writes; sockets are
  not among them.
\<close>

section \<open>State\<close>

record host_sys = fc_machine +
  lv_path :: string
  lv_lis :: bool                 \<comment> \<open>the listener is not nil\<close>
  lv_closed :: bool
  hostFiles :: "string \<rightharpoonup> string"

definition portPath :: "string \<Rightarrow> 32 word \<Rightarrow> string" where
  "portPath p port = p @ ''_'' @ show_nat (unat port)"

section \<open>Operations\<close>

definition NewLivenessServer :: "string \<Rightarrow> 32 word \<Rightarrow> (('z) host_sys_scheme, unit) go" where
  "NewLivenessServer p port =
     update (\<lambda>s. s\<lparr>lv_path := portPath p port, lv_lis := False, lv_closed := False\<rparr>)"

definition Liveness_Open :: "('y) fc_env_scheme \<Rightarrow> (('z) host_sys_scheme, string) go" where
  "Liveness_Open e = reading lv_path (\<lambda>p.
     attempt (act e (OpenLiveness p)) (\<lambda>r. case r of
       Inl x \<Rightarrow> andThen (update (\<lambda>s. s\<lparr>lv_lis := False\<rparr>)) (\<lambda>_.
         throw (Joined [LivenessErr ErrCouldNotListenInLivenessServer, x]))
     | Inr _ \<Rightarrow> andThen (update (\<lambda>s. s\<lparr>lv_lis := True\<rparr>)) (\<lambda>_. ret p)))"

text \<open>The socket's file is removed first; both errors are dropped.\<close>

definition Liveness_Close :: "('y) fc_env_scheme \<Rightarrow> (('z) host_sys_scheme, unit) go" where
  "Liveness_Close e =
     andThen (update (\<lambda>s. s\<lparr>lv_closed := True\<rparr>)) (\<lambda>_.
     reading lv_path (\<lambda>p. andThen (actIgnore e (RemoveFile p)) (\<lambda>_.
     reading lv_lis (\<lambda>lis. whenM lis (actIgnore e CloseLiveness)))))"

text \<open>
  What the \<open>select\<close> finds first: the context is done, or the accepting goroutine has a result. The
  goroutine uses the listener at once, and crashes the program when it is nil.
\<close>

datatype recv_event = RecvCtxDone goerr | AcceptReturned

definition Liveness_ReceiveAndClose ::
    "('y) fc_env_scheme \<Rightarrow> recv_event \<Rightarrow> (('z) host_sys_scheme, unit) go" where
  "Liveness_ReceiveAndClose e ev = reading lv_lis (\<lambda>lis. if \<not> lis then panic NilDeref else
     deferring (Liveness_Close e) (case ev of
       RecvCtxDone x \<Rightarrow> throw (Joined [LivenessErr ErrLivenessServerContextCancelled, x])
     | AcceptReturned \<Rightarrow> attempt (act e ReceiveLiveness) (\<lambda>r. case r of
         Inr _ \<Rightarrow> ret ()
       | Inl x \<Rightarrow> reading lv_closed (\<lambda>closed.
           if closed \<and> errors_Is NetErrClosed x then ret ()
           else throw (Joined [LivenessErr ErrCouldNotAcceptLivenessClient, x])))))"

section \<open>What receiving says\<close>

lemma Liveness_Close_run:
  "wp (Liveness_Close e) (\<lambda>r s'. r = Ok () \<and> lv_closed s' \<and> lv_path s' = lv_path s \<and>
     hostFiles s' = hostFiles s \<and> VMPath s' = VMPath s \<and> prefix (trace s) (trace s') \<and>
     (RemoveFile (lv_path s) \<in> set (called s'))) s"
  by (simp add: Liveness_Close_def go_wp called_def)

text \<open>
  The guest is reported up only if it connected, or if the server was closed meanwhile; in every case the
  server is closed afterwards and its socket removed.
\<close>

lemma ReceiveAndClose_result:
  fixes s :: "('z) host_sys_scheme"
  assumes "lv_lis s"
  shows "wp (Liveness_ReceiveAndClose e ev) (\<lambda>r s'. lv_closed s' \<and> RemoveFile (lv_path s) \<in> set (called s') \<and>
     (r = Ok () \<longrightarrow> ev = AcceptReturned \<and> ((ReceiveLiveness, True) \<in> set (trace s') \<or> lv_closed s))) s"
  using assms
  by (cases ev) (auto simp: Liveness_ReceiveAndClose_def Liveness_Close_def called_def go_wp split: option.splits)

end
