(* ===== verification/Snapshot.thy ===== *)
theory Snapshot
  imports Runtime Liveness
begin

text \<open>
  Making a snapshot (\<^verbatim>\<open>pkg/runtimes/firecracker/snapshotter.go\<close>): a machine is started from the devices'
  files, the guest reports that it is up and is told to prepare, the machine's state and memory are saved, and
  every device is copied out with padding. Files are kept under their path as it is written. The agent's
  server is one call each to start, ask and close.
\<close>

section \<open>Configuration\<close>

record snapshot_device =
  sd_Name :: string
  sd_Input :: string
  sd_Output :: string

text \<open>Only the ports are used; the timeouts are in the events a wait ends with.\<close>

record liveness_config =
  LivenessVSockPort :: "32 word"

record agent_config =
  AgentVSockPort :: "32 word"

definition VSockCIDGuest :: int where "VSockCIDGuest = 3"

text \<open>
  What the machine writes into its directory until its snapshot is made, and how much a copy or a write that
  failed has written.
\<close>

record snap_env = fc_env +
  vmWrites :: "fc_trace \<Rightarrow> string \<rightharpoonup> string"
  partlyCopied :: "fc_trace \<Rightarrow> nat"

section \<open>Files\<close>

definition putHost :: "string \<Rightarrow> string \<Rightarrow> (('z) host_sys_scheme, unit) go" where
  "putHost p d = update (\<lambda>s. s\<lparr>hostFiles := (hostFiles s)(p \<mapsto> d)\<rparr>)"

text \<open>A file that is not there cannot be opened.\<close>

definition openHost :: "('y) snap_env_scheme \<Rightarrow> string \<Rightarrow> (('z) host_sys_scheme, unit) go" where
  "openHost e p = andThen (act e (OpenFile p)) (\<lambda>_.
     reading (\<lambda>s. hostFiles s p) (\<lambda>f. case f of
       None \<Rightarrow> throw (Plain ''no such file or directory'') | Some _ \<Rightarrow> ret ()))"

text \<open>
  \<open>io.Copy\<close> from an open file to an empty one. The data is read when it is copied, after the output was
  truncated; what a failed copy leaves is a part of it.
\<close>

definition copyHost :: "('y) snap_env_scheme \<Rightarrow> string \<Rightarrow> string \<Rightarrow> (('z) host_sys_scheme, nat) go" where
  "copyHost e src dst = reading (\<lambda>s. (trace s, hostFiles s src)) (\<lambda>(tr, f).
     let data = (case f of None \<Rightarrow> [] | Some d \<Rightarrow> d) in
     attempt (act e (CopyFile src dst)) (\<lambda>r. case r of
       Inl x \<Rightarrow> andThen (putHost dst (take (partlyCopied e tr) data)) (\<lambda>_. throw x)
     | Inr _ \<Rightarrow> andThen (putHost dst data) (\<lambda>_. ret (length data))))"

definition copyFile ::
    "('y) snap_env_scheme \<Rightarrow> string \<Rightarrow> string \<Rightarrow> int \<Rightarrow> int \<Rightarrow> (('z) host_sys_scheme, nat) go" where
  "copyFile e src dst uid gid =
     wrapErr (SnapshotterErr ErrCouldNotCreateDestinationFile) (act e (CreateFile dst)) (\<lambda>_.
     andThen (putHost dst []) (\<lambda>_.
     attempt (openHost e src) (\<lambda>r. case r of
       Inl x \<Rightarrow> andThen (actIgnore e (CloseFile dst)) (\<lambda>_.
         throw (Joined [SnapshotterErr ErrCouldNotOpenSourceFile, x]))
     | Inr _ \<Rightarrow> attempt (copyHost e src dst) (\<lambda>r. andThen (actIgnore e (CloseFile src)) (\<lambda>_. case r of
         Inl x \<Rightarrow> andThen (actIgnore e (CloseFile dst)) (\<lambda>_.
           throw (Joined [SnapshotterErr ErrCouldNotCopyFileContent, x]))
       | Inr n \<Rightarrow> wrapErr (SnapshotterErr ErrCouldNotCopyFileContent) (act e (CloseFile dst)) (\<lambda>_.
           wrapErr (SnapshotterErr ErrCouldNotChangeFileOwner) (act e (Chown dst uid gid)) (\<lambda>_. ret n)))))))"

section \<open>Copying the devices out\<close>

text \<open>
  \<open>deviceSize\<close> is not negative and far below \<open>2 ^ 63\<close>, so the \<open>int64\<close> arithmetic is that of the
  natural numbers.
\<close>

definition paddingLength :: "nat \<Rightarrow> nat" where
  "paddingLength deviceSize =
     (let minPadding = 1024 * 1024; paddingMultiple = 1024 * 1024;
          paddingLength = paddingMultiple - deviceSize mod paddingMultiple
      in if paddingLength < minPadding then paddingLength + minPadding else paddingLength)"

definition zeros :: "nat \<Rightarrow> string" where
  "zeros n = replicate n (CHR 0x00)"

definition writePadding :: "('y) snap_env_scheme \<Rightarrow> string \<Rightarrow> nat \<Rightarrow> (('z) host_sys_scheme, unit) go" where
  "writePadding e p n = reading (\<lambda>s. (trace s, case hostFiles s p of None \<Rightarrow> [] | Some d \<Rightarrow> d)) (\<lambda>(tr, data).
     attempt (act e (WriteFile p)) (\<lambda>r. case r of
       Inl x \<Rightarrow> andThen (putHost p (data @ take (partlyCopied e tr) (zeros n))) (\<lambda>_. throw x)
     | Inr _ \<Rightarrow> putHost p (data @ zeros n)))"

definition copySnapshotFile ::
    "('y) snap_env_scheme \<Rightarrow> string \<Rightarrow> snapshot_device \<Rightarrow> (('z) host_sys_scheme, unit) go" where
  "copySnapshotFile e vmPath d = (let out = sd_Output d; inp = filepath_Join [vmPath, sd_Name d] in
     wrapErr (PackageErr ErrCouldNotCreateOutputDir) (act e (MakeDir (filepath_Dir out))) (\<lambda>_.
     wrapErr (SnapshotterErr ErrCouldNotCreateOutputFile) (act e (CreateFile out)) (\<lambda>_.
     andThen (putHost out []) (\<lambda>_.
     attempt (openHost e inp) (\<lambda>r. case r of
       Inl x \<Rightarrow> andThen (actIgnore e (CloseFile out)) (\<lambda>_.
         throw (Joined [SnapshotterErr ErrCouldNotOpenInputFile, x]))
     | Inr _ \<Rightarrow> attempt (copyHost e inp out) (\<lambda>r. andThen (actIgnore e (CloseFile inp)) (\<lambda>_. case r of
         Inl x \<Rightarrow> andThen (actIgnore e (CloseFile out)) (\<lambda>_.
           throw (Joined [SnapshotterErr ErrCouldNotCopyFile, x]))
       | Inr deviceSize \<Rightarrow>
           attempt (whenM (0 < paddingLength deviceSize) (writePadding e out (paddingLength deviceSize))) (\<lambda>r. case r of
             Inl x \<Rightarrow> andThen (actIgnore e (CloseFile out)) (\<lambda>_.
               throw (Joined [SnapshotterErr ErrCouldNotWritePadding, x]))
           | Inr _ \<Rightarrow> wrapErr (SnapshotterErr ErrCouldNotCreateOutputFile) (act e (CloseFile out)) ret))))))))"

definition copySnapshotFiles ::
    "('y) snap_env_scheme \<Rightarrow> snapshot_device list \<Rightarrow> string \<Rightarrow> (('z) host_sys_scheme, unit) go" where
  "copySnapshotFiles e devices vmPath = forEach devices (copySnapshotFile e vmPath)"

section \<open>The final snapshot\<close>

text \<open>The configuration as \<open>json.Marshal\<close> prints it, which cannot fail for a number.\<close>

definition encodeConfig :: "32 word \<Rightarrow> string" where
  "encodeConfig port = ''{\"agentVSockPort\":'' @ show_nat (unat port) @ ''}''"

definition writeConfig :: "('y) snap_env_scheme \<Rightarrow> string \<Rightarrow> string \<Rightarrow> (('z) host_sys_scheme, unit) go" where
  "writeConfig e p data = reading trace (\<lambda>tr.
     attempt (act e (WriteFile p)) (\<lambda>r. case r of
       Inl x \<Rightarrow> andThen (putHost p (take (partlyCopied e tr) data)) (\<lambda>_.
         andThen (actIgnore e (CloseFile p)) (\<lambda>_.
         throw (Joined [SnapshotterErr ErrCouldNotWritePackageConfig, x])))
     | Inr _ \<Rightarrow> putHost p data))"

definition createFinalSnapshot ::
    "('y) snap_env_scheme \<Rightarrow> 32 word \<Rightarrow> string \<Rightarrow> int \<Rightarrow> int \<Rightarrow> (('z) host_sys_scheme, unit) go" where
  "createFinalSnapshot e vsockPort vmPath uid gid =
     wrapErr (SnapshotterErr ErrCouldNotCreateSnapshot)
       (Machine_CreateSnapshot e DeviceStateName DeviceMemoryName SDKSnapshotTypeFull) (\<lambda>_.
     andThen (update (\<lambda>s. s\<lparr>hostFiles := hostFiles s ++ vmWrites e (trace s)\<rparr>)) (\<lambda>_.
     let configFilename = filepath_Join [vmPath, DeviceConfigName] in
     wrapErr (SnapshotterErr ErrCouldNotOpenPackageConfigFile) (act e (CreateFile configFilename)) (\<lambda>_.
     andThen (putHost configFilename []) (\<lambda>_.
     andThen (writeConfig e configFilename (encodeConfig vsockPort)) (\<lambda>_.
     wrapErr (SnapshotterErr ErrCouldNotWritePackageConfig) (act e (CloseFile configFilename)) (\<lambda>_.
     wrapErr (SnapshotterErr ErrCouldNotChownPackageConfigFile) (act e (Chown configFilename uid gid)) ret))))))"

section \<open>Creating a snapshot\<close>

definition inTree :: "string \<Rightarrow> string \<Rightarrow> bool" where
  "inTree dir p \<longleftrightarrow> p = dir \<or> prefix (dir @ ''/'') p"

text \<open>The deferred end of the machine: both errors are dropped.\<close>

definition closeServer ::
    "('y) snap_env_scheme \<Rightarrow> string \<Rightarrow> goerr option \<Rightarrow> (('z) host_sys_scheme, unit) go" where
  "closeServer e vmPath exit =
     attempt (Machine_Close e exit) (\<lambda>_.
     attempt (act e (RemoveAll (filepath_Dir vmPath))) (\<lambda>r. case r of
       Inl _ \<Rightarrow> ret ()
     | Inr _ \<Rightarrow> update (\<lambda>s. s\<lparr>hostFiles := (\<lambda>p. if inTree (filepath_Dir vmPath) p then None else hostFiles s p)\<rparr>)))"

definition copyDevice ::
    "('y) snap_env_scheme \<Rightarrow> machine_config \<Rightarrow> string \<Rightarrow> snapshot_device \<Rightarrow> (('z) host_sys_scheme, unit) go" where
  "copyDevice e conf vmPath d = whenM (\<not> isBlank (sd_Input d))
     (wrapErr (SnapshotterErr ErrCouldNotCopyDeviceFile)
       (copyFile e (sd_Input d) (filepath_Join [vmPath, sd_Name d]) (mc_UID conf) (mc_GID conf)) (\<lambda>_. ret ()))"

definition snapshotDisks :: "snapshot_device list \<Rightarrow> string list" where
  "snapshotDisks devices = map sd_Name (filter (\<lambda>d. sd_Name d \<notin> set KnownNames \<or> sd_Name d = DeviceDiskName) devices)"

text \<open>
  The last steps: the guest is told to prepare, the connections are closed, the snapshot is made and
  copied, and an error of the machine's process that is known by then (\<open>crashed\<close>) is returned.
\<close>

definition finishSnapshot ::
    "('y) snap_env_scheme \<Rightarrow> snapshot_device list \<Rightarrow> machine_config \<Rightarrow> agent_config \<Rightarrow> string \<Rightarrow> goerr option \<Rightarrow>
     (('z) host_sys_scheme, unit) go" where
  "finishSnapshot e devices conf ac vmPath crashed =
     wrapErr (SnapshotterErr ErrCouldNotBeforeSuspend) (act e AgentGetRemote) (\<lambda>_.
     wrapErr (SnapshotterErr ErrCouldNotBeforeSuspend) (act e AgentBeforeSuspend) (\<lambda>_.
     andThen (act e AgentClose) (\<lambda>_.
     andThen (createFinalSnapshot e (AgentVSockPort ac) vmPath (mc_UID conf) (mc_GID conf)) (\<lambda>_.
     andThen (copySnapshotFiles e devices vmPath) (\<lambda>_.
     case crashed of Some x \<Rightarrow> throw x | None \<Rightarrow> ret ())))))"

definition runGuest ::
    "('y) snap_env_scheme \<Rightarrow> snapshot_device list \<Rightarrow> bool \<Rightarrow> vm_config \<Rightarrow> machine_config \<Rightarrow> network_config \<Rightarrow>
     agent_config \<Rightarrow> string \<Rightarrow> recv_event \<Rightarrow> goerr option \<Rightarrow> (('z) host_sys_scheme, unit) go" where
  "runGuest e devices ioEngineSync vm conf net ac vmPath ev crashed =
     andThen (forEach devices (copyDevice e conf vmPath)) (\<lambda>_.
     wrapErr (SnapshotterErr ErrCouldNotStartVM)
       (StartVM e DeviceKernelName (snapshotDisks devices) (if ioEngineSync then SDKIOEngineSync else SDKIOEngineAsync)
         vm net VSockName VSockCIDGuest) (\<lambda>_.
     deferring (actIgnore e (RemoveFile (filepath_Join [vmPath, VSockName]))) (
     wrapErr (SnapshotterErr ErrCouldNotReceiveAndCloseLivenessServer) (Liveness_ReceiveAndClose e ev) (\<lambda>_.
     andThen (Liveness_Close e) (\<lambda>_.
     andThen (act e WaitReady) (\<lambda>_.
     finishSnapshot e devices conf ac vmPath crashed))))))"

text \<open>
  A nil machine is used at once. \<open>evs\<close> are the events while the socket is waited for, \<open>ev\<close> how the
  wait for the guest ends, \<open>exit\<close> the result of the process when it is killed.
\<close>

definition CreateSnapshot ::
    "('y) snap_env_scheme \<Rightarrow> snapshot_device list \<Rightarrow> bool \<Rightarrow> vm_config \<Rightarrow> liveness_config \<Rightarrow> machine_config \<Rightarrow>
     network_config \<Rightarrow> agent_config \<Rightarrow> start_event list \<Rightarrow> recv_event \<Rightarrow> goerr option \<Rightarrow> goerr option \<Rightarrow>
     (('z) host_sys_scheme, unit) go" where
  "CreateSnapshot e devices ioEngineSync vm lc conf net ac evs ev crashed exit =
     wrapErr (SnapshotterErr ErrCouldNotCreateChrootBaseDirectory) (act e (MakeDir (mc_ChrootBaseDir conf))) (\<lambda>_.
     wrapErr (MachineErr ErrCouldNotStartFirecrackerServer) (StartFirecrackerMachine e conf evs) (\<lambda>made.
     if \<not> made then panic NilDeref else
     reading VMPath (\<lambda>vmPath. deferring (closeServer e vmPath exit) (
     let vsock = filepath_Join [vmPath, VSockName] in
     andThen (NewLivenessServer vsock (LivenessVSockPort lc)) (\<lambda>_.
     wrapErr (SnapshotterErr ErrCouldNotOpenLivenessServer) (Liveness_Open e) (\<lambda>livenessPath.
     wrapErr (SnapshotterErr ErrCouldNotChownLivenessServerVSock)
       (act e (Chown livenessPath (mc_UID conf) (mc_GID conf))) (\<lambda>_.
     deferring (Liveness_Close e) (
     wrapErr (SnapshotterErr ErrCouldNotStartAgentServer) (act e (StartAgent vsock (unat (AgentVSockPort ac)))) (\<lambda>_.
     wrapErr (SnapshotterErr ErrCouldNotChownAgentServerVSock)
       (act e (Chown (portPath vsock (AgentVSockPort ac)) (mc_UID conf) (mc_GID conf))) (\<lambda>_.
     deferring (actIgnore e AgentClose)
       (runGuest e devices ioEngineSync vm conf net ac vmPath ev crashed)))))))))))"

section \<open>What ends up in the copies\<close>

lemma paddingLength_bounds:
  "1024 * 1024 \<le> paddingLength n \<and> paddingLength n < 2 * (1024 * 1024) \<and> (n + paddingLength n) mod (1024 * 1024) = 0"
proof -
  let ?m = "1024 * 1024 :: nat"
  have lt: "n mod ?m < ?m" by simp
  have sum: "n + (?m - n mod ?m) = (n div ?m + 1) * ?m"
    using lt div_mult_mod_eq[of n ?m] by (simp only: add_mult_distrib mult_1)
  have "n + (?m - n mod ?m + ?m) = (n div ?m + 2) * ?m"
    using sum by (simp only: add_mult_distrib mult_1 add.assoc[symmetric])
  moreover have "(k * ?m) mod ?m = 0" for k by simp
  ultimately have "(n + (?m - n mod ?m)) mod ?m = 0" "(n + (?m - n mod ?m + ?m)) mod ?m = 0"
    using sum by (simp_all only:)
  then show ?thesis
    using lt by (auto simp: paddingLength_def Let_def)
qed

lemma paddingLength_pos [simp]: "0 < paddingLength n"
  using paddingLength_bounds[of n] by linarith

lemma copySnapshotFile_ok:
  fixes s :: "('z) host_sys_scheme"
  assumes "filepath_Join [p, sd_Name d] \<noteq> sd_Output d"
  shows "wp (copySnapshotFile e p d) (if_ok (\<lambda>_ s'. \<exists>data. hostFiles s (filepath_Join [p, sd_Name d]) = Some data \<and>
     hostFiles s' = (hostFiles s)(sd_Output d \<mapsto> data @ zeros (paddingLength (length data))))) s"
  using assms
  by (simp add: copySnapshotFile_def openHost_def copyHost_def writePadding_def putHost_def Let_def go_wp
      del: neq0_conv split: option.split)

lemma copySnapshotFiles_ok:
  fixes s :: "('z) host_sys_scheme"
  assumes "distinct (map sd_Output devices)"
    and "\<And>d d'. d \<in> set devices \<Longrightarrow> d' \<in> set devices \<Longrightarrow> filepath_Join [p, sd_Name d] \<noteq> sd_Output d'"
  shows "wp (copySnapshotFiles e devices p) (if_ok (\<lambda>_ s'.
     (\<forall>d \<in> set devices. \<exists>data. hostFiles s (filepath_Join [p, sd_Name d]) = Some data \<and>
        hostFiles s' (sd_Output d) = Some (data @ zeros (paddingLength (length data)))) \<and>
     (\<forall>q. q \<notin> sd_Output ` set devices \<longrightarrow> hostFiles s' q = hostFiles s q))) s"
  unfolding copySnapshotFiles_def using assms
proof (induction devices arbitrary: s)
  case Nil
  show ?case by (simp add: go_wp)
next
  case (Cons d devices)
  have one: "filepath_Join [p, sd_Name d] \<noteq> sd_Output d" using Cons.prems by simp
  show ?case
    unfolding forEach.simps
  proof (intro ok_rules if_ok_weaken[OF copySnapshotFile_ok[OF one]])
    fix u and t :: "('z) host_sys_scheme"
    assume "\<exists>data. hostFiles s (filepath_Join [p, sd_Name d]) = Some data \<and>
      hostFiles t = (hostFiles s)(sd_Output d \<mapsto> data @ zeros (paddingLength (length data)))"
    then obtain data where data: "hostFiles s (filepath_Join [p, sd_Name d]) = Some data"
      "hostFiles t = (hostFiles s)(sd_Output d \<mapsto> data @ zeros (paddingLength (length data)))" by blast
    have same: "hostFiles t (filepath_Join [p, sd_Name d']) = hostFiles s (filepath_Join [p, sd_Name d'])"
      if "d' \<in> set devices" for d'
      using Cons.prems(2)[of d' d] that data(2) by simp
    show "wp (forEach devices (copySnapshotFile e p)) (if_ok (\<lambda>_ s'.
     (\<forall>d \<in> set (d # devices). \<exists>data. hostFiles s (filepath_Join [p, sd_Name d]) = Some data \<and>
        hostFiles s' (sd_Output d) = Some (data @ zeros (paddingLength (length data)))) \<and>
     (\<forall>q. q \<notin> sd_Output ` set (d # devices) \<longrightarrow> hostFiles s' q = hostFiles s q))) t"
      by (rule if_ok_weaken[OF Cons.IH]) (use Cons.prems data same in auto)
  qed
qed

lemma createFinalSnapshot_ok:
  fixes s :: "('z) host_sys_scheme"
  shows "wp (createFinalSnapshot e port p uid gid) (if_ok (\<lambda>_ s'.
     hostFiles s' (filepath_Join [p, DeviceConfigName]) = Some (encodeConfig port))) s"
  by (simp add: createFinalSnapshot_def Machine_CreateSnapshot_def writeConfig_def putHost_def Let_def go_wp
      split: option.split)

section \<open>The configuration comes back\<close>

lemma show_nat_digits: "c \<in> set (show_nat n) \<Longrightarrow> 48 \<le> (of_char c :: nat)"
proof (induction n rule: show_nat.induct)
  case (1 n)
  then show ?case by (subst (asm) (2) show_nat.simps) (auto split: if_splits)
qed

lemma firstZeroFrom_zeros:
  "CHR 0x00 \<notin> set data \<Longrightarrow> 0 < n \<Longrightarrow> firstZeroFrom i (data @ zeros n) = i + length data"
  by (induction data arbitrary: i) (auto simp: zeros_def gr0_conv_Suc)

lemma cutAtZero_zeros: "CHR 0x00 \<notin> set data \<Longrightarrow> 0 < n \<Longrightarrow> cutAtZero (data @ zeros n) = data"
  by (simp add: cutAtZero_def firstZeroFrom_zeros)

lemma encodeConfig_no_zero: "CHR 0x00 \<notin> set (encodeConfig port)"
  using show_nat_digits[of "CHR 0x00" "unat port"] by (auto simp: encodeConfig_def)

lemma calm_kept:
  fixes s :: "('z) host_sys_scheme"
  assumes "P (hostFiles s)"
  shows "wp (Liveness_Close e) (if_calm (\<lambda>t. P (hostFiles t))) s" "wp (actIgnore e c) (if_calm (\<lambda>t. P (hostFiles t))) s"
  using assms by (simp_all add: Liveness_Close_def go_wp if_calm_def)

lemma calm_weaken: "wp d (if_calm P) s \<Longrightarrow> (\<And>t. P t \<Longrightarrow> Q t) \<Longrightarrow> wp d (if_calm Q) s"
  by (auto simp: wp_def if_calm_def split: prod.splits)

lemma stays_waiting:
  "stays_inv (\<lambda>s :: ('z) fc_machine_scheme. VMPath s = p) (waitForSocket e sock evs)"
proof (induction evs)
  case (Cons ev evs)
  then show ?case by (cases ev) (auto intro!: stays)
qed (auto intro: stays)

lemma Start_VMPath:
  fixes s :: "('z) fc_machine_scheme"
  assumes "\<And>tr. newID e tr = i"
  shows "wp (StartFirecrackerMachine e conf evs) (if_ok (\<lambda>_ s'.
    VMPath s' = filepath_Join [mc_ChrootBaseDir conf, ''firecracker'', i, ''root''])) s"
  unfolding StartFirecrackerMachine_def Let_def assms
  apply (intro ok_rules)
  apply (rule stays_wp[OF stays_waiting[where p = "filepath_Join [mc_ChrootBaseDir conf, ''firecracker'', i, ''root'']"]])
   apply simp
  apply (rename_tac r t, case_tac r)
    apply simp_all
  done

definition outputs_hold ::
    "snapshot_device list \<Rightarrow> 32 word \<Rightarrow> string \<Rightarrow> (string \<rightharpoonup> string) \<Rightarrow> bool" where
  "outputs_hold devices port p files' \<longleftrightarrow>
     (\<exists>files. files (filepath_Join [p, DeviceConfigName]) = Some (encodeConfig port) \<and>
       (\<forall>d \<in> set devices. \<exists>data. files (filepath_Join [p, sd_Name d]) = Some data \<and>
          files' (sd_Output d) = Some (data @ zeros (paddingLength (length data)))))"

lemma finishSnapshot_ok:
  fixes s :: "('z) host_sys_scheme"
  assumes "distinct (map sd_Output devices)"
    and "\<And>d d'. d \<in> set devices \<Longrightarrow> d' \<in> set devices \<Longrightarrow> filepath_Join [p, sd_Name d] \<noteq> sd_Output d'"
  shows "wp (finishSnapshot e devices conf ac p crashed) (if_ok (\<lambda>_ s'.
     outputs_hold devices (AgentVSockPort ac) p (hostFiles s'))) s"
  unfolding finishSnapshot_def
  apply (intro ok_rules if_ok_weaken[OF createFinalSnapshot_ok] if_ok_weaken[OF copySnapshotFiles_ok[OF assms]])
  apply (auto simp: outputs_hold_def)
  done

lemma ok_any: "(\<And>x s'. P x s') \<Longrightarrow> wp m (if_ok P) s"
  by (simp add: wp_def if_ok_def split: prod.split res.split)

lemma runGuest_ok:
  fixes s :: "('z) host_sys_scheme"
  assumes "distinct (map sd_Output devices)"
    and "\<And>d d'. d \<in> set devices \<Longrightarrow> d' \<in> set devices \<Longrightarrow> filepath_Join [p, sd_Name d] \<noteq> sd_Output d'"
  shows "wp (runGuest e devices io vm conf net ac p ev crashed) (if_ok (\<lambda>_ s'.
     outputs_hold devices (AgentVSockPort ac) p (hostFiles s'))) s"
  unfolding runGuest_def
proof (rule ok_andThen(1), rule ok_any, rule ok_andThen(2), rule ok_any, rule ok_deferring,
    rule ok_andThen(2), rule ok_any, rule ok_andThen(1), rule ok_any, rule ok_andThen(1), rule ok_any)
  fix t :: "('z) host_sys_scheme"
  show "wp (finishSnapshot e devices conf ac p crashed) (if_ok (\<lambda>_. wp (actIgnore e (RemoveFile (filepath_Join [p, VSockName])))
     (if_calm (\<lambda>s'. outputs_hold devices (AgentVSockPort ac) p (hostFiles s'))))) t"
    by (rule if_ok_weaken[OF finishSnapshot_ok[OF assms]]) (simp_all add: calm_kept(2))
qed

lemma closeServer_calm:
  fixes s :: "('z) host_sys_scheme"
  assumes "outputs_hold devices port p (hostFiles s)" and "\<And>d. d \<in> set devices \<Longrightarrow> \<not> inTree (filepath_Dir p) (sd_Output d)"
  shows "wp (closeServer e p exit) (if_calm (\<lambda>s'. outputs_hold devices port p (hostFiles s'))) s"
proof -
  have "wp (Machine_Close e exit) (\<lambda>r t. hostFiles t = hostFiles s) s"
    by (simp add: Machine_Close_def awaitExit_def go_wp split: option.split)
  moreover have "outputs_hold devices port p (\<lambda>q. if inTree (filepath_Dir p) q then None else hostFiles s q)"
    using assms by (simp add: outputs_hold_def)
  ultimately show ?thesis
    unfolding closeServer_def wp_attempt
    by (elim wp_mono, rename_tac r t, case_tac r)
      (use assms(1) in \<open>simp_all add: go_wp if_calm_def cong: if_cong split: option.split\<close>)
qed

text \<open>
  C8. The configuration of a snapshot comes back when it is resumed. If \<open>CreateSnapshot\<close> returns no error, every
  device's output holds the file of that name in the machine's directory followed by zero bytes, between
  1 and 2 MiB of them, to a multiple of 1 MiB; and what \<open>Resume\<close> cuts out of the configuration device is exactly
  the configuration that was encoded, with the agent's port. The outputs must differ from each other and
  lie outside the machine's directory, which is removed.
\<close>

theorem snapshot_config_roundtrip:
  fixes s :: "('z) host_sys_scheme"
  assumes "\<And>tr. newID e tr = i" and "p = filepath_Join [mc_ChrootBaseDir conf, ''firecracker'', i, ''root'']"
    and "distinct (map sd_Output devices)"
    and "\<And>d d'. d \<in> set devices \<Longrightarrow> d' \<in> set devices \<Longrightarrow> filepath_Join [p, sd_Name d] \<noteq> sd_Output d'"
    and "\<And>d. d \<in> set devices \<Longrightarrow> \<not> inTree (filepath_Dir p) (sd_Output d)"
  shows "wp (CreateSnapshot e devices io vm lc conf net ac evs ev crashed exit) (if_ok (\<lambda>_ s'. \<forall>d \<in> set devices.
     \<exists>data n. hostFiles s' (sd_Output d) = Some (data @ zeros n) \<and>
       1024 * 1024 \<le> n \<and> n < 2 * (1024 * 1024) \<and> (length data + n) mod (1024 * 1024) = 0 \<and>
       (sd_Name d = DeviceConfigName \<longrightarrow> cutAtZero (data @ zeros n) = encodeConfig (AgentVSockPort ac)))) s"
proof -
  define P where "P = outputs_hold devices (AgentVSockPort ac) p"
  have server: "wp (closeServer e p exit) (if_calm (\<lambda>s'. P (hostFiles s'))) t"
    if "P (hostFiles t)" for t :: "('z) host_sys_scheme"
    using that assms(5) unfolding P_def by (rule closeServer_calm)
  have guest: "wp (runGuest e devices io vm conf net ac p ev crashed) (if_ok (\<lambda>_ s'. P (hostFiles s'))) t"
    for t :: "('z) host_sys_scheme"
    unfolding P_def using assms(3,4) by (rule runGuest_ok)
  have "wp (CreateSnapshot e devices io vm lc conf net ac evs ev crashed exit) (if_ok (\<lambda>_ s'. P (hostFiles s'))) s"
    unfolding CreateSnapshot_def Let_def
  proof (rule ok_andThen(2), rule ok_act, rule ok_andThen(2), rule if_ok_weaken[OF Start_VMPath[OF assms(1)]], rule ok_if,
      rule ok_throw, rule ok_reading, goal_cases)
    case (1 made t)
    then have p: "VMPath t = p" by (simp add: assms(2))
    show ?case
      unfolding p
    proof (rule ok_deferring, rule ok_andThen(1), rule ok_any, rule ok_andThen(2), rule ok_any, rule ok_andThen(2), rule ok_any,
        rule ok_deferring, rule ok_andThen(2), rule ok_any, rule ok_andThen(2), rule ok_any, rule ok_deferring, goal_cases)
      case 1
      show ?case
        by (rule if_ok_weaken[OF guest], rule calm_weaken[OF calm_kept(2)[where P = P]], assumption,
            rule calm_weaken[OF calm_kept(1)[where P = P]], assumption, rule server)
    qed
  qed
  then show ?thesis
  proof (rule if_ok_weaken)
    fix s' :: "('z) host_sys_scheme" assume "P (hostFiles s')"
    then obtain files where files: "files (filepath_Join [p, DeviceConfigName]) = Some (encodeConfig (AgentVSockPort ac))"
      "\<forall>d \<in> set devices. \<exists>data. files (filepath_Join [p, sd_Name d]) = Some data \<and>
          hostFiles s' (sd_Output d) = Some (data @ zeros (paddingLength (length data)))"
      by (auto simp: P_def outputs_hold_def)
    show "\<forall>d \<in> set devices. \<exists>data n. hostFiles s' (sd_Output d) = Some (data @ zeros n) \<and>
       1024 * 1024 \<le> n \<and> n < 2 * (1024 * 1024) \<and> (length data + n) mod (1024 * 1024) = 0 \<and>
       (sd_Name d = DeviceConfigName \<longrightarrow> cutAtZero (data @ zeros n) = encodeConfig (AgentVSockPort ac))"
    proof
      fix d assume "d \<in> set devices"
      then obtain data where data: "files (filepath_Join [p, sd_Name d]) = Some data"
        "hostFiles s' (sd_Output d) = Some (data @ zeros (paddingLength (length data)))"
        using files(2) by (auto simp: outputs_hold_def)
      show "\<exists>data n. hostFiles s' (sd_Output d) = Some (data @ zeros n) \<and>
         1024 * 1024 \<le> n \<and> n < 2 * (1024 * 1024) \<and> (length data + n) mod (1024 * 1024) = 0 \<and>
         (sd_Name d = DeviceConfigName \<longrightarrow> cutAtZero (data @ zeros n) = encodeConfig (AgentVSockPort ac))"
        by (rule exI[of _ data], rule exI[of _ "paddingLength (length data)"])
          (use data files(1) paddingLength_bounds in \<open>auto intro!: cutAtZero_zeros encodeConfig_no_zero\<close>)
    qed
  qed
qed

section \<open>Example\<close>

definition snap_demo :: snap_env where
  "snap_demo = fc_env.extend (fc_demo None) \<lparr>vmWrites = (\<lambda>_. Map.empty), partlyCopied = (\<lambda>_. 0)\<rparr>"

definition host_start :: host_sys where
  "host_start = fc_machine.extend fc_start \<lparr>lv_path = [], lv_lis = False, lv_closed = False, hostFiles = Map.empty\<rparr>"

definition config_device :: snapshot_device where
  "config_device = \<lparr>sd_Name = DeviceConfigName, sd_Input = [], sd_Output = ''pkg/config.json''\<rparr>"

lemma snap_demo_fields [simp]:
  "fails snap_demo = (\<lambda>_ _. None)" "newID snap_demo = (\<lambda>_. ''id'')" "vmWrites snap_demo = (\<lambda>_. Map.empty)"
  "startedPid snap_demo = (\<lambda>_. 42)" "signalKilled snap_demo = (\<lambda>x. x = MachineErr ErrSignalKilled)"
  by (simp_all add: snap_demo_def fc_demo_def fc_env.defs)

lemma demo_paths:
  "filepath_Join [''out'', ''firecracker'', ''id'', ''root''] = ''out/firecracker/id/root''"
  "filepath_Join [''out/firecracker/id/root'', ''config''] = ''out/firecracker/id/root/config''"
  "filepath_Dir ''out/firecracker/id/root'' = ''out/firecracker/id''"
  by (simp_all add: path_defs)

abbreviation demo_snapshot :: "(host_sys, unit) go" where
  "demo_snapshot \<equiv> CreateSnapshot snap_demo [config_device] True
     \<lparr>vc_CPUCount = 1, vc_MemorySize = 1024, vc_CPUTemplate = ''None'', vc_BootArgs = ''ro''\<rparr>
     \<lparr>LivenessVSockPort = 25\<rparr> conf_demo \<lparr>nc_Interface = ''tap0'', nc_MAC = ''02''\<rparr> \<lparr>AgentVSockPort = 26\<rparr> [Tick]
     AcceptReturned None (Some (MachineErr ErrSignalKilled))"

lemmas snapshot_eval = CreateSnapshot_def StartFirecrackerMachine_def closeServer_def Machine_Close_def awaitExit_def
  NewLivenessServer_def Liveness_Open_def Liveness_Close_def Liveness_ReceiveAndClose_def runGuest_def copyDevice_def
  StartVM_def finishSnapshot_def createFinalSnapshot_def Machine_CreateSnapshot_def writeConfig_def copySnapshotFiles_def
  copySnapshotFile_def openHost_def copyHost_def writePadding_def putHost_def snapshotDisks_def KnownNames_def
  device_name_defs conf_demo_def config_device_def host_start_def fc_start_def fc_machine.defs isBlank_def trim_defs
  sdk_names demo_paths Let_def

lemma demo_snapshot_runs: "\<exists>s. demo_snapshot host_start = (Ok (), s)"
proof -
  have "wp demo_snapshot (\<lambda>r s. r = Ok ()) host_start"
    by (simp add: snapshot_eval go_wp del: neq0_conv)
  then show ?thesis by (auto simp: wp_def split: prod.splits)
qed

theorem snapshot_config_roundtrip_witness:
  "\<exists>s data n. demo_snapshot host_start = (Ok (), s) \<and> hostFiles s ''pkg/config.json'' = Some (data @ zeros n) \<and>
     cutAtZero (data @ zeros n) = encodeConfig 26"
proof -
  obtain s where run: "demo_snapshot host_start = (Ok (), s)" using demo_snapshot_runs by blast
  have post: "wp demo_snapshot (if_ok (\<lambda>_ s'. \<forall>d \<in> set [config_device].
     \<exists>data n. hostFiles s' (sd_Output d) = Some (data @ zeros n) \<and>
       1024 * 1024 \<le> n \<and> n < 2 * (1024 * 1024) \<and> (length data + n) mod (1024 * 1024) = 0 \<and>
       (sd_Name d = DeviceConfigName \<longrightarrow> cutAtZero (data @ zeros n) = encodeConfig (AgentVSockPort \<lparr>AgentVSockPort = 26\<rparr>)))) host_start"
    by (rule snapshot_config_roundtrip[of _ "''id''" "''out/firecracker/id/root''"])
      (simp_all add: demo_paths conf_demo_def config_device_def device_name_defs inTree_def)
  from if_okD[OF post run] run show ?thesis by (auto simp: config_device_def)
qed
end
