(* ===== verification/Journey.thy ===== *)
theory Journey
  imports PeerMain Snapshot
begin

text \<open>
  The program that sends one machine through a chain of peers (\<^verbatim>\<open>cmd/drafter-migtest/main.go\<close>): it makes a snapshot if
  there is none, resumes a first peer from it, and then again and again starts a next one, migrates the machine over
  pipes, closes the last one and resumes the next. Here both ends of a migration meet: what the receiver gets is what
  the sender sent. The sending goroutine and the receiver only share the pipes; they are composed one after the other.
  A peer has its own calls, and so has the snapshotter. S3 and the comparison of hashes are switched off by constants;
  statistics are left out.
\<close>

section \<open>State\<close>

datatype journey_call = MakeTestDir string | RemoveTestDir string | FindBin string
  | DialTest string | CloseTestConn | ListenTest string | AcceptTest
  | OpenTestFile string | CreateTestFile string | CopyTestFile string string | CloseTestFile string
  | LinkTestFile string string | ReadTestConn | NewValkeyClient string | ValkeySet string | ValkeyGet string | CloseValkey
  | StartProfile string | StopProfile | OpenSentMemory | OpenArrivedMemory | ReadSentMemory nat | ReadArrivedMemory nat

text \<open>\<open>binPath\<close> is where a program is found.\<close>

record journey_env = "journey_call env" +
  binPath :: "string \<Rightarrow> string"

record 'r journey = "journey_call world" +
  j_peers :: "'r peer list"          \<comment> \<open>in the order they were started\<close>
  j_host :: host_sys                 \<comment> \<open>the snapshotter's\<close>

definition onPeer :: "nat \<Rightarrow> ('r peer, 'a) go \<Rightarrow> (('r, 'z) journey_scheme, 'a) go" where
  "onPeer i m = (\<lambda>s. case m (j_peers s ! i) of (r, p) \<Rightarrow> (r, s\<lparr>j_peers := (j_peers s)[i := p]\<rparr>))"

definition startJourneyPeer ::
    "('y) peer_env_scheme \<Rightarrow> ('r, 'w) runtime_provider_scheme \<Rightarrow> 'r peer \<Rightarrow> bool \<Rightarrow> nat \<Rightarrow> (('r, 'z) journey_scheme, unit) go" where
  "startJourneyPeer pe rp fresh met i =
     andThen (update (\<lambda>s. s\<lparr>j_peers := j_peers s @ [fresh]\<rparr>)) (\<lambda>_.
     onPeer i (StartPeer pe rp True met (if met then Some NewDrafterMetrics else None) ''cow_test''))"

definition findBin :: "('x) journey_env_scheme \<Rightarrow> string \<Rightarrow> (('r, 'z) journey_scheme, string) go" where
  "findBin e n = ask e (\<lambda>_. binPath e n) (FindBin n)"

text \<open>The machine of a peer. Its input is a pipe that only sends backspaces.\<close>

definition journeyMachine :: "string \<Rightarrow> string \<Rightarrow> string \<Rightarrow> string \<Rightarrow> machine_config" where
  "journeyMachine dir netns firecrackerBin jailerBin = \<lparr>mc_FirecrackerBin = firecrackerBin, mc_JailerBin = jailerBin,
     mc_ChrootBaseDir = dir, mc_UID = 0, mc_GID = 0, mc_NetNS = netns, mc_NumaNode = 0, mc_CgroupVersion = 2,
     mc_Stdout = Some ''stdout'', mc_Stderr = Some ''stderr'', mc_Stdin = Some ''pusher'', mc_NoMapShared = False\<rparr>"

text \<open>
  That pipe (\<^verbatim>\<open>NewOutputPusher\<close> in \<^verbatim>\<open>machine.go\<close>): a goroutine writes to it with every tick and closes it when the
  context ends; errors are only logged. The value is whether the goroutine has ended.
\<close>

datatype pusher_event = PusherTick | PusherDone
datatype pusher_call = PushBackspaces | ClosePusher

fun outputPusher :: "(pusher_call, 'y) env_scheme \<Rightarrow> pusher_event list \<Rightarrow> ((pusher_call, 'z) world_scheme, bool) go" where
  "outputPusher e [] = ret False"
| "outputPusher e (PusherDone # evs) = andThen (actIgnore e ClosePusher) (\<lambda>_. ret True)"
| "outputPusher e (PusherTick # evs) = andThen (actIgnore e PushBackspaces) (\<lambda>_. outputPusher e evs)"

lemma outputPusher_closes_last:
  "wp (outputPusher e evs) (\<lambda>r s'. \<exists>ended k. r = Ok ended \<and> (ended \<longleftrightarrow> PusherDone \<in> set evs) \<and>
     called s' = called s @ replicate k PushBackspaces @ (if ended then [ClosePusher] else [])) s"
proof (induction evs arbitrary: s)
  case Nil
  then show ?case by (auto simp: wp_ret intro: exI[of _ 0])
next
  case (Cons ev evs)
  show ?case
  proof (cases ev)
    case PusherTick
    show ?thesis
      unfolding PusherTick outputPusher.simps wp_andThen wp_actIgnore thenQ.simps
      by (rule wp_mono[OF Cons.IH], elim exE conjE, rename_tac ended k) (auto simp: called_def intro!: exI[of _ "Suc k" for k])
  qed (auto simp: go_wp called_def intro!: exI[of _ 0])
qed

section \<open>The snapshot\<close>

text \<open>How a run of the snapshotter goes.\<close>

record snapshot_run =
  sr_env :: snap_env
  sr_start :: "start_event list"
  sr_guest :: recv_event
  sr_crashed :: "goerr option"
  sr_exit :: "goerr option"

definition onHost :: "(host_sys, 'a) go \<Rightarrow> (('r, 'z) journey_scheme, 'a) go" where
  "onHost m = (\<lambda>s. case m (j_host s) of (r, h) \<Rightarrow> (r, s\<lparr>j_host := h\<rparr>))"

definition testSnapshotDevices :: "string \<Rightarrow> string \<Rightarrow> snapshot_device list" where
  "testSnapshotDevices snapDir blueDir =
     [\<lparr>sd_Name = ''state'', sd_Input = [], sd_Output = filepath_Join [snapDir, ''state'']\<rparr>,
      \<lparr>sd_Name = ''memory'', sd_Input = [], sd_Output = filepath_Join [snapDir, ''memory'']\<rparr>,
      \<lparr>sd_Name = ''kernel'', sd_Input = filepath_Join [blueDir, ''vmlinux''], sd_Output = filepath_Join [snapDir, ''kernel'']\<rparr>,
      \<lparr>sd_Name = ''disk'', sd_Input = filepath_Join [blueDir, ''rootfs.ext4''], sd_Output = filepath_Join [snapDir, ''disk'']\<rparr>,
      \<lparr>sd_Name = ''config'', sd_Input = [], sd_Output = filepath_Join [snapDir, ''config'']\<rparr>,
      \<lparr>sd_Name = ''oci'', sd_Input = filepath_Join [blueDir, ''oci.ext4''], sd_Output = filepath_Join [snapDir, ''oci'']\<rparr>]"

definition testSnapshotMachine :: "string \<Rightarrow> string \<Rightarrow> bool \<Rightarrow> string \<Rightarrow> string \<Rightarrow> machine_config" where
  "testSnapshotMachine dir netns output firecrackerBin jailerBin =
     (journeyMachine dir netns firecrackerBin jailerBin)\<lparr>mc_Stdout := if output then Some ''stdout'' else None,
       mc_Stderr := if output then Some ''stderr'' else None, mc_Stdin := None\<rparr>"

text \<open>The steps that this program and the one over the network share; here every error is a panic.\<close>

definition makeSnapshot ::
    "('x) journey_env_scheme \<Rightarrow> snapshot_run \<Rightarrow> bool \<Rightarrow> string \<Rightarrow> string \<Rightarrow> string \<Rightarrow> string \<Rightarrow> string \<Rightarrow>
     (('r, 'z) journey_scheme, unit) go" where
  "makeSnapshot e sr output cpuTemplate bootArgs netns snapDir blueDir =
     andThen (act e (MakeTestDir snapDir)) (\<lambda>_.
     andThen (findBin e ''firecracker'') (\<lambda>firecrackerBin.
     andThen (findBin e ''jailer'') (\<lambda>jailerBin.
     onHost (CreateSnapshot (sr_env sr) (testSnapshotDevices snapDir blueDir) True
       \<lparr>vc_CPUCount = 1, vc_MemorySize = 1024, vc_CPUTemplate = cpuTemplate, vc_BootArgs = bootArgs\<rparr>
       \<lparr>LivenessVSockPort = 25\<rparr> (testSnapshotMachine snapDir netns output firecrackerBin jailerBin)
       \<lparr>nc_Interface = ''tap0'', nc_MAC = ''02:0e:d9:fd:68:3d''\<rparr> \<lparr>AgentVSockPort = 26\<rparr>
       (sr_start sr) (sr_guest sr) (sr_crashed sr) (sr_exit sr)))))"

definition createSnapshotDir :: string where "createSnapshotDir = ''snap_test''"

text \<open>The boot arguments are a constant of the snapshotter, given here.\<close>

definition setupSnapshot ::
    "('x) journey_env_scheme \<Rightarrow> snapshot_run \<Rightarrow> string \<Rightarrow> string \<Rightarrow> (('r, 'z) journey_scheme, string) go" where
  "setupSnapshot e sr bootArgs blueprintsDir =
     orCrash (makeSnapshot e sr False ''None'' bootArgs ''ark0'' createSnapshotDir blueprintsDir) (\<lambda>_. ret createSnapshotDir)"

section \<open>Devices\<close>

definition testPeerDirCowS3 :: string where "testPeerDirCowS3 = ''test_peer_cow''"

definition journeyNames :: "string list" where
  "journeyNames = KnownNames @ [''oci'']"

definition journeyDevicesTo :: "migrate_to_device list" where
  "journeyDevicesTo = map (\<lambda>n. \<lparr>mt_Name = n, mt_MaxDirtyBlocks = 10, mt_MinCycles = 1, mt_MaxCycles = 1,
     mt_CycleThrottle = 100000000\<rparr>) journeyNames"

definition journeyDeviceFrom :: "string \<Rightarrow> string \<Rightarrow> string \<Rightarrow> migrate_from_device" where
  "journeyDeviceFrom snapDir dir n = (let fn = (case gm_get DeviceFilenames n of None \<Rightarrow> [] | Some fn \<Rightarrow> fn) in
     \<lparr>mf_Name = n, mf_Base = filepath_Join [snapDir, n], mf_Overlay = filepath_Join [dir, fn @ ''.overlay''],
      mf_State = filepath_Join [dir, fn @ ''.state''], mf_BlockSize = 1024 * 1024, mf_Shared = False,
      mf_UseSparseFile = False, mf_AnyOrder = False, mf_UseWriteCache = False, mf_WriteCacheMin = [],
      mf_WriteCacheMax = [], mf_WriteCacheBlocksize = [], mf_SharedBase = True, mf_SkipSilo = False,
      mf_S3Sync = False, mf_S3AccessKey = [], mf_S3SecretKey = [], mf_S3Endpoint = [], mf_S3Secure = False,
      mf_S3Bucket = [], mf_S3Concurrency = 0, mf_S3Prefix = [], mf_S3OnlyDirty = False, mf_S3BlockShift = 0,
      mf_S3MaxAge = [], mf_S3MinChanged = 0, mf_S3Limit = 0, mf_S3CheckPeriod = []\<rparr>)"

definition migrationDir :: "nat \<Rightarrow> string" where
  "migrationDir i = filepath_Join [testPeerDirCowS3, ''migration_'' @ show_nat i]"

definition journeyDevicesFrom ::
    "('x) journey_env_scheme \<Rightarrow> string \<Rightarrow> nat \<Rightarrow> (('r, 'z) journey_scheme, migrate_from_device list) go" where
  "journeyDevicesFrom e snapDir i = orCrash (act e (MakeTestDir (migrationDir i))) (\<lambda>_.
     ret (map (journeyDeviceFrom snapDir (migrationDir i)) journeyNames))"

section \<open>One migration\<close>

definition firstHooks :: migrate_from_hooks where
  "firstHooks = \<lparr>has_OnLocalAllDevicesRequested = True, has_OnCompletion = False, has_OnXferCustomData = True\<rparr>"

definition nextHooks :: migrate_from_hooks where
  "nextHooks = \<lparr>has_OnLocalAllDevicesRequested = True, has_OnCompletion = True, has_OnXferCustomData = True\<rparr>"

text \<open>
  What reaches the receiver: the custom data that was sent last, if any was sent since, and successfully;
  otherwise the error its end of the pipes gives.
\<close>

definition arrivalFrom :: "mig_trace \<Rightarrow> mig_trace \<Rightarrow> goerr \<Rightarrow> goerr + string" where
  "arrivalFrom tr0 tr1 lost = (if handovers tr1 = handovers tr0 then Inl lost else
     (case find (\<lambda>p. case fst p of SendCustomData d \<Rightarrow> True | _ \<Rightarrow> False) (rev tr1) of
       Some (SendCustomData d, True) \<Rightarrow> Inr d
     | _ \<Rightarrow> Inl lost))"

definition sendTo ::
    "('y) peer_env_scheme \<Rightarrow> ('r, 'w) runtime_provider_scheme \<Rightarrow> 'r peer silo_dirty \<Rightarrow> goerr \<Rightarrow> nat \<Rightarrow>
     migrate_from_device list \<Rightarrow> (('r, 'z) journey_scheme, unit) go" where
  "sendTo pe rp silo lost i devices = reading (\<lambda>s. trace (j_peers s ! i)) (\<lambda>tr0.
     orCrash (onPeer i (MigrateTo pe rp silo True True
       \<lparr>opt_Concurrency = 10, opt_Compression = True, opt_CompressionType = 0\<rparr> journeyDevicesTo (Some (Some [])))) (\<lambda>_.
     reading (\<lambda>s. arrivalFrom tr0 (trace (j_peers s ! i)) lost) (\<lambda>arrival.
     orCrash (onPeer (Suc i) (MigrateFrom pe rp nextHooks devices 1 1 arrival)) ret)))"

text \<open>The wait for the completion callback has no other end.\<close>

definition awaitCompletion :: "('y) peer_env_scheme \<Rightarrow> nat \<Rightarrow> (('r, 'z) journey_scheme, unit) go" where
  "awaitCompletion pe i = andThen (onPeer i (watchTransfer pe nextHooks)) (\<lambda>_.
     reading (\<lambda>s. p_hooksCalled (j_peers s ! i)) (\<lambda>hs. if OnCompletion \<in> set hs then ret () else doesNotEnd))"

text \<open>The migration from peer \<open>i\<close> to the next one.\<close>

definition journeyStep ::
    "('x) journey_env_scheme \<Rightarrow> ('y) peer_env_scheme \<Rightarrow> ('r, 'w) runtime_provider_scheme \<Rightarrow> 'r peer \<Rightarrow> bool \<Rightarrow>
     (nat \<Rightarrow> 'r peer silo_dirty) \<Rightarrow> (nat \<Rightarrow> goerr) \<Rightarrow> string \<Rightarrow> nat \<Rightarrow> (('r, 'z) journey_scheme, unit) go" where
  "journeyStep e pe rp fresh met silo lost snapDir i =
     orCrash (startJourneyPeer pe rp fresh met (Suc i)) (\<lambda>_.
     andThen (journeyDevicesFrom e snapDir (Suc i)) (\<lambda>devices.
     andThen (sendTo pe rp (silo i) (lost i) i devices) (\<lambda>_.
     andThen (awaitCompletion pe (Suc i)) (\<lambda>_.
     orCrash (onPeer i (peer_Close pe rp)) (\<lambda>_.
     orCrash (onPeer (Suc i) (peer_Resume rp)) ret)))))"

section \<open>The program\<close>

definition firstPeer ::
    "('x) journey_env_scheme \<Rightarrow> ('y) peer_env_scheme \<Rightarrow> ('r, 'w) runtime_provider_scheme \<Rightarrow> 'r peer \<Rightarrow> bool \<Rightarrow>
     string \<Rightarrow> (('r, 'z) journey_scheme, unit) go" where
  "firstPeer e pe rp fresh met snapDir =
     orCrash (startJourneyPeer pe rp fresh met 0) (\<lambda>_.
     andThen (journeyDevicesFrom e snapDir 0) (\<lambda>devices.
     orCrash (onPeer 0 (MigrateFrom pe rp firstHooks devices 0 0 (Inr []))) (\<lambda>_.
     orCrash (onPeer 0 (peer_Resume rp)) ret)))"

definition runJourney ::
    "('x) journey_env_scheme \<Rightarrow> ('y) peer_env_scheme \<Rightarrow> ('r, 'w) runtime_provider_scheme \<Rightarrow> 'r peer \<Rightarrow> bool \<Rightarrow>
     (nat \<Rightarrow> 'r peer silo_dirty) \<Rightarrow> (nat \<Rightarrow> goerr) \<Rightarrow> string \<Rightarrow> nat \<Rightarrow> (('r, 'z) journey_scheme, unit) go" where
  "runJourney e pe rp fresh met silo lost snapDir n =
     andThen (firstPeer e pe rp fresh met snapDir) (\<lambda>_.
     andThen (forEach [0..<n] (journeyStep e pe rp fresh met silo lost snapDir)) (\<lambda>_.
     orCrash (onPeer n (peer_Close pe rp)) ret))"

record migtest_flags =
  mf_num :: int
  mf_blueprints :: string
  mf_snapshot :: string
  mf_serveMetrics :: bool

definition migtest_main ::
    "('x) journey_env_scheme \<Rightarrow> ('y) peer_env_scheme \<Rightarrow> snapshot_run \<Rightarrow> string \<Rightarrow>
     (machine_config \<Rightarrow> ('r, 'w) runtime_provider_scheme) \<Rightarrow> 'r peer \<Rightarrow> (nat \<Rightarrow> 'r peer silo_dirty) \<Rightarrow> (nat \<Rightarrow> goerr) \<Rightarrow>
     migtest_flags \<Rightarrow> (('r, 'z) journey_scheme, unit) go" where
  "migtest_main e pe sr bootArgs rp fresh silo lost fl =
     deferring (andThen (actIgnore e (RemoveTestDir createSnapshotDir)) (\<lambda>_. actIgnore e (RemoveTestDir testPeerDirCowS3))) (
     orCrash (act e (MakeTestDir testPeerDirCowS3)) (\<lambda>_.
     andThen (if mf_snapshot fl = [] then setupSnapshot e sr bootArgs (mf_blueprints fl) else ret (mf_snapshot fl)) (\<lambda>snapDir.
     orCrash (findBin e ''firecracker'') (\<lambda>firecrackerBin.
     orCrash (findBin e ''jailer'') (\<lambda>jailerBin.
     runJourney e pe (rp (journeyMachine testPeerDirCowS3 ''ark0'' firecrackerBin jailerBin)) fresh (mf_serveMetrics fl)
       silo lost snapDir (nat (mf_num fl)))))))"

text \<open>
  What fits together: the snapshotter makes the files that the peers open, for the devices that are sent; its outputs
  are apart from each other and, when its machine is removed, stay (the conditions of
  \<open>snapshot_config_roundtrip\<close>).
\<close>

lemma snapshot_fits_devices:
  "(\<lambda>d. (sd_Name d, sd_Output d)) ` set (testSnapshotDevices snapDir blueDir) =
     (\<lambda>d. (mf_Name d, mf_Base d)) ` set (map (journeyDeviceFrom snapDir dir) journeyNames)"
  "map mf_Name (map (journeyDeviceFrom snapDir dir) journeyNames) = map mt_Name journeyDevicesTo"
  by (auto simp: testSnapshotDevices_def journeyDeviceFrom_def journeyDevicesTo_def journeyNames_def KnownNames_def
      device_name_defs Let_def)

lemma snapshot_outputs_apart:
  "distinct (map sd_Output (testSnapshotDevices createSnapshotDir blueDir))"
  "\<forall>d \<in> set (testSnapshotDevices createSnapshotDir blueDir).
     \<not> inTree (filepath_Join [createSnapshotDir, ''firecracker'']) (sd_Output d)"
proof -
  have outs: "map sd_Output (testSnapshotDevices createSnapshotDir blueDir) =
      map (\<lambda>n. ''snap_test/'' @ n) [''state'', ''memory'', ''kernel'', ''disk'', ''config'', ''oci'']" for blueDir
    unfolding testSnapshotDevices_def list.map snapshot_device.simps createSnapshotDir_def by code_simp
  then show "distinct (map sd_Output (testSnapshotDevices createSnapshotDir blueDir))" by simp
  have "filepath_Join [createSnapshotDir, ''firecracker''] = ''snap_test/firecracker''"
    unfolding createSnapshotDir_def by code_simp
  moreover have "\<forall>out \<in> set (map sd_Output (testSnapshotDevices createSnapshotDir blueDir)). \<not> inTree ''snap_test/firecracker'' out"
    unfolding outs by (simp add: inTree_def)
  ultimately show "\<forall>d \<in> set (testSnapshotDevices createSnapshotDir blueDir).
     \<not> inTree (filepath_Join [createSnapshotDir, ''firecracker'']) (sd_Output d)" by simp
qed

section \<open>Following the peers\<close>

definition oneRuns :: "('r \<Rightarrow> bool) \<Rightarrow> ('r, 'z) journey_scheme \<Rightarrow> bool" where
  "oneRuns st s \<longleftrightarrow> (\<forall>i j. i < j \<and> j < length (j_peers s) \<longrightarrow>
     st (p_runtime (j_peers s ! i)) \<or> st (p_runtime (j_peers s ! j)))"

text \<open>There are \<open>n\<close> peers and the first \<open>i\<close> are stopped.\<close>

definition chain :: "('r \<Rightarrow> bool) \<Rightarrow> nat \<Rightarrow> nat \<Rightarrow> ('r, 'z) journey_scheme \<Rightarrow> bool" where
  "chain st n i s \<longleftrightarrow> length (j_peers s) = n \<and> (\<forall>k<i. st (p_runtime (j_peers s ! k)))"

text \<open>The peer \<open>i\<close> may run, the next one does not yet.\<close>

definition between :: "('r \<Rightarrow> bool) \<Rightarrow> nat \<Rightarrow> ('r, 'z) journey_scheme \<Rightarrow> bool" where
  "between st i s \<longleftrightarrow> chain st (Suc (Suc i)) i s \<and> st (p_runtime (j_peers s ! Suc i))"

lemma peers_trace [simp]:
  "oneRuns st (trace_update f s) = oneRuns st s" "chain st n i (trace_update f s) = chain st n i s"
  "between st i (trace_update f s) = between st i s"
  by (simp_all add: oneRuns_def chain_def between_def)

lemma chain_one: "chain st n i s \<Longrightarrow> n \<le> Suc i \<Longrightarrow> oneRuns st s"
  by (auto simp: chain_def oneRuns_def)

lemma between_one: "between st i s \<Longrightarrow> oneRuns st s"
  unfolding between_def chain_def oneRuns_def by (metis less_antisym less_trans_Suc not_less_eq)

lemma chain_between: "chain st (Suc (Suc i)) (Suc i) s \<Longrightarrow> st (p_runtime (j_peers s ! Suc i)) \<Longrightarrow> between st i s"
  by (simp add: chain_def between_def)

lemma wp_onPeer: "wp (onPeer i m) Q s \<longleftrightarrow> wp m (\<lambda>r p. Q r (s\<lparr>j_peers := (j_peers s)[i := p]\<rparr>)) (j_peers s ! i)"
  by (simp add: wp_def onPeer_def split: prod.splits)

text \<open>A peer that may run does what it does; a peer that is stopped stays so.\<close>

lemma onPeer_last: "chain st n i s \<Longrightarrow> i \<le> k \<Longrightarrow> wp (onPeer k m) (\<lambda>_. chain st n i) s"
  unfolding wp_onPeer by (rule wpI) (auto simp: chain_def nth_list_update)

lemma onPeer_stopped:
  assumes "stays_inv (\<lambda>p. st (p_runtime p)) m"
  shows "chain st n i s \<Longrightarrow> i \<le> n \<Longrightarrow> wp (onPeer k m) (\<lambda>_. chain st n i) s"
    "between st i s \<Longrightarrow> wp (onPeer (Suc i) m) (\<lambda>_. between st i) s"
proof -
  show "wp (onPeer k m) (\<lambda>_. chain st n i) s" if "chain st n i s" "i \<le> n"
  proof (cases "k < i")
    case True
    then show ?thesis
      unfolding wp_onPeer
      by (intro stays_wp[OF assms]) (use that in \<open>auto simp: chain_def nth_list_update\<close>)
  next
    case False
    then show ?thesis by (intro onPeer_last[OF that(1)]) simp
  qed
  show "wp (onPeer (Suc i) m) (\<lambda>_. between st i) s" if "between st i s"
    unfolding wp_onPeer
    by (intro stays_wp[OF assms]) (use that in \<open>auto simp: between_def chain_def nth_list_update\<close>)
qed

lemma seq_rule:
  assumes "wp m (\<lambda>_. P) s" and "\<And>x t. P t \<Longrightarrow> wp (k x) R t"
    and "\<And>x t. P t \<Longrightarrow> R (Err x) t" and "\<And>x t. P t \<Longrightarrow> R (Panic x) t"
  shows "wp (andThen m k) R s" "wp (orCrash m k) R s"
proof -
  show "wp (andThen m k) R s"
    unfolding wp_andThen
    by (rule wp_mono[OF assms(1)], rename_tac r t, case_tac r) (simp_all add: assms(2-4))
  show "wp (orCrash m k) R s"
    unfolding orCrash_def wp_attempt
    by (rule wp_mono[OF assms(1)], rename_tac r t, case_tac r) (simp_all add: assms(2-4) wp_panic)
qed

text \<open>Before the first peer there is none.\<close>

lemma stays_onHost: "stays_inv (\<lambda>t :: ('r, 'z) journey_scheme. P (j_peers t)) (onHost m)"
  by (auto simp: stays_inv_def onHost_def split: prod.splits)

lemma no_peers_yet:
  fixes s :: "('r, 'z) journey_scheme"
  assumes "j_peers s = []"
  shows "wp (act e c) (\<lambda>_ t. j_peers t = []) s" "wp (findBin e n) (\<lambda>_ t. j_peers t = []) s"
    "wp (if b = [] then setupSnapshot e sr bootArgs d else ret b) (\<lambda>_ t. j_peers t = []) s"
    "wp (whenM w (makeSnapshot e sr out cpuTemplate bootArgs netns snapDir d)) (\<lambda>_ t. j_peers t = []) s"
proof -
  have st: "stays_inv (\<lambda>t :: ('r, 'z) journey_scheme. j_peers t = []) (act e c)"
    "stays_inv (\<lambda>t :: ('r, 'z) journey_scheme. j_peers t = []) (findBin e n)"
    "stays_inv (\<lambda>t :: ('r, 'z) journey_scheme. j_peers t = []) (if b = [] then setupSnapshot e sr bootArgs d else ret b)"
    "stays_inv (\<lambda>t :: ('r, 'z) journey_scheme. j_peers t = []) (whenM w (makeSnapshot e sr out cpuTemplate bootArgs netns snapDir d))"
    unfolding setupSnapshot_def makeSnapshot_def findBin_def by (intro stays stays_onHost; simp)+
  show "wp (act e c) (\<lambda>_ t. j_peers t = []) s" "wp (findBin e n) (\<lambda>_ t. j_peers t = []) s"
    "wp (if b = [] then setupSnapshot e sr bootArgs d else ret b) (\<lambda>_ t. j_peers t = []) s"
    "wp (whenM w (makeSnapshot e sr out cpuTemplate bootArgs netns snapDir d)) (\<lambda>_ t. j_peers t = []) s"
    by (rule st[THEN stays_wp], rule assms, assumption)+
qed

lemma defer_keeps: "wp m (\<lambda>_. oneRuns st) s \<Longrightarrow>
  wp (deferring (andThen (actIgnore e c) (\<lambda>_. actIgnore e d)) m) (\<lambda>_. oneRuns st) s" for s :: "('r, 'z) journey_scheme"
  unfolding wp_deferring by (rule wp_mono, assumption, rename_tac r t, case_tac r) (simp_all add: go_wp)

text \<open>A receiver that gets no custom data does not succeed.\<close>

lemma MigrateFrom_lost:
  fixes s :: "('r, 'z) peer_scheme"
  assumes "0 < nr" and "0 < nw"
  shows "wp (MigrateFrom e rp hooks devices nr nw (Inl x)) (\<lambda>r _. r \<noteq> Ok ()) s"
proof -
  have pipe: "wp (MigrateFromPipe e met i p cdh (Inl x)) (\<lambda>r _. r \<noteq> Ok ()) t" for met i p cdh and t :: "('r, 'z) peer_scheme"
  proof -
    have names: "wp (andThen (exposeAll e p names) (\<lambda>_. case Inl x of Inl x \<Rightarrow> throw x | Inr data \<Rightarrow> icdh cdh data))
        (\<lambda>r _. r \<noteq> Ok ()) t" for names and t :: "('r, 'z) peer_scheme"
      unfolding wp_andThen by (rule wp_any) (simp_all add: go_wp)
    show ?thesis
      unfolding MigrateFromPipe_def by (simp add: go_wp names[unfolded wp_andThen, simplified] split: option.split)
  qed
  have peer: "wp (migrateFromPeer e rp hooks (Inl x)) (\<lambda>r _. r \<noteq> Ok ()) t" for t :: "('r, 'z) peer_scheme"
    unfolding migrateFromPeer_def
    by (simp add: go_wp) (rule wpI, rename_tac r y, case_tac r, simp_all add: go_wp,
      rule wp_mono[OF pipe], rename_tac r t, case_tac r, simp_all add: go_wp)
  show ?thesis
    unfolding MigrateFrom_def setMetric_def
    using assms by (simp add: go_wp) (rule wp_mono[OF peer], rename_tac r t, case_tac r, simp_all add: go_wp)
qed

lemma stays_on:
  "stays_inv st m \<Longrightarrow> stays_inv (\<lambda>p :: ('r, 'z) peer_scheme. st (p_runtime p)) (onRuntime m)"
  by (auto simp: stays_inv_def onRuntime_def split: prod.splits)

context peer_contract
begin

lemma stays_peer_ops:
  "stays_inv (\<lambda>p :: ('r, 'z) peer_scheme. stopped (p_runtime p)) (StartPeer e rp log met dmet i)"
  "stays_inv (\<lambda>p :: ('r, 'z) peer_scheme. stopped (p_runtime p)) (MigrateFrom e rp hooks devices nr nw arrival)"
  "stays_inv (\<lambda>p :: ('r, 'z) peer_scheme. stopped (p_runtime p)) (watchTransfer e hooks)"
  "stays_inv (\<lambda>p :: ('r, 'z) peer_scheme. stopped (p_runtime p)) (peer_Close e rp)"
proof -
  let ?J = "\<lambda>p :: ('r, 'z) peer_scheme. stopped (p_runtime p)"
  have fs: "stays_inv ?J (MigrateFromFS e i p ds tw)" for i p ds tw
    by (rule stays_MigrateFromFS) simp
  have pipe: "stays_inv ?J (MigrateFromPipe e met i p cdh arrival)" for met i p cdh
    by (rule stays_MigrateFromPipe) simp_all
  note on = stays_on[OF start_keeps] stays_on[OF close_keeps] stays_on[OF reads_keep(1)] stays_on[OF reads_keep(2)]
  show "stays_inv ?J (StartPeer e rp log met dmet i)"
    unfolding StartPeer_def by (intro stays on; simp)
  show "stays_inv ?J (MigrateFrom e rp hooks devices nr nw arrival)"
    unfolding MigrateFrom_def migrateFromPeer_def migrateFromLocal_def setMetric_def setDG_def callPeerHook_def
    by (intro stays on fs pipe; simp)
  show "stays_inv ?J (watchTransfer e hooks)"
    unfolding watchTransfer_def setMetric_def backgroundErr_def callPeerHook_def by (intro stays; simp)
  show "stays_inv ?J (peer_Close e rp)"
    unfolding peer_Close_def closeDG_def logClosingError_def returnErr_def by (intro stays on; simp)
qed

end

text \<open>What the sender leaves, if \<open>tr0\<close> was its trace before; and what the receiver then does.\<close>

definition wasSent :: "('r \<Rightarrow> bool) \<Rightarrow> nat \<Rightarrow> mig_trace \<Rightarrow> ('r, 'z) journey_scheme \<Rightarrow> bool" where
  "wasSent st i tr0 t \<longleftrightarrow> between st i t \<and>
     (handovers (trace (j_peers t ! i)) \<noteq> handovers tr0 \<longrightarrow> chain st (Suc (Suc i)) (Suc i) t)"

lemma wasSent_fields [simp]: "wasSent st i tr0 (trace_update f t) = wasSent st i tr0 t"
  by (simp add: wasSent_def)

context peer_contract
begin

lemma send_follows:
  fixes s :: "('r, 'z) journey_scheme"
  assumes "\<And>df s. (dm_step df)\<^sup>*\<^sup>* s (snd (silo df s))" and "between stopped i s"
  shows "wp (onPeer i (MigrateTo pe rp silo True True opts ds payload)) (\<lambda>_. wasSent stopped i (trace (j_peers s ! i))) s"
  unfolding wp_onPeer
  by (rule wp_mono[OF MigrateTo_wp[OF assms(1)]])
    (use assms(2) in \<open>auto simp: wasSent_def between_def chain_def peer_stopped_def less_Suc_eq\<close>)

lemma arrival_follows:
  fixes s :: "('r, 'z) journey_scheme"
  assumes "wasSent stopped i tr0 s" and n: "0 < nr" "0 < nw"
  shows "wp (onPeer (Suc i) (MigrateFrom pe rp nextHooks devices nr nw (arrivalFrom tr0 (trace (j_peers s ! i)) lost)))
     (\<lambda>r t. between stopped i t \<and> (r = Ok () \<longrightarrow> chain stopped (Suc (Suc i)) (Suc i) t)) s"
proof (cases "handovers (trace (j_peers s ! i)) = handovers tr0")
  case True
  have keeps: "wp (onPeer (Suc i) (MigrateFrom pe rp nextHooks devices nr nw (Inl lost))) (\<lambda>_. between stopped i) s"
    by (rule onPeer_stopped(2)[OF stays_peer_ops(2)]) (use assms in \<open>simp add: wasSent_def\<close>)
  have fails: "wp (onPeer (Suc i) (MigrateFrom pe rp nextHooks devices nr nw (Inl lost))) (\<lambda>r _. r \<noteq> Ok ()) s"
    unfolding wp_onPeer by (rule MigrateFrom_lost[OF n])
  show ?thesis
    unfolding arrivalFrom_def if_P[OF True] by (rule wp_mono[OF wp_conj[OF keeps fails]]) simp
next
  case False
  then have "chain stopped (Suc (Suc i)) (Suc i) s" and "between stopped i s" using assms by (simp_all add: wasSent_def)
  then have "wp (onPeer (Suc i) (MigrateFrom pe rp nextHooks devices nr nw a))
      (\<lambda>_ t. between stopped i t \<and> chain stopped (Suc (Suc i)) (Suc i) t) s" for a
    by (intro wp_conj onPeer_stopped(2)[OF stays_peer_ops(2)] onPeer_last) simp_all
  then show ?thesis by (rule wp_mono) simp
qed

lemma sendTo_follows:
  fixes s :: "('r, 'z) journey_scheme"
  assumes hooks_only: "\<And>df s. (dm_step df)\<^sup>*\<^sup>* s (snd (silo df s))" and s: "between stopped i s"
  shows "wp (sendTo pe rp silo lost i devices) (\<lambda>r t. between stopped i t \<and>
     (r = Ok () \<longrightarrow> chain stopped (Suc (Suc i)) (Suc i) t)) s"
proof -
  let ?tr0 = "trace (j_peers s ! i)"
  have receive: "wp (orCrash (onPeer (Suc i) (MigrateFrom pe rp nextHooks devices 1 1 (arrivalFrom ?tr0 (trace (j_peers t ! i)) lost))) ret)
      (\<lambda>r t. between stopped i t \<and> (r = Ok () \<longrightarrow> chain stopped (Suc (Suc i)) (Suc i) t)) t"
    if "wasSent stopped i ?tr0 t" for t :: "('r, 'z) journey_scheme"
    unfolding orCrash_def wp_attempt
    by (rule wp_mono[OF arrival_follows[OF that zero_less_one zero_less_one]], rename_tac r u, case_tac r) (simp_all add: go_wp)
  show ?thesis
    unfolding sendTo_def wp_reading
    by (rule seq_rule(2)[OF send_follows[OF assms]]) (use receive in \<open>simp_all add: wp_reading wasSent_def\<close>)
qed

abbreviation reached :: "nat \<Rightarrow> unit res \<Rightarrow> ('r, 'z) journey_scheme \<Rightarrow> bool" where
  "reached i r t \<equiv> oneRuns stopped t \<and> (r = Ok () \<longrightarrow> chain stopped (Suc i) i t)"

lemma started:
  fixes s :: "('r, 'z) journey_scheme"
  assumes s: "length (j_peers s) = n" "\<forall>k < n - 1. stopped (p_runtime (j_peers s ! k))" and fresh: "stopped (p_runtime fresh)"
  shows "wp (startJourneyPeer pe rp fresh met n) (\<lambda>_ t. length (j_peers t) = Suc n \<and>
     (\<forall>k < n - 1. stopped (p_runtime (j_peers t ! k))) \<and> stopped (p_runtime (j_peers t ! n))) s"
  unfolding startJourneyPeer_def wp_andThen wp_update thenQ.simps wp_onPeer
  by (rule stays_wp[OF stays_peer_ops(1)]) (use s fresh in \<open>auto simp: nth_append nth_list_update\<close>)

lemma devices_keep:
  fixes s :: "('r, 'z) journey_scheme"
  assumes "P s" and "\<And>t f. P (trace_update f t) = P t"
  shows "wp (journeyDevicesFrom e snapDir i) (\<lambda>_. P) s"
  using assms by (auto simp: journeyDevicesFrom_def orCrash_def go_wp split: option.split)

lemma journeyStep_follows:
  fixes s :: "('r, 'z) journey_scheme"
  assumes hooks_only: "\<And>df s. (dm_step df)\<^sup>*\<^sup>* s (snd (silo i df s))" and s: "chain stopped (Suc i) i s"
    and fresh: "stopped (p_runtime fresh)"
  shows "wp (journeyStep e pe rp fresh met silo lost snapDir i) (reached (Suc i)) s"
proof -
  let ?C = "chain stopped (Suc (Suc i)) (Suc i) :: ('r, 'z) journey_scheme \<Rightarrow> bool"
  have one: "oneRuns stopped t" if "?C t" for t :: "('r, 'z) journey_scheme" using that by (rule chain_one) simp
  have start: "wp (startJourneyPeer pe rp fresh met (Suc i)) (\<lambda>_. between stopped i) s"
    by (rule wp_mono[OF started]) (use s fresh in \<open>auto simp: chain_def between_def\<close>)
  have close: "wp (orCrash (onPeer i (peer_Close pe rp)) (\<lambda>_. orCrash (onPeer (Suc i) (peer_Resume rp)) ret)) (reached (Suc i)) t"
    if "?C t" for t :: "('r, 'z) journey_scheme"
  proof (rule seq_rule(2)[OF onPeer_stopped(1)[OF stays_peer_ops(4) that]])
    show "wp (orCrash (onPeer (Suc i) (peer_Resume rp)) ret) (reached (Suc i)) u" if "?C u" for u :: "('r, 'z) journey_scheme"
      by (rule seq_rule(2)[OF onPeer_last[OF that]]) (simp_all add: one wp_ret)
  qed (simp_all add: one)
  have await: "wp (awaitCompletion pe (Suc i)) (\<lambda>_. ?C) t" if "?C t" for t :: "('r, 'z) journey_scheme"
    unfolding awaitCompletion_def doesNotEnd_def
    by (rule seq_rule(1)[OF onPeer_last[OF that]]) (simp_all add: go_wp)
  have sent: "wp (andThen (sendTo pe rp (silo i) (lost i) i devices) (\<lambda>_. andThen (awaitCompletion pe (Suc i)) (\<lambda>_.
      orCrash (onPeer i (peer_Close pe rp)) (\<lambda>_. orCrash (onPeer (Suc i) (peer_Resume rp)) ret)))) (reached (Suc i)) t"
    if "between stopped i t" for devices and t :: "('r, 'z) journey_scheme"
    unfolding wp_andThen[of "sendTo pe rp (silo i) (lost i) i devices"]
  proof (rule wp_mono[OF sendTo_follows[OF hooks_only that]], rename_tac r u, case_tac r, goal_cases)
    case (1 r u x)
    then have "?C u" by simp
    have "wp (andThen (awaitCompletion pe (Suc i)) (\<lambda>_. orCrash (onPeer i (peer_Close pe rp))
        (\<lambda>_. orCrash (onPeer (Suc i) (peer_Resume rp)) ret))) (reached (Suc i)) u"
      by (rule seq_rule(1)[OF await[OF \<open>?C u\<close>]]) (simp_all add: close one)
    then show ?case using 1 by simp
  qed (auto dest: between_one)
  show ?thesis
    unfolding journeyStep_def
  proof (rule seq_rule(2)[OF start])
    fix t :: "('r, 'z) journey_scheme"
    assume "between stopped i t"
    then show "wp (andThen (journeyDevicesFrom e snapDir (Suc i)) (\<lambda>devices.
        andThen (sendTo pe rp (silo i) (lost i) i devices) (\<lambda>_. andThen (awaitCompletion pe (Suc i)) (\<lambda>_.
        orCrash (onPeer i (peer_Close pe rp)) (\<lambda>_. orCrash (onPeer (Suc i) (peer_Resume rp)) ret))))) (reached (Suc i)) t"
      by (intro seq_rule(1)[OF devices_keep[where P = "between stopped i"]] sent) (auto dest: between_one)
  qed (auto dest: between_one)
qed

lemma journey_follows:
  fixes s :: "('r, 'z) journey_scheme"
  assumes hooks_only: "\<And>k df s. (dm_step df)\<^sup>*\<^sup>* s (snd (silo k df s))" and fresh: "stopped (p_runtime fresh)"
    and "chain stopped (Suc i) i s"
  shows "wp (forEach [i..<i + m] (journeyStep e pe rp fresh met silo lost snapDir)) (reached (i + m)) s"
  using assms(3)
proof (induction m arbitrary: i s)
  case 0
  then show ?case using chain_one[OF 0] by (simp add: wp_ret)
next
  case (Suc m)
  have upt: "[i..<i + Suc m] = i # [Suc i..<Suc i + m]" by (simp add: upt_conv_Cons)
  have rest: "wp (forEach [Suc i..<Suc i + m] (journeyStep e pe rp fresh met silo lost snapDir)) (reached (i + Suc m)) t"
    if "chain stopped (Suc (Suc i)) (Suc i) t" for t :: "('r, 'z) journey_scheme"
    using Suc.IH[OF that] by simp
  show ?case
    unfolding upt forEach.simps wp_andThen
    by (rule wp_mono[OF journeyStep_follows[OF hooks_only Suc.prems fresh]], rename_tac r t, case_tac r)
      (use rest in \<open>simp_all del: upt_Suc\<close>)
qed

text \<open>The first peer is resumed before there is another.\<close>

lemma firstPeer_follows:
  fixes s :: "('r, 'z) journey_scheme"
  assumes "j_peers s = []" and fresh: "stopped (p_runtime fresh)"
  shows "wp (firstPeer e pe rp fresh met snapDir) (\<lambda>_. chain stopped (Suc 0) 0) s"
proof -
  let ?C = "chain stopped (Suc 0) 0 :: ('r, 'z) journey_scheme \<Rightarrow> bool"
  have start: "wp (startJourneyPeer pe rp fresh met 0) (\<lambda>_. ?C) s"
    by (rule wp_mono[OF started]) (use assms in \<open>auto simp: chain_def\<close>)
  have on: "wp (onPeer 0 m) (\<lambda>_. ?C) t" if "?C t" for t :: "('r, 'z) journey_scheme" and m :: "('r peer, unit) go"
    by (rule onPeer_last[OF that]) simp
  show ?thesis
    unfolding firstPeer_def
    by (intro seq_rule(2)[OF start] seq_rule(1)[OF devices_keep[where P = "?C"]] seq_rule(2)[OF on])
      (simp_all add: wp_ret)
qed

lemma runJourney_follows:
  fixes s :: "('r, 'z) journey_scheme"
  assumes hooks_only: "\<And>k df s. (dm_step df)\<^sup>*\<^sup>* s (snd (silo k df s))" and fresh: "stopped (p_runtime fresh)"
    and "j_peers s = []"
  shows "wp (runJourney e pe rp fresh met silo lost snapDir n) (\<lambda>_. oneRuns stopped) s"
proof -
  let ?J = "oneRuns stopped :: ('r, 'z) journey_scheme \<Rightarrow> bool"
  let ?C = "chain stopped (Suc n) n :: ('r, 'z) journey_scheme \<Rightarrow> bool"
  have one: "?J t" if "?C t" for t using that by (rule chain_one) simp
  have last: "wp (orCrash (onPeer n (peer_Close pe rp)) ret) (\<lambda>_. ?J) t" if "?C t" for t :: "('r, 'z) journey_scheme"
    by (rule seq_rule(2)[OF onPeer_last[OF that]]) (simp_all add: one wp_ret)
  have rest: "wp (andThen (forEach [0..<n] (journeyStep e pe rp fresh met silo lost snapDir)) (\<lambda>_.
      orCrash (onPeer n (peer_Close pe rp)) ret)) (\<lambda>_. ?J) t" if "chain stopped (Suc 0) 0 t" for t :: "('r, 'z) journey_scheme"
    unfolding wp_andThen
    by (rule wp_mono[OF journey_follows[OF hooks_only fresh, where i = 0 and m = n, unfolded add_0, OF that]],
        rename_tac r t, case_tac r) (simp_all add: last)
  show ?thesis
    unfolding runJourney_def
    by (rule seq_rule(1)[OF firstPeer_follows[OF assms(3) fresh]]) (use rest in \<open>auto dest: chain_one\<close>)
qed

end

text \<open>C4. Whatever the devices, the pipes and the other calls do, and however often the machine is migrated, at no
  end of the program two of its peers have a machine that runs: a peer's machine is only resumed once the machine of
  the peer before it is stopped.\<close>

theorem one_machine_runs:
  fixes s :: "(rt_sys, 'z) journey_scheme"
  assumes "\<And>k df s. (dm_step df)\<^sup>*\<^sup>* s (snd (silo k df s))" and "\<not> rt_running (p_runtime fresh)"
    and "j_peers s = []"
  shows "wp (migtest_main e pe sr bootArgs (\<lambda>conf. firecrackerRuntime fe (c\<lparr>rc_Machine := conf\<rparr>) evs exit) fresh silo lost fl)
     (\<lambda>_ s'. \<forall>i j. i < j \<and> j < length (j_peers s') \<longrightarrow>
        \<not> rt_running (p_runtime (j_peers s' ! i)) \<or> \<not> rt_running (p_runtime (j_peers s' ! j))) s"
proof -
  let ?J = "oneRuns (\<lambda>x. \<not> rt_running x) :: (rt_sys, 'z) journey_scheme \<Rightarrow> bool"
  have none: "?J t" if "j_peers t = []" for t using that by (simp add: oneRuns_def)
  have "wp (migtest_main e pe sr bootArgs (\<lambda>conf. firecrackerRuntime fe (c\<lparr>rc_Machine := conf\<rparr>) evs exit) fresh silo lost fl)
     (\<lambda>_. ?J) s"
    unfolding migtest_main_def
    by (rule defer_keeps, intro seq_rule[OF no_peers_yet(1)] seq_rule[OF no_peers_yet(2)] seq_rule[OF no_peers_yet(3)]
        firecracker.runJourney_follows assms) (simp_all add: assms(3) none)
  then show ?thesis by (rule wp_mono) (simp add: oneRuns_def)
qed

section \<open>Example\<close>

definition journey_demo :: journey_env where
  "journey_demo = \<lparr>fails = \<lambda>_ _. None, binPath = \<lambda>n. ''/usr/bin/'' @ n\<rparr>"

definition peer_fresh :: "rt_sys peer" where
  "peer_fresh = peer_start\<lparr>p_runtime := rt_start\<lparr>rt_GrabMemory := False\<rparr>\<rparr>"

definition journey_start :: "rt_sys journey" where
  "journey_start = \<lparr>trace = [], j_peers = [], j_host = host_start\<rparr>"

definition run_demo :: snapshot_run where
  "run_demo = \<lparr>sr_env = snap_demo, sr_start = [Tick], sr_guest = AcceptReturned, sr_crashed = None,
     sr_exit = Some (MachineErr ErrSignalKilled)\<rparr>"

definition migtest_demo :: migtest_flags where
  "migtest_demo = \<lparr>mf_num = 2, mf_blueprints = ''blueprints'', mf_snapshot = ''snapshot'', mf_serveMetrics = False\<rparr>"

lemma fresh_start: "\<not> rt_running (p_runtime peer_fresh)" "j_peers journey_start = []"
  by (simp_all add: peer_fresh_def journey_start_def peer_start_def rt_start_def fc_machine.defs fc_running_def
      from_sys.defs peer.defs)

theorem one_machine_runs_witness:
  "\<exists>r s. migtest_main journey_demo peer_demo run_demo ''console=ttyS0'' (\<lambda>conf. firecrackerRuntime (rt_demo None)
       (rc_demo\<lparr>rc_Machine := conf\<rparr>) [Tick] (Some (MachineErr ErrSignalKilled)))
       peer_fresh (\<lambda>_. one_cycle) (\<lambda>_. IoEOF) migtest_demo journey_start = (r, s) \<and>
     (\<forall>i j. i < j \<and> j < length (j_peers s) \<longrightarrow>
        \<not> rt_running (p_runtime (j_peers s ! i)) \<or> \<not> rt_running (p_runtime (j_peers s ! j)))"
  using one_machine_runs[of "\<lambda>_. one_cycle" peer_fresh journey_start journey_demo peer_demo run_demo "''console=ttyS0''"
      "rt_demo None" rc_demo "[Tick]" "Some (MachineErr ErrSignalKilled)" "\<lambda>_. IoEOF" migtest_demo,
      OF one_cycle_hooks_only fresh_start]
  unfolding wp_def by (auto split: prod.splits)

end
