(* ===== verification/NetJourney.thy ===== *)
theory NetJourney
  imports Journey
begin

text \<open>
  The program that passes machines on over the network (\<^verbatim>\<open>cmd/drafter-mignettest/main.go\<close>, \<^verbatim>\<open>util.go\<close>): if told to,
  it resumes a first peer from a snapshot and sends its machine to another host; then it accepts connections, and for
  each it receives a machine, lets it run for a while and sends it on. The other hosts are not modelled: what reaches
  a receiver is a parameter, one for each connection. Statistics are left out.
\<close>

section \<open>Flags and devices\<close>

record net_flags =
  nf_iterations :: int
  nf_blueprintsDir :: string
  nf_snapshotsDir :: string
  nf_start :: bool
  nf_testDirectory :: string
  nf_networkNamespace :: string
  nf_destinationAddr :: string
  nf_listenAddr :: string
  nf_waitForComplete :: bool
  nf_usePVM :: bool
  nf_s3sync :: bool
  nf_s3endpoint :: string
  nf_s3bucket :: string
  nf_s3accesskey :: string
  nf_s3secretkey :: string

definition withS3 :: "net_flags \<Rightarrow> migrate_from_device \<Rightarrow> migrate_from_device" where
  "withS3 fl d = d\<lparr>mf_S3Sync := True, mf_S3AccessKey := nf_s3accesskey fl, mf_S3SecretKey := nf_s3secretkey fl,
     mf_S3Endpoint := nf_s3endpoint fl, mf_S3Secure := True, mf_S3Bucket := nf_s3bucket fl, mf_S3Concurrency := 10,
     mf_S3BlockShift := 2, mf_S3OnlyDirty := False, mf_S3MaxAge := ''100ms'', mf_S3MinChanged := 4, mf_S3Limit := 256,
     mf_S3CheckPeriod := ''100ms''\<rparr>"

definition netDeviceFrom :: "net_flags \<Rightarrow> string \<Rightarrow> string \<Rightarrow> migrate_from_device" where
  "netDeviceFrom fl dir n = (let d = journeyDeviceFrom (nf_snapshotsDir fl) dir n in
     if nf_s3sync fl \<and> (n = DeviceMemoryName \<or> n = DeviceDiskName) then withS3 fl d else d)"

definition netDir :: "net_flags \<Rightarrow> nat \<Rightarrow> string" where
  "netDir fl i = filepath_Join [nf_testDirectory fl, ''migration_'' @ show_nat i]"

definition netDevicesFrom ::
    "('x) journey_env_scheme \<Rightarrow> net_flags \<Rightarrow> nat \<Rightarrow> (('r, 'z) journey_scheme, migrate_from_device list) go" where
  "netDevicesFrom e fl i = orCrash (act e (MakeTestDir (netDir fl i))) (\<lambda>_.
     ret (map (netDeviceFrom fl (netDir fl i)) journeyNames))"

section \<open>A machine that is received and sent on\<close>

definition sendOptions :: migrate_to_options where
  "sendOptions = \<lparr>opt_Concurrency = 10, opt_Compression = True, opt_CompressionType = 0\<rparr>"

definition resumeAndAwait ::
    "('y) peer_env_scheme \<Rightarrow> ('r, 'w) runtime_provider_scheme \<Rightarrow> bool \<Rightarrow> nat \<Rightarrow> (('r, 'z) journey_scheme, unit) go" where
  "resumeAndAwait pe rp waitForComplete i = (if waitForComplete
     then andThen (awaitCompletion pe i) (\<lambda>_. onPeer i (peer_Resume rp))
     else andThen (onPeer i (peer_Resume rp)) (\<lambda>_. awaitCompletion pe i))"

text \<open>If the next host cannot be reached the machine is closed.\<close>

definition sendOn ::
    "('x) journey_env_scheme \<Rightarrow> ('y) peer_env_scheme \<Rightarrow> ('r, 'w) runtime_provider_scheme \<Rightarrow> 'r peer silo_dirty \<Rightarrow>
     string \<Rightarrow> nat \<Rightarrow> (('r, 'z) journey_scheme, unit) go" where
  "sendOn e pe rp silo dest i = attempt (act e (DialTest dest)) (\<lambda>r. case r of
      Inl x \<Rightarrow> attempt (onPeer i (peer_Close pe rp)) (\<lambda>c.
        returnErr (errors_Join [Some x, errOf c]))
    | Inr _ \<Rightarrow> andThen (onPeer i (MigrateTo pe rp silo True True sendOptions journeyDevicesTo (Some (Some [])))) (\<lambda>_.
        andThen (act e CloseTestConn) (\<lambda>_. onPeer i (peer_Close pe rp))))"

definition handleConnection ::
    "('x) journey_env_scheme \<Rightarrow> ('y) peer_env_scheme \<Rightarrow> ('r, 'w) runtime_provider_scheme \<Rightarrow> net_flags \<Rightarrow> 'r peer \<Rightarrow>
     (nat \<Rightarrow> 'r peer silo_dirty) \<Rightarrow> goerr + string \<Rightarrow> nat \<Rightarrow> (('r, 'z) journey_scheme, unit) go" where
  "handleConnection e pe rp fl fresh silo arrival migration = reading (\<lambda>s. length (j_peers s)) (\<lambda>i.
     andThen (startJourneyPeer pe rp fresh False i) (\<lambda>_.
     andThen (netDevicesFrom e fl (Suc migration)) (\<lambda>devices.
     andThen (onPeer i (MigrateFrom pe rp nextHooks devices 1 1 arrival)) (\<lambda>_.
     andThen (resumeAndAwait pe rp (nf_waitForComplete fl) i) (\<lambda>_.
     sendOn e pe rp (silo i) (nf_destinationAddr fl) i)))))"

section \<open>The program\<close>

definition setupFirstPeer ::
    "('x) journey_env_scheme \<Rightarrow> ('y) peer_env_scheme \<Rightarrow> ('r, 'w) runtime_provider_scheme \<Rightarrow> net_flags \<Rightarrow> 'r peer \<Rightarrow>
     (('r, 'z) journey_scheme, unit) go" where
  "setupFirstPeer e pe rp fl fresh =
     andThen (startJourneyPeer pe rp fresh False 0) (\<lambda>_.
     andThen (netDevicesFrom e fl 0) (\<lambda>devices.
     andThen (onPeer 0 (MigrateFrom pe rp firstHooks devices 0 0 (Inr []))) (\<lambda>_.
     onPeer 0 (peer_Resume rp))))"

text \<open>Whether the program goes on to accept connections.\<close>

definition startHere ::
    "('x) journey_env_scheme \<Rightarrow> ('y) peer_env_scheme \<Rightarrow> ('r, 'w) runtime_provider_scheme \<Rightarrow> net_flags \<Rightarrow> 'r peer \<Rightarrow>
     'r peer silo_dirty \<Rightarrow> (('r, 'z) journey_scheme, bool) go" where
  "startHere e pe rp fl fresh silo =
     orCrash (setupFirstPeer e pe rp fl fresh) (\<lambda>_.
     attempt (act e (DialTest (nf_destinationAddr fl))) (\<lambda>r. case r of
       Inl _ \<Rightarrow> orCrash (onPeer 0 (peer_Close pe rp)) (\<lambda>_. ret False)
     | Inr _ \<Rightarrow> orCrash (onPeer 0 (MigrateTo pe rp silo True True sendOptions journeyDevicesTo (Some (Some [])))) (\<lambda>_.
         orCrash (act e CloseTestConn) (\<lambda>_.
         orCrash (onPeer 0 (peer_Close pe rp)) (\<lambda>_. ret True)))))"

text \<open>An error of a connection is only logged, and ends the program. When no more connections come it waits.\<close>

fun serveConnections ::
    "('x) journey_env_scheme \<Rightarrow> ('y) peer_env_scheme \<Rightarrow> ('r, 'w) runtime_provider_scheme \<Rightarrow> net_flags \<Rightarrow> 'r peer \<Rightarrow>
     (nat \<Rightarrow> 'r peer silo_dirty) \<Rightarrow> (goerr + string) list \<Rightarrow> nat \<Rightarrow> (('r, 'z) journey_scheme, unit) go" where
  "serveConnections e pe rp fl fresh silo [] migration = doesNotEnd"
| "serveConnections e pe rp fl fresh silo (arrival # arrivals) migration =
     orCrash (act e AcceptTest) (\<lambda>_.
     attempt (handleConnection e pe rp fl fresh silo arrival migration) (\<lambda>r. case r of
       Inl _ \<Rightarrow> ret ()
     | Inr _ \<Rightarrow> if int (Suc migration) = nf_iterations fl then ret ()
         else serveConnections e pe rp fl fresh silo arrivals (Suc migration)))"

definition startAndServe ::
    "('x) journey_env_scheme \<Rightarrow> ('y) peer_env_scheme \<Rightarrow> ('r, 'w) runtime_provider_scheme \<Rightarrow> net_flags \<Rightarrow> 'r peer \<Rightarrow>
     (nat \<Rightarrow> 'r peer silo_dirty) \<Rightarrow> (goerr + string) list \<Rightarrow> (('r, 'z) journey_scheme, unit) go" where
  "startAndServe e pe rp fl fresh silo arrivals =
     andThen (if nf_start fl then startHere e pe rp fl fresh (silo 0) else ret True) (\<lambda>goOn. whenM goOn
     (orCrash (act e (ListenTest (nf_listenAddr fl))) (\<lambda>_.
      serveConnections e pe rp fl fresh silo arrivals 0)))"

text \<open>\<open>bootArgs\<close> and \<open>bootArgsNoPVM\<close> are the snapshotter's constants.\<close>

definition mignettest_main ::
    "('x) journey_env_scheme \<Rightarrow> ('y) peer_env_scheme \<Rightarrow> snapshot_run \<Rightarrow> string \<Rightarrow> string \<Rightarrow>
     (machine_config \<Rightarrow> ('r, 'w) runtime_provider_scheme) \<Rightarrow> 'r peer \<Rightarrow> (nat \<Rightarrow> 'r peer silo_dirty) \<Rightarrow>
     (goerr + string) list \<Rightarrow> net_flags \<Rightarrow> (('r, 'z) journey_scheme, unit) go" where
  "mignettest_main e pe sr bootArgs bootArgsNoPVM rp fresh silo arrivals fl =
     orCrash (whenM (nf_blueprintsDir fl \<noteq> []) (makeSnapshot e sr True (if nf_usePVM fl then ''T2A'' else ''None'')
       (if nf_usePVM fl then bootArgs else bootArgsNoPVM) (nf_networkNamespace fl) (nf_snapshotsDir fl)
       (nf_blueprintsDir fl))) (\<lambda>_.
     orCrash (findBin e ''firecracker'') (\<lambda>firecrackerBin.
     orCrash (findBin e ''jailer'') (\<lambda>jailerBin.
     orCrash (act e (MakeTestDir (nf_testDirectory fl))) (\<lambda>_.
     startAndServe e pe (rp (journeyMachine (nf_testDirectory fl) (nf_networkNamespace fl) firecrackerBin jailerBin))
       fl fresh silo arrivals))))"

section \<open>A peer that closes without an error has stopped\<close>

text \<open>
  \<open>whole\<close> is what a runtime has once it was resumed without an error, and what makes its end stop the machine:
  a runtime whose resume failed may have a machine that runs but nothing to suspend it with.
\<close>

locale closing_contract = peer_contract rp stopped
  for rp :: "('r, 'y) runtime_provider_scheme" and stopped :: "'r \<Rightarrow> bool" +
  fixes whole :: "'r \<Rightarrow> bool"
  assumes resume_makes: "rp_Resume rp x = (Ok u, y) \<Longrightarrow> whole y"
    and suspend_whole: "whole (snd (rp_Suspend rp x)) = whole x"
    and flush_whole: "whole (snd (rp_FlushData rp x)) = whole x"
    and stopped_whole: "stopped x \<Longrightarrow> whole x"
    and close_stops: "whole x \<Longrightarrow> rp_Close rp x = (Ok v, y) \<Longrightarrow> stopped y"
begin

lemma wp_same:
  assumes "\<And>x. W (snd (m x)) = W x" and "\<And>r t. W t = W s \<Longrightarrow> Q r t"
  shows "wp m Q s"
  using assms(2) assms(1)[of s] by (cases "m s") (simp add: wp_def)

lemma migration_outside:
  "outside (migrationFuncs e rp onBefore onAfter payload :: ('r, 'z) peer_scheme dm_funcs) (\<lambda>x. whole (p_runtime x)) (\<lambda>x. if whole (p_runtime x) then 0 else 1)"
proof
  let ?W = "\<lambda>x. whole (p_runtime x)"
  have flush: "?W (snd (flushClosure e rp x)) = ?W x" for x :: "('r, 'z) peer_scheme"
  proof -
    have "wp (flushClosure e rp) (\<lambda>_ y. ?W y = ?W x) x"
      unfolding flushClosure_def addMetric_def
      by (simp add: go_wp) (rule wp_same[where W = whole, OF flush_whole], rename_tac r t, case_tac r, simp_all add: go_wp)
    then show ?thesis by (simp add: wp_def case_prod_unfold)
  qed
  have suspend: "?W (snd (suspendClosure rp x)) = ?W x" for x :: "('r, 'z) peer_scheme"
  proof -
    have "wp (suspendClosure rp) (\<lambda>_ y. ?W y = ?W x) x"
      unfolding suspendClosure_def setMetric_def
      by (simp add: go_wp) (rule wp_same[where W = whole, OF suspend_whole], rename_tac r t, case_tac r, simp_all add: go_wp)
    then show ?thesis by (simp add: wp_def case_prod_unfold)
  qed
  have suspended: "?W y" if "suspendClosure rp x = (Ok u, y)" for u and x y :: "('r, 'z) peer_scheme"
  proof -
    have "wp (suspendClosure rp) (\<lambda>r y. r = Ok () \<longrightarrow> ?W y) x"
      unfolding suspendClosure_def setMetric_def
      by (simp add: go_wp) (rule wpI, rename_tac r t, case_tac r, auto simp: go_wp intro: stopped_whole suspend_stops)
    then show ?thesis using that by (simp add: wp_def)
  qed
  show "?W y" if "suspendFunc (migrationFuncs e rp onBefore onAfter payload) x = (Ok u, y)"
    for u and x y :: "('r, 'z) peer_scheme"
    by (rule suspended[of x u]) (use that in simp)
  show "?W (snd (authorityTransfer (migrationFuncs e rp onBefore onAfter payload) x))" if "?W x" for x :: "('r, 'z) peer_scheme"
    using that by (simp add: authTransfer_def act_def record_call_def split: option.split)
  show "?W (snd (msyncFunc (migrationFuncs e rp onBefore onAfter payload) x))" if "?W x" for x :: "('r, 'z) peer_scheme"
    using that flush by simp
  show "(if ?W (snd (suspendFunc (migrationFuncs e rp onBefore onAfter payload) x)) then 0 else 1 :: nat) = (if ?W x then 0 else 1)"
    "(if ?W (snd (msyncFunc (migrationFuncs e rp onBefore onAfter payload) x)) then 0 else 1 :: nat) = (if ?W x then 0 else 1)"
    for x :: "('r, 'z) peer_scheme"
    using flush[of x] suspend[of x] by simp_all
qed (auto simp: suspendHook_def split: if_splits)

lemma MigrateTo_whole:
  fixes x :: "('r, 'z) peer_scheme"
  assumes hooks_only: "\<And>df s. (dm_step df)\<^sup>*\<^sup>* s (snd (silo df s))" and x: "whole (p_runtime x)"
  shows "wp (MigrateTo e rp silo onBefore onAfter options devices payload) (\<lambda>_ y. whole (p_runtime y)) x"
proof -
  have run: "wp (onNewVMState (\<lambda>(vf, vm). MigrateToPipe e silo vf met i options devices payload vm)
      (NewVMStateMgr (suspendClosure rp) (flushClosure e rp)
        (suspendHook onBefore HookBeforeSuspend) (suspendHook onAfter HookAfterSuspend)))
     (\<lambda>_ y. whole (p_runtime y)) y" if "whole (p_runtime y)" for met i and y :: "('r, 'z) peer_scheme"
    using MigrateToPipe_follows[OF migration_outside[of e onBefore onAfter payload] hooks_only,
        where x = y and met = met and i = i and options = options and devices = devices] that
    by (auto simp: wp_def onNewVMState_def NewVMStateMgr_def follows_def split: prod.splits if_splits)
  show ?thesis
    unfolding MigrateTo_def setMetric_def
    by (simp add: go_wp, rule wp_mono[OF run]) (simp_all add: go_wp x)
qed

lemma peer_Close_stops:
  fixes x :: "('r, 'z) peer_scheme"
  assumes "whole (p_runtime x)"
  shows "wp (peer_Close e rp) (\<lambda>r y. r = Ok () \<longrightarrow> stopped (p_runtime y)) x"
proof -
  let ?rest = "\<lambda>r. andThen (logClosingError r) (\<lambda>_. attempt (closeDG e) (\<lambda>errDG.
     andThen (reading (\<lambda>s. (p_met s, p_instanceID s)) (\<lambda>(met, i). whenM met (actIgnore e (RemoveAllID i)))) (\<lambda>_.
     returnErr (errors_Join [errOf r, errOf errDG]))))"
  have keeps: "stays_inv (\<lambda>y :: ('r, 'z) peer_scheme. stopped (p_runtime y)) (?rest r)" for r
    unfolding closeDG_def logClosingError_def returnErr_def by (intro stays; simp)
  have closed: "wp (?rest (Inr ())) (\<lambda>r y. r = Ok () \<longrightarrow> stopped (p_runtime y)) y" if "stopped (p_runtime y)" for y :: "('r, 'z) peer_scheme"
    by (rule stays_wp[OF keeps that]) simp
  have failed: "wp (?rest (Inl z)) (\<lambda>r y. r = Ok () \<longrightarrow> stopped (p_runtime y)) y" for z and y :: "('r, 'z) peer_scheme"
    by (simp add: logClosingError_def closeDG_def returnErr_def errors_Join_def go_wp split: option.split)
  show ?thesis
    unfolding peer_Close_def wp_attempt wp_onRuntime
    by (rule wpI, rename_tac r y, case_tac r) (use assms closed failed close_stops in \<open>simp_all add: go_wp\<close>)
qed

end

section \<open>Following the peers\<close>

definition onlyLast :: "('r \<Rightarrow> bool) \<Rightarrow> ('r, 'z) journey_scheme \<Rightarrow> bool" where
  "onlyLast st s \<longleftrightarrow> (\<forall>i. Suc i < length (j_peers s) \<longrightarrow> st (p_runtime (j_peers s ! i)))"

lemma chain_onlyLast: "chain st n i s \<Longrightarrow> n \<le> Suc i \<Longrightarrow> onlyLast st s"
  by (auto simp: chain_def onlyLast_def)

lemma seq_ok:
  assumes "wp m (\<lambda>r t. C t \<and> (r = Ok () \<longrightarrow> P t)) s" and "\<And>t. P t \<Longrightarrow> wp (k ()) R t"
    and "\<And>x t. C t \<Longrightarrow> R (Err x) t" and "\<And>x t. C t \<Longrightarrow> R (Panic x) t"
  shows "wp (andThen m k) R s" "wp (orCrash m k) R s"
proof -
  show "wp (andThen m k) R s"
    unfolding wp_andThen by (rule wp_mono[OF assms(1)], rename_tac r t, case_tac r) (simp_all add: assms(2-4))
  show "wp (orCrash m k) R s"
    unfolding orCrash_def wp_attempt
    by (rule wp_mono[OF assms(1)], rename_tac r t, case_tac r) (simp_all add: assms(2-4) wp_panic)
qed

lemma wp_weaken_ok: "wp m (\<lambda>_. P) s \<Longrightarrow> (\<And>t. P t \<Longrightarrow> C t) \<Longrightarrow> wp m (\<lambda>r t. C t \<and> (r = Ok () \<longrightarrow> P t)) s"
  by (rule wp_mono, assumption) auto

context closing_contract
begin

abbreviation resumed :: "nat \<Rightarrow> ('r, 'z) journey_scheme \<Rightarrow> bool" where
  "resumed n t \<equiv> chain stopped (Suc n) n t \<and> whole (p_runtime (j_peers t ! n))"

abbreviation ending :: "nat \<Rightarrow> unit res \<Rightarrow> ('r, 'z) journey_scheme \<Rightarrow> bool" where
  "ending n r t \<equiv> chain stopped (Suc n) n t \<and> (r = Ok () \<longrightarrow> chain stopped (Suc n) (Suc n) t)"

lemma resumed_stays:
  fixes s :: "('r, 'z) journey_scheme"
  assumes "wp m (\<lambda>_ p. whole (p_runtime p)) (j_peers s ! n)" and "chain stopped (Suc n) n s"
  shows "wp (onPeer n m) (\<lambda>_. resumed n) s"
  unfolding wp_onPeer by (rule wp_mono[OF assms(1)]) (use assms(2) in \<open>auto simp: chain_def\<close>)

lemma close_ends:
  fixes s :: "('r, 'z) journey_scheme"
  assumes "resumed n s"
  shows "wp (onPeer n (peer_Close pe rp)) (ending n) s"
  unfolding wp_onPeer
  by (rule wp_mono[OF peer_Close_stops]) (use assms in \<open>auto simp: chain_def nth_list_update\<close>)

lemma resume_resumes:
  fixes s :: "('r, 'z) journey_scheme"
  assumes "chain stopped (Suc n) n s"
  shows "wp (onPeer n (peer_Resume rp)) (\<lambda>r t. chain stopped (Suc n) n t \<and> (r = Ok () \<longrightarrow> resumed n t)) s"
proof -
  have "wp (peer_Resume rp) (\<lambda>r p. r = Ok () \<longrightarrow> whole (p_runtime p)) (j_peers s ! n)"
    unfolding peer_Resume_def setMetric_def
    by (simp add: go_wp) (rule wpI, rename_tac r t, case_tac r, auto simp: go_wp dest: resume_makes)
  then show ?thesis
    unfolding wp_onPeer by (rule wp_mono) (use assms in \<open>auto simp: chain_def nth_list_update\<close>)
qed

lemma await_keeps:
  fixes s :: "('r, 'z) journey_scheme"
  shows "resumed n s \<Longrightarrow> wp (awaitCompletion pe n) (\<lambda>_. resumed n) s"
    "chain stopped (Suc n) n s \<Longrightarrow> wp (awaitCompletion pe n) (\<lambda>_. chain stopped (Suc n) n) s"
proof -
  have watch: "stays_inv (\<lambda>p :: 'r peer. whole (p_runtime p)) (watchTransfer pe nextHooks)"
    unfolding watchTransfer_def setMetric_def backgroundErr_def callPeerHook_def by (intro stays; simp)
  show "wp (awaitCompletion pe n) (\<lambda>_. resumed n) s" if "resumed n s"
    unfolding awaitCompletion_def doesNotEnd_def
    by (rule seq_rule(1)[OF resumed_stays[OF stays_wp[OF watch]]]) (use that in \<open>simp_all add: go_wp\<close>)
  show "wp (awaitCompletion pe n) (\<lambda>_. chain stopped (Suc n) n) s" if "chain stopped (Suc n) n s"
    unfolding awaitCompletion_def doesNotEnd_def
    by (rule seq_rule(1)[OF onPeer_last[OF that]]) (simp_all add: go_wp)
qed

lemma resumeAndAwait_resumes:
  fixes s :: "('r, 'z) journey_scheme"
  assumes "chain stopped (Suc n) n s"
  shows "wp (resumeAndAwait pe rp w n) (\<lambda>r t. chain stopped (Suc n) n t \<and> (r = Ok () \<longrightarrow> resumed n t)) s"
proof (cases w)
  case True
  show ?thesis
    unfolding resumeAndAwait_def if_P[OF True]
    by (rule seq_rule(1)[OF await_keeps(2)[OF assms]]) (simp_all add: resume_resumes)
next
  case False
  show ?thesis
    unfolding resumeAndAwait_def if_not_P[OF False]
  proof (rule seq_ok(1)[OF resume_resumes[OF assms]])
    show "wp (awaitCompletion pe n) (\<lambda>r t. chain stopped (Suc n) n t \<and> (r = Ok () \<longrightarrow> resumed n t)) t"
      if "resumed n t" for t :: "('r, 'z) journey_scheme"
      by (rule wp_weaken_ok[OF await_keeps(1)[OF that]]) simp
  qed simp_all
qed

lemma send_keeps:
  fixes s :: "('r, 'z) journey_scheme"
  assumes "\<And>df s. (dm_step df)\<^sup>*\<^sup>* s (snd (silo df s))" and "resumed n s"
  shows "wp (onPeer n (MigrateTo pe rp silo True True sendOptions devices payload)) (\<lambda>_. resumed n) s"
  by (rule resumed_stays[OF MigrateTo_whole[OF assms(1)]]) (use assms(2) in simp_all)

lemma act_keeps:
  fixes s :: "('r, 'z) journey_scheme"
  shows "resumed n s \<Longrightarrow> wp (act e c) (\<lambda>_. resumed n) s"
  by (simp add: go_wp split: option.split)

lemma sendOn_ends:
  fixes s :: "('r, 'z) journey_scheme"
  assumes hooks_only: "\<And>df s. (dm_step df)\<^sup>*\<^sup>* s (snd (silo df s))" and s: "resumed n s"
  shows "wp (sendOn e pe rp silo dest n) (ending n) s"
proof -
  have unreached: "wp (attempt (onPeer n (peer_Close pe rp)) (\<lambda>c. returnErr (errors_Join [Some x, errOf c]))) (ending n) t"
    if "resumed n t" for x and t :: "('r, 'z) journey_scheme"
    unfolding wp_attempt
    by (rule wp_mono[OF close_ends[OF that]], rename_tac r u, case_tac r)
      (simp_all add: returnErr_def errors_Join_def go_wp)
  have closed: "wp (andThen (act e CloseTestConn) (\<lambda>_. onPeer n (peer_Close pe rp))) (ending n) t"
    if "resumed n t" for t :: "('r, 'z) journey_scheme"
    by (rule seq_rule(1)[OF act_keeps[OF that]]) (simp_all add: close_ends)
  have reached: "wp (andThen (onPeer n (MigrateTo pe rp silo True True sendOptions journeyDevicesTo (Some (Some [])))) (\<lambda>_.
      andThen (act e CloseTestConn) (\<lambda>_. onPeer n (peer_Close pe rp)))) (ending n) t" if "resumed n t" for t :: "('r, 'z) journey_scheme"
    by (rule seq_rule(1)[OF send_keeps[OF hooks_only that]]) (simp_all add: closed)
  show ?thesis
    unfolding sendOn_def wp_attempt
    by (rule wp_mono[OF act_keeps[OF s]], rename_tac r t, case_tac r) (simp_all add: unreached reached)
qed

lemma net_devices_keep:
  fixes s :: "('r, 'z) journey_scheme"
  assumes "P s" and "\<And>t f. P (trace_update f t) = P t"
  shows "wp (netDevicesFrom e fl i) (\<lambda>_. P) s"
  using assms by (auto simp: netDevicesFrom_def orCrash_def go_wp split: option.split)

lemma start_next:
  fixes s :: "('r, 'z) journey_scheme"
  assumes "chain stopped n n s" and "stopped (p_runtime fresh)"
  shows "wp (startJourneyPeer pe rp fresh met n) (\<lambda>_. chain stopped (Suc n) n) s"
  unfolding startJourneyPeer_def wp_andThen wp_update thenQ.simps
  by (rule onPeer_last) (use assms in \<open>auto simp: chain_def nth_append\<close>)

lemma handleConnection_ends:
  fixes s :: "('r, 'z) journey_scheme"
  assumes hooks_only: "\<And>k df s. (dm_step df)\<^sup>*\<^sup>* s (snd (silo k df s))" and fresh: "stopped (p_runtime fresh)"
    and s: "chain stopped n n s"
  shows "wp (handleConnection e pe rp fl fresh silo arrival migration) (ending n) s"
proof -
  let ?C = "chain stopped (Suc n) n :: ('r, 'z) journey_scheme \<Rightarrow> bool"
  let ?pass = "andThen (resumeAndAwait pe rp (nf_waitForComplete fl) n) (\<lambda>_. sendOn e pe rp (silo n) (nf_destinationAddr fl) n)"
  have n: "length (j_peers s) = n" using s by (simp add: chain_def)
  have pass: "wp ?pass (ending n) t" if "?C t" for t :: "('r, 'z) journey_scheme"
    by (rule seq_ok(1)[OF resumeAndAwait_resumes[OF that]]) (simp_all add: sendOn_ends[OF hooks_only])
  have receive: "wp (andThen (onPeer n (MigrateFrom pe rp nextHooks devices 1 1 arrival)) (\<lambda>_. ?pass)) (ending n) t"
    if "?C t" for devices and t :: "('r, 'z) journey_scheme"
    by (rule seq_rule(1)[OF onPeer_last[OF that]]) (simp_all add: pass)
  show ?thesis
    unfolding handleConnection_def wp_reading n
    by (intro seq_rule(1)[OF start_next[OF s fresh]] seq_rule(1)[OF net_devices_keep[where P = ?C]] receive) simp_all
qed

lemma serveConnections_follows:
  fixes s :: "('r, 'z) journey_scheme"
  assumes hooks_only: "\<And>k df s. (dm_step df)\<^sup>*\<^sup>* s (snd (silo k df s))" and fresh: "stopped (p_runtime fresh)"
    and "chain stopped n n s"
  shows "wp (serveConnections e pe rp fl fresh silo arrivals migration) (\<lambda>_. onlyLast stopped) s"
  using assms(3)
proof (induction arrivals arbitrary: n migration s)
  case Nil
  then show ?case by (simp add: doesNotEnd_def wp_panic chain_onlyLast)
next
  case (Cons arrival arrivals)
  have last: "onlyLast stopped t" if "chain stopped (Suc n) n t" for t :: "('r, 'z) journey_scheme"
    using that by (rule chain_onlyLast) simp
  have served: "wp (attempt (handleConnection e pe rp fl fresh silo arrival migration) (\<lambda>r. case r of
       Inl _ \<Rightarrow> ret ()
     | Inr _ \<Rightarrow> if int (Suc migration) = nf_iterations fl then ret ()
         else serveConnections e pe rp fl fresh silo arrivals (Suc migration))) (\<lambda>_. onlyLast stopped) t"
    if "chain stopped n n t" for t :: "('r, 'z) journey_scheme"
    unfolding wp_attempt
    by (rule wp_mono[OF handleConnection_ends[OF hooks_only fresh that]], rename_tac r u, case_tac r)
      (auto simp: go_wp last intro: Cons.IH)
  have accepted: "wp (act e AcceptTest) (\<lambda>_. chain stopped n n) s"
    using Cons.prems by (simp add: go_wp split: option.split)
  show ?case
    unfolding serveConnections.simps
    by (rule seq_rule(2)[OF accepted]) (use served chain_onlyLast[of stopped n n] in auto)
qed

lemma startHere_follows:
  fixes s :: "('r, 'z) journey_scheme"
  assumes hooks_only: "\<And>df s. (dm_step df)\<^sup>*\<^sup>* s (snd (silo df s))" and fresh: "stopped (p_runtime fresh)"
    and s: "j_peers s = []"
  shows "wp (startHere e pe rp fl fresh silo) (\<lambda>r t. chain stopped (Suc 0) 0 t \<and>
     ((\<exists>x. r = Ok x) \<longrightarrow> chain stopped (Suc 0) (Suc 0) t)) s"
proof -
  let ?C = "chain stopped (Suc 0) 0 :: ('r, 'z) journey_scheme \<Rightarrow> bool"
  let ?E = "\<lambda>r (t :: ('r, 'z) journey_scheme). ?C t \<and> ((\<exists>x :: bool. r = Ok x) \<longrightarrow> chain stopped (Suc 0) (Suc 0) t)"
  have start: "wp (startJourneyPeer pe rp fresh mt 0) (\<lambda>_. ?C) s" for mt
    by (rule start_next) (use s fresh in \<open>simp_all add: chain_def\<close>)
  have first: "wp (setupFirstPeer e pe rp fl fresh) (\<lambda>r t. ?C t \<and> (r = Ok () \<longrightarrow> resumed 0 t)) s"
    unfolding setupFirstPeer_def
    by (intro seq_rule(1)[OF start] seq_rule(1)[OF net_devices_keep[where P = ?C]] seq_rule(1)[OF onPeer_last] resume_resumes)
      simp_all
  have close: "wp (orCrash (onPeer 0 (peer_Close pe rp)) (\<lambda>_. ret goOn)) ?E t" if "resumed 0 t" for goOn and t :: "('r, 'z) journey_scheme"
    by (rule seq_ok(2)[OF close_ends[OF that]]) (simp_all add: wp_ret chain_def)
  have closed: "wp (orCrash (act e CloseTestConn) (\<lambda>_. orCrash (onPeer 0 (peer_Close pe rp)) (\<lambda>_. ret True))) ?E t"
    if "resumed 0 t" for t :: "('r, 'z) journey_scheme"
    by (rule seq_rule(2)[OF act_keeps[OF that]]) (simp_all add: close)
  have reached: "wp (orCrash (onPeer 0 (MigrateTo pe rp silo True True sendOptions journeyDevicesTo (Some (Some [])))) (\<lambda>_.
      orCrash (act e CloseTestConn) (\<lambda>_. orCrash (onPeer 0 (peer_Close pe rp)) (\<lambda>_. ret True)))) ?E t"
    if "resumed 0 t" for t :: "('r, 'z) journey_scheme"
    by (rule seq_rule(2)[OF send_keeps[OF hooks_only that]]) (simp_all add: closed)
  have dialled: "wp (attempt (act e (DialTest dest)) (\<lambda>r. case r of
       Inl _ \<Rightarrow> orCrash (onPeer 0 (peer_Close pe rp)) (\<lambda>_. ret False)
     | Inr _ \<Rightarrow> orCrash (onPeer 0 (MigrateTo pe rp silo True True sendOptions journeyDevicesTo (Some (Some [])))) (\<lambda>_.
         orCrash (act e CloseTestConn) (\<lambda>_. orCrash (onPeer 0 (peer_Close pe rp)) (\<lambda>_. ret True))))) ?E t"
    if "resumed 0 t" for dest and t :: "('r, 'z) journey_scheme"
    unfolding wp_attempt
    by (rule wp_mono[OF act_keeps[OF that]], rename_tac r u, case_tac r) (simp_all add: close reached)
  show ?thesis
    unfolding startHere_def by (rule seq_ok(2)[OF first]) (simp_all add: dialled)
qed

lemma startAndServe_follows:
  fixes s :: "('r, 'z) journey_scheme"
  assumes hooks_only: "\<And>k df s. (dm_step df)\<^sup>*\<^sup>* s (snd (silo k df s))" and fresh: "stopped (p_runtime fresh)"
    and s: "j_peers s = []"
  shows "wp (startAndServe e pe rp fl fresh silo arrivals) (\<lambda>_. onlyLast stopped) s"
proof -
  have serve: "wp (whenM goOn (orCrash (act e (ListenTest (nf_listenAddr fl))) (\<lambda>_.
      serveConnections e pe rp fl fresh silo arrivals 0))) (\<lambda>_. onlyLast stopped) t"
    if "chain stopped n n t" for n goOn and t :: "('r, 'z) journey_scheme"
  proof -
    have listening: "wp (act e (ListenTest (nf_listenAddr fl))) (\<lambda>_. chain stopped n n) t"
      using that by (simp add: go_wp split: option.split)
    have last: "onlyLast stopped u" if "chain stopped n n u" for u :: "('r, 'z) journey_scheme"
      using that by (rule chain_onlyLast) simp
    have run: "wp (orCrash (act e (ListenTest (nf_listenAddr fl))) (\<lambda>_.
        serveConnections e pe rp fl fresh silo arrivals 0)) (\<lambda>_. onlyLast stopped) t"
      by (rule seq_rule(2)[OF listening]) (use last serveConnections_follows[OF hooks_only fresh] in auto)
    then show ?thesis using last[OF that] by (cases goOn) (simp_all add: whenM_def wp_ret)
  qed
  show ?thesis
  proof (cases "nf_start fl")
    case True
    have last: "onlyLast stopped t" if "chain stopped (Suc 0) 0 t" for t :: "('r, 'z) journey_scheme"
      using that by (rule chain_onlyLast) simp
    show ?thesis
      unfolding startAndServe_def if_P[OF True] wp_andThen
      by (rule wp_mono[OF startHere_follows[OF hooks_only fresh s]], rename_tac r t, case_tac r)
        (use last serve[of "Suc 0"] in auto)
  next
    case False
    have "chain stopped 0 0 s" using s by (simp add: chain_def)
    then show ?thesis
      unfolding startAndServe_def if_not_P[OF False] wp_andThen using serve[of 0] by (simp add: wp_ret)
  qed
qed

end

section \<open>The runtimes\<close>

interpretation empty_closing: closing_contract emptyRuntime "\<lambda>_. True" "\<lambda>_. True"
  by unfold_locales simp_all

interpretation replay_closing: closing_contract "replayRuntime e" "\<lambda>s. \<not> rr_replaying s" "\<lambda>_. True" for e
proof unfold_locales
  show "\<not> rr_replaying y" if "rp_Close (replayRuntime e) x = (Ok v, y)" for x v y
  proof -
    have "wp (replay_Close e) (\<lambda>_ y. \<not> rr_replaying y) x"
    proof -
      have rest: "stays_inv (\<lambda>s. \<not> rr_replaying s) (reading rr_providers (\<lambda>ds. forEach ds (\<lambda>d. act e (CloseProvider d))))"
        by (intro stays; simp)
      have "wp (replay_Suspend e) (\<lambda>_ t. \<not> rr_replaying t) x"
        using replay_Suspend_stops[of e x] by (simp add: wp_def case_prod_unfold)
      then show ?thesis
        unfolding replay_Close_def by (rule seq_rule(1)) (simp_all add: stays_wp[OF rest])
    qed
    then show ?thesis using that by (simp add: wp_def replayRuntime_def)
  qed
qed simp_all

definition hasAgentIfRunning :: "('z) rt_sys_scheme \<Rightarrow> bool" where
  "hasAgentIfRunning s \<longleftrightarrow> (rt_running s \<longrightarrow> rt_hasAgent s)"

lemma agent_kept:
  "stays_inv (\<lambda>s :: ('z) rt_sys_scheme. rt_hasAgent s = a) (rt_Suspend e c)"
  "stays_inv (\<lambda>s :: ('z) rt_sys_scheme. rt_hasAgent s = a \<and> rt_running s = b) (FlushData e c)"
  "stays_inv (\<lambda>s :: ('z) rt_sys_scheme. rt_hasAgent s = a) (afterResume e n)"
proof -
  show "stays_inv (\<lambda>s :: ('z) rt_sys_scheme. rt_hasAgent s = a) (rt_Suspend e c)"
    unfolding rt_Suspend_def watchLateWrites_def setRunning_def Machine_CreateSnapshot_def
    by (intro stays stays_grab_if; simp)
  show "stays_inv (\<lambda>s :: ('z) rt_sys_scheme. rt_hasAgent s = a \<and> rt_running s = b) (FlushData e c)"
    unfolding FlushData_def onMachine_def Machine_CreateSnapshot_def
    by (intro stays stays_grab_if; simp)
  show "stays_inv (\<lambda>s :: ('z) rt_sys_scheme. rt_hasAgent s = a) (afterResume e n)"
  proof (induction e n rule: afterResume.induct)
    case (1 e retries)
    then show ?case by (subst afterResume.simps) (intro stays 1; simp)
  qed
qed

lemma andThen_any:
  "(\<And>x t. wp (k x) Q t) \<Longrightarrow> (\<And>x t. Q (Err x) t) \<Longrightarrow> (\<And>x t. Q (Panic x) t) \<Longrightarrow> wp (andThen m k) Q s"
  unfolding wp_andThen by (rule wp_any) simp_all

lemma closeAgent_stops:
  fixes x :: "('z) rt_sys_scheme"
  assumes "hasAgentIfRunning x"
  shows "wp (closeAgent e c) (\<lambda>r y. r = Ok () \<longrightarrow> \<not> rt_running y) x"
proof -
  let ?rest = "andThen (update (\<lambda>s. s\<lparr>hypervisorCancelled := True\<rparr>)) (\<lambda>_. act e AgentClose)"
  have rest: "stays_inv (\<lambda>s :: ('z) rt_sys_scheme. \<not> rt_running s) ?rest" by (intro stays; simp)
  have "wp (andThen (rt_Suspend e c) (\<lambda>_. ?rest)) (\<lambda>r y. r = Ok () \<longrightarrow> \<not> rt_running y) t" for t :: "('z) rt_sys_scheme"
  proof (rule seq_ok(1)[where C = "\<lambda>_. True" and P = "\<lambda>s. \<not> rt_running s"])
    show "wp (rt_Suspend e c) (\<lambda>r s. True \<and> (r = Ok () \<longrightarrow> \<not> rt_running s)) t"
      by (rule wpI) (auto dest: rt_suspend.ok_is_done)
    show "wp ?rest (\<lambda>r y. r = Ok () \<longrightarrow> \<not> rt_running y) u" if "\<not> rt_running u" for u :: "('z) rt_sys_scheme"
      by (rule stays_wp[OF rest that]) simp
  qed simp_all
  then show ?thesis
    using assms by (auto simp: closeAgent_def hasAgentIfRunning_def wp_reading wp_andThen[of "update f" for f] wp_update whenM_def wp_ret)
qed

interpretation firecracker_closing: closing_contract "firecrackerRuntime e c evs exit" "\<lambda>s. \<not> rt_running s" hasAgentIfRunning
  for e c evs exit
proof unfold_locales
  show "hasAgentIfRunning y" if "rp_Resume (firecrackerRuntime e c evs exit) x = (Ok u, y)" for x u y
  proof -
    have agent: "wp (startAgent e port) (\<lambda>r s. True \<and> (r = Ok () \<longrightarrow> rt_hasAgent s)) t" for port t
      by (simp add: startAgent_def go_wp split: option.split)
    have last: "wp (andThen (startAgent e port) (\<lambda>_. afterResume e 0)) (\<lambda>r s. r = Ok () \<longrightarrow> rt_hasAgent s) t" for port t
      by (rule seq_ok(1)[OF agent]) (simp_all add: stays_wp[OF agent_kept(3)[where a = True]])
    have "wp (rt_Resume e c) (\<lambda>r s. r = Ok () \<longrightarrow> rt_hasAgent s) x"
      unfolding rt_Resume_def by (intro andThen_any last) simp_all
    then show ?thesis using that by (simp add: wp_def firecrackerRuntime_def hasAgentIfRunning_def)
  qed
  show "hasAgentIfRunning (snd (rp_Suspend (firecrackerRuntime e c evs exit) x)) = hasAgentIfRunning x" for x
  proof (cases "rt_running x \<and> \<not> rt_hasAgent x")
    case True
    then show ?thesis by (simp add: firecrackerRuntime_def rt_Suspend_def go_defs)
  next
    case False
    then have "\<not> rt_running (snd (rt_Suspend e c x)) \<or> rt_hasAgent (snd (rt_Suspend e c x))"
      using stays_stopped_Suspend[of e c] agent_kept(1)[of True e c] by (auto simp: stays_inv_def)
    then show ?thesis using False by (auto simp: firecrackerRuntime_def hasAgentIfRunning_def)
  qed
  show "hasAgentIfRunning (snd (rp_FlushData (firecrackerRuntime e c evs exit) x)) = hasAgentIfRunning x" for x
    using agent_kept(2)[of "rt_hasAgent x" "rt_running x" e c, unfolded stays_inv_def, rule_format, of x]
    by (simp add: firecrackerRuntime_def hasAgentIfRunning_def)
  show "\<not> rt_running y" if "hasAgentIfRunning x" "rp_Close (firecrackerRuntime e c evs exit) x = (Ok v, y)" for x v y
  proof -
    let ?rest = "reading (\<lambda>s. (rt_hasMachine s, VMPath s)) (\<lambda>(machine, p). whenM machine
       (wrapErr (MachineErr ErrCouldNotCloseServer) (Machine_Close e exit) (\<lambda>_.
        wrapErr (RuntimeErr ErrCouldNotRemoveVMDir) (act e (RemoveAll (filepath_Dir p))) ret)))"
    have rest: "stays_inv (\<lambda>s :: ('c) rt_sys_scheme. \<not> rt_running s) ?rest"
      unfolding Machine_Close_def awaitExit_def by (intro stays; simp)
    have "wp (rt_Close e c exit) (\<lambda>r y. r = Ok () \<longrightarrow> \<not> rt_running y) x"
      unfolding rt_Close_def
    proof (rule seq_ok(1)[where C = "\<lambda>_. True" and P = "\<lambda>s. \<not> rt_running s"])
      show "wp (closeAgent e c) (\<lambda>r s. True \<and> (r = Ok () \<longrightarrow> \<not> rt_running s)) x"
        using closeAgent_stops[OF that(1)] by simp
    qed (simp_all add: stays_wp[OF rest])
    then show ?thesis using that(2) by (simp add: wp_def firecrackerRuntime_def)
  qed
qed (simp add: hasAgentIfRunning_def)

text \<open>
  C11. Whatever the devices, the connections and the other calls do and whatever arrives, however the program that
  passes machines on ends, only the last of its peers may have a machine that runs: a next machine is only received
  once the one before is stopped. The snapshot, the devices and the other hosts are arbitrary.
\<close>

theorem only_last_runs:
  fixes s :: "(rt_sys, 'z) journey_scheme"
  assumes "\<And>k df s. (dm_step df)\<^sup>*\<^sup>* s (snd (silo k df s))" and "\<not> rt_running (p_runtime fresh)"
    and "j_peers s = []"
  shows "wp (mignettest_main e pe sr bootArgs bootArgsNoPVM (\<lambda>conf. firecrackerRuntime fe (c\<lparr>rc_Machine := conf\<rparr>) evs exit)
       fresh silo arrivals fl)
     (\<lambda>_ s'. \<forall>i. Suc i < length (j_peers s') \<longrightarrow> \<not> rt_running (p_runtime (j_peers s' ! i))) s"
proof -
  let ?J = "onlyLast (\<lambda>x. \<not> rt_running x) :: (rt_sys, 'z) journey_scheme \<Rightarrow> bool"
  have none: "?J t" if "j_peers t = []" for t using that by (simp add: onlyLast_def)
  have "wp (mignettest_main e pe sr bootArgs bootArgsNoPVM (\<lambda>conf. firecrackerRuntime fe (c\<lparr>rc_Machine := conf\<rparr>) evs exit)
       fresh silo arrivals fl) (\<lambda>_. ?J) s"
    unfolding mignettest_main_def
    by (intro seq_rule[OF no_peers_yet(1)] seq_rule[OF no_peers_yet(2)] seq_rule[OF no_peers_yet(4)]
        firecracker_closing.startAndServe_follows assms) (simp_all add: assms(3) none)
  then show ?thesis by (rule wp_mono) (simp add: onlyLast_def)
qed

section \<open>Example\<close>

definition net_demo :: net_flags where
  "net_demo = \<lparr>nf_iterations = 1, nf_blueprintsDir = [], nf_snapshotsDir = ''snapshot'', nf_start = True,
     nf_testDirectory = ''test'', nf_networkNamespace = ''ark0'', nf_destinationAddr = ''other:9000'',
     nf_listenAddr = '':9000'', nf_waitForComplete = True, nf_usePVM = False, nf_s3sync = False, nf_s3endpoint = [],
     nf_s3bucket = [], nf_s3accesskey = [], nf_s3secretkey = []\<rparr>"

theorem only_last_runs_witness:
  "\<exists>r s. mignettest_main journey_demo peer_demo run_demo ''pvm'' ''nopvm'' (\<lambda>conf. firecrackerRuntime (rt_demo None)
       (rc_demo\<lparr>rc_Machine := conf\<rparr>) [Tick] (Some (MachineErr ErrSignalKilled)))
       peer_fresh (\<lambda>_. one_cycle) [Inr []] net_demo journey_start = (r, s) \<and>
     (\<forall>i. Suc i < length (j_peers s) \<longrightarrow> \<not> rt_running (p_runtime (j_peers s ! i)))"
  using only_last_runs[of "\<lambda>_. one_cycle" peer_fresh journey_start journey_demo peer_demo run_demo "''pvm''" "''nopvm''"
      "rt_demo None" rc_demo "[Tick]" "Some (MachineErr ErrSignalKilled)" "[Inr []]" net_demo,
      OF one_cycle_hooks_only fresh_start]
  unfolding wp_def by (auto split: prod.splits)

end
