(* ===== verification/IpManager.thy ===== *)
theory IpManager
  imports Prelude "HOL-Library.Word"
begin

text \<open>
  The calls the network packages make to the operating system and to the packages netlink, netns,
  iptables and ipam, one constructor per call with its arguments; the address manager
  (\<^verbatim>\<open>pkg/network/ipmanager.go\<close>) and the host's address translation
  (\<^verbatim>\<open>pkg/network/nat.go\<close>). What a call returns besides its error comes from the environment
  \<open>net_env\<close>. A handle of a network namespace is named by the call that returned it.
\<close>

datatype ns_handle = OriginalNS | NewNamedNS string | FromNameNS string

datatype net_call =
    LockOSThread | UnlockOSThread
  | Netns_Get | Netns_NewNamed string | Netns_GetFromName string | Netns_Set ns_handle
  | Netns_Close ns_handle | Netns_DeleteNamed string
  | LinkAddTap string | LinkAddVeth string string | LinkByName string | ParseAddr string
  | AddrAdd string string | ParseMAC string | LinkSetHardwareAddr string string
  | LinkSetUp string | LinkSetDown string | LinkSetNsPid string nat | LinkDel string
  | RouteAdd string string | RouteDel string string
  | Iptables_New | Iptables_Append string string "string list"
  | Iptables_Delete string string "string list"
  | WriteFile string string | InterfaceByName string | Interfaces | InterfaceAddrs string
  | ParseCIDR string
  | Ipam_NewPrefix nat string | Ipam_AcquireIP nat string | Ipam_ReleaseIP nat string
  | Ipam_AcquireChildPrefix nat string nat | Ipam_ReleaseChildPrefix nat string
  | SplitHostPort string | ResolveIPAddr string
  | OnBeforeCreateNamespace string | OnBeforeRemoveNamespace string
  | OnAfterPortForward nat "string list" | OnBeforePortUnforward nat

type_synonym net_trace = "(net_call \<times> bool) list"

record net_env = "net_call env" +
  maskSize :: "net_trace \<Rightarrow> int"           \<comment> \<open>the prefix length of the CIDR parsed last\<close>
  newPrefixCidr :: "net_trace \<Rightarrow> string"
  availablePrefixes :: "net_trace \<Rightarrow> 64 word"
  availableAddrs :: "net_trace \<Rightarrow> 64 word"
  acquiredIP :: "net_trace \<Rightarrow> string"
  acquiredPrefix :: "net_trace \<Rightarrow> string"

section \<open>The address manager\<close>

definition PairMask :: nat where "PairMask = 30"
definition GatewayReserved :: "64 word" where "GatewayReserved = 2"

text \<open>
  A table is named by a number that stands for its ipam instance; \<open>table_prefix\<close> is nil until the
  table is open.
\<close>

record ip_table =
  table_id :: nat
  table_cidr :: string
  table_prefix :: "string option"

definition NewIPTable :: "nat \<Rightarrow> string \<Rightarrow> ip_table" where
  "NewIPTable i cidr = \<lparr>table_id = i, table_cidr = cidr, table_prefix = None\<rparr>"

definition IPTable_Open ::
    "('y) net_env_scheme \<Rightarrow> ip_table \<Rightarrow> ((net_call, 'z) world_scheme, ip_table) go" where
  "IPTable_Open e t =
     wrapErr (IpmanagerErr ErrCouldNotParseCIDR) (ask e (maskSize e) (ParseCIDR (table_cidr t)))
     (\<lambda>size. if size > int PairMask then throw (IpmanagerErr ErrInvalidCIDRSize) else
     wrapErr (IpmanagerErr ErrCouldNotCreateNewPrefix)
       (ask e (newPrefixCidr e) (Ipam_NewPrefix (table_id t) (table_cidr t)))
     (\<lambda>p. ret (t\<lparr>table_prefix := Some p\<rparr>)))"

definition withPrefix ::
    "ip_table \<Rightarrow> (string \<Rightarrow> ('s, 'a) go) \<Rightarrow> ('s, 'a) go" where
  "withPrefix t k = (case table_prefix t of None \<Rightarrow> panic NilDeref | Some p \<Rightarrow> k p)"

definition AvailablePairs ::
    "('y) net_env_scheme \<Rightarrow> ip_table \<Rightarrow> ((net_call, 'z) world_scheme, 64 word) go" where
  "AvailablePairs e t = withPrefix t (\<lambda>p. reading (\<lambda>w. availablePrefixes e (trace w)) ret)"

definition AvailableIPs ::
    "('y) net_env_scheme \<Rightarrow> ip_table \<Rightarrow> ((net_call, 'z) world_scheme, 64 word) go" where
  "AvailableIPs e t =
     withPrefix t (\<lambda>p. reading (\<lambda>w. availableAddrs e (trace w) - GatewayReserved) ret)"

definition GetIP ::
    "('y) net_env_scheme \<Rightarrow> ip_table \<Rightarrow> ((net_call, 'z) world_scheme, string) go" where
  "GetIP e t = withPrefix t (\<lambda>p.
     wrapErr (IpmanagerErr ErrCouldNotAcquireIP) (ask e (acquiredIP e) (Ipam_AcquireIP (table_id t) p))
     ret)"

text \<open>The argument may be a nil pointer.\<close>

definition ReleaseIP ::
    "('y) net_env_scheme \<Rightarrow> ip_table \<Rightarrow> string option \<Rightarrow> ((net_call, 'z) world_scheme, unit) go" where
  "ReleaseIP e t ip = (case ip of
      None \<Rightarrow> panic NilDeref
    | Some a \<Rightarrow>
        wrapErr (IpmanagerErr ErrCouldNotReleaseIP) (act e (Ipam_ReleaseIP (table_id t) a)) ret)"

record ip_pair =
  firstIP :: string
  secondIP :: string
  pair_prefix :: string
  pair_table :: ip_table

definition NewIPPair :: "string \<Rightarrow> string \<Rightarrow> string \<Rightarrow> ip_table \<Rightarrow> ip_pair" where
  "NewIPPair a b p t = \<lparr>firstIP = a, secondIP = b, pair_prefix = p, pair_table = t\<rparr>"

definition GetPair ::
    "('y) net_env_scheme \<Rightarrow> ip_table \<Rightarrow> ((net_call, 'z) world_scheme, ip_pair) go" where
  "GetPair e t = withPrefix t (\<lambda>cidr.
     wrapErr (IpmanagerErr ErrCouldNotAcquireChildPrefix)
       (ask e (acquiredPrefix e) (Ipam_AcquireChildPrefix (table_id t) cidr PairMask)) (\<lambda>prefix.
     wrapErr (IpmanagerErr ErrCouldNotAcquireIP)
       (ask e (acquiredIP e) (Ipam_AcquireIP (table_id t) prefix)) (\<lambda>first.
     wrapErr (IpmanagerErr ErrCouldNotAcquireIP)
       (ask e (acquiredIP e) (Ipam_AcquireIP (table_id t) prefix)) (\<lambda>second.
     ret (NewIPPair first second prefix t)))))"

text \<open>
  \<open>ReleasePair\<close> releases through the table stored in the pair, whatever table it is called on, and
  returns \<open>errors.Join\<close> of a sentinel and the last error.
\<close>

definition ReleasePair ::
    "('y) net_env_scheme \<Rightarrow> ip_pair option \<Rightarrow> ((net_call, 'z) world_scheme, unit) go" where
  "ReleasePair e pair = (case pair of
      None \<Rightarrow> panic NilDeref
    | Some q \<Rightarrow>
     wrapErr (IpmanagerErr ErrCouldNotReleaseIP) (ReleaseIP e (pair_table q) (Some (firstIP q))) (\<lambda>_.
     wrapErr (IpmanagerErr ErrCouldNotReleaseIP) (ReleaseIP e (pair_table q) (Some (secondIP q))) (\<lambda>_.
     attempt (act e (Ipam_ReleaseChildPrefix (table_id (pair_table q)) (pair_prefix q))) (\<lambda>r.
     case errors_Join [Some (IpmanagerErr ErrCouldNotReleaseChildPrefix),
                       case r of Inl x \<Rightarrow> Some x | Inr _ \<Rightarrow> None] of
       None \<Rightarrow> ret ()
     | Some x \<Rightarrow> throw x))))"

section \<open>Address translation on the host\<close>

definition CreateHostNAT ::
    "('y) net_env_scheme \<Rightarrow> string \<Rightarrow> ((net_call, 'z) world_scheme, unit) go" where
  "CreateHostNAT e hostInterface =
     wrapErr (HostNatErr ErrCouldNotWriteIPForwarding)
       (act e (WriteFile ''/proc/sys/net/ipv4/ip_forward'' ''1'')) (\<lambda>_.
     wrapErr (HostNatErr ErrCouldNotCreateIPTablesInstance) (act e Iptables_New) (\<lambda>_.
     wrapErr (HostNatErr ErrCouldNotAppendPostRoutingRule)
       (act e (Iptables_Append ''nat'' ''POSTROUTING'' [''-o'', hostInterface, ''-j'', ''MASQUERADE'']))
       (\<lambda>_.
     wrapErr (HostNatErr ErrCouldNotAppendForwardRule)
       (act e (Iptables_Append ''filter'' ''FORWARD''
          [''-m'', ''conntrack'', ''--ctstate'', ''RELATED,ESTABLISHED'', ''-j'', ''ACCEPT'']))
     ret)))"

definition RemoveHostNAT ::
    "('y) net_env_scheme \<Rightarrow> string \<Rightarrow> ((net_call, 'z) world_scheme, unit) go" where
  "RemoveHostNAT e hostInterface =
     wrapErr (HostNatErr ErrCouldNotCreateIPTablesInstance) (act e Iptables_New) (\<lambda>_.
     wrapErr (HostNatErr ErrCouldNotDeleteForwardRule)
       (act e (Iptables_Delete ''filter'' ''FORWARD''
          [''-m'', ''conntrack'', ''--ctstate'', ''RELATED,ESTABLISHED'', ''-j'', ''ACCEPT''])) (\<lambda>_.
     wrapErr (HostNatErr ErrCouldNotDeletePostRoutingRule)
       (act e (Iptables_Delete ''nat'' ''POSTROUTING'' [''-o'', hostInterface, ''-j'', ''MASQUERADE'']))
     ret))"

section \<open>What the operations leave behind\<close>

text \<open>
  The packet-filter rules a trace leaves behind, as iptables and netns document it: rules belong to
  a network namespace, the calls act on the one the thread is in, creating a namespace enters it and
  setting a handle enters its namespace. A successful append adds a rule at the end, a successful
  delete removes the first equal one. A rule is a table, a chain and its specification.
\<close>

type_synonym fw_rule = "string \<times> string \<times> string list"

datatype place = HostPlace | InNamespace string

fun handle_place :: "ns_handle \<Rightarrow> place" where
  "handle_place OriginalNS = HostPlace"
| "handle_place (NewNamedNS n) = InNamespace n"
| "handle_place (FromNameNS n) = InNamespace n"

type_synonym fw_state = "place \<times> (place \<times> fw_rule) list"

fun fw_effect :: "net_call \<Rightarrow> fw_state \<Rightarrow> fw_state" where
  "fw_effect (Iptables_Append t c spec) (pl, rs) = (pl, rs @ [(pl, t, c, spec)])"
| "fw_effect (Iptables_Delete t c spec) (pl, rs) = (pl, remove1 (pl, t, c, spec) rs)"
| "fw_effect (Netns_NewNamed n) (pl, rs) = (InNamespace n, rs)"
| "fw_effect (Netns_Set h) (pl, rs) = (handle_place h, rs)"
| "fw_effect _ s = s"

lemma snd_fw_effect_Set [simp]: "snd (fw_effect (Netns_Set h) s) = snd s"
  by (cases s) simp

definition fw_run :: "net_trace \<Rightarrow> fw_state \<Rightarrow> fw_state" where
  "fw_run tr s = fold (\<lambda>(c, ok) s. if ok then fw_effect c s else s) tr s"

lemma fw_run_Nil [simp]: "fw_run [] s = s"
  by (simp add: fw_run_def)

lemma fw_run_append [simp]: "fw_run (tr @ tr') s = fw_run tr' (fw_run tr s)"
  by (simp add: fw_run_def)

lemma fw_run_Cons [simp]: "fw_run ((c, ok) # tr) s = fw_run tr (if ok then fw_effect c s else s)"
  by (simp add: fw_run_def)

text \<open>What \<open>ReleasePair\<close> returns: an error, always.\<close>

lemma ReleasePair_never_Ok: "wp (ReleasePair e q) (\<lambda>r _. \<forall>u. r \<noteq> Ok u) w"
  by (auto simp: ReleasePair_def ReleaseIP_def go_wp errors_Join_def split: option.splits)

text \<open>
  The host rules: removing the translation takes back what creating it added, whatever happened to
  other rules in between.
\<close>

definition host_nat_rules :: "string \<Rightarrow> (place \<times> fw_rule) list" where
  "host_nat_rules h =
     [(HostPlace, ''nat'', ''POSTROUTING'', [''-o'', h, ''-j'', ''MASQUERADE'']),
      (HostPlace, ''filter'', ''FORWARD'',
        [''-m'', ''conntrack'', ''--ctstate'', ''RELATED,ESTABLISHED'', ''-j'', ''ACCEPT''])]"

lemma CreateHostNAT_rules:
  assumes "CreateHostNAT e h w = (Ok (), w')" and "fw_run (trace w) s0 = (HostPlace, rs)"
  shows "fw_run (trace w') s0 = (HostPlace, rs @ host_nat_rules h)"
  using assms by (auto simp: CreateHostNAT_def go_Ok_iffs ret_def host_nat_rules_def)

lemma RemoveHostNAT_rules:
  assumes "RemoveHostNAT e h w = (Ok (), w')"
    and "fw_run (trace w) s0 = (HostPlace, rs @ host_nat_rules h @ rs')"
    and "set (host_nat_rules h) \<inter> set rs = {}"
  shows "fw_run (trace w') s0 = (HostPlace, rs @ rs')"
  using assms by (auto simp: RemoveHostNAT_def go_Ok_iffs ret_def host_nat_rules_def remove1_append)

end
