(* ===== verification/Namespace.thy ===== *)
theory Namespace
  imports IpManager
begin

text \<open>
  A network namespace for one virtual machine (\<^verbatim>\<open>pkg/network/namespace.go\<close>): opening it
  creates the namespace, its tap device, the pair of veth devices to the host, the routes and the
  packet-filter rules; closing it takes them down. The two operations are translated call by call,
  with the deferred calls. Both parts of the state the code keeps are modelled: the \<open>Namespace\<close>
  struct, whose two parsed addresses are set on the way, and the trace of calls.
\<close>

record ns_config =
  HostInterface :: string
  NamespaceInterface :: string
  NamespaceInterfaceGateway :: string
  NamespaceInterfaceNetmask :: "32 word"
  HostVethInternalIP :: string
  HostVethExternalIP :: string
  NamespaceInterfaceIP :: string
  NamespaceVethIP :: string
  BlockedSubnet :: string
  NamespaceInterfaceMAC :: string
  AllowIncomingTraffic :: bool

record namespace =
  ns_id :: string
  ns_conf :: ns_config
  veth0 :: string
  veth1 :: string
  parsedExternalAddr :: "string option"
  parsedDefaultAddress :: "string option"

record ns_sys = "net_call world" +
  self :: namespace

definition NewNamespace :: "string \<Rightarrow> ns_config \<Rightarrow> namespace" where
  "NewNamespace i conf = \<lparr>ns_id = i, ns_conf = conf, veth0 = i @ ''-veth0'', veth1 = i @ ''-veth1'',
     parsedExternalAddr = None, parsedDefaultAddress = None\<rparr>"

definition GetID :: "namespace \<Rightarrow> string" where
  "GetID n = ns_id n"

text \<open>\<open>fmt.Sprintf("%s/%d", ip, mask)\<close>\<close>

definition subnet :: "string \<Rightarrow> nat \<Rightarrow> string" where
  "subnet ip bits = ip @ ''/'' @ show_nat bits"

text \<open>The packet-filter rules, named once: the code writes each out where it is added and deleted.\<close>

definition snat_rule :: "namespace \<Rightarrow> string list" where
  "snat_rule n = [''-o'', veth0 n, ''-s'', NamespaceInterfaceIP (ns_conf n), ''-j'', ''SNAT'', ''--to'',
     NamespaceVethIP (ns_conf n)]"

definition dnat_rule :: "namespace \<Rightarrow> string list" where
  "dnat_rule n = [''-i'', veth0 n, ''-d'', NamespaceVethIP (ns_conf n), ''-j'', ''DNAT'', ''--to'',
     NamespaceInterfaceIP (ns_conf n)]"

definition incoming_dnat_rule :: "namespace \<Rightarrow> string list" where
  "incoming_dnat_rule n = [''-d'', HostVethInternalIP (ns_conf n), ''-j'', ''DNAT'', ''--to-destination'',
     NamespaceInterfaceIP (ns_conf n)]"

definition incoming_masquerade_rule :: "namespace \<Rightarrow> string list" where
  "incoming_masquerade_rule n = [''-d'', NamespaceInterfaceIP (ns_conf n), ''-j'', ''MASQUERADE'']"

definition accept_rule :: "namespace \<Rightarrow> string list" where
  "accept_rule n = [''-i'', veth1 n, ''-o'', HostInterface (ns_conf n), ''-j'', ''ACCEPT'']"

definition drop_to_rule :: "namespace \<Rightarrow> string list" where
  "drop_to_rule n = [''-s'', BlockedSubnet (ns_conf n), ''-d'', HostVethExternalIP (ns_conf n), ''-j'', ''DROP'']"

definition drop_from_rule :: "namespace \<Rightarrow> string list" where
  "drop_from_rule n = [''-s'', HostVethExternalIP (ns_conf n), ''-d'', BlockedSubnet (ns_conf n), ''-j'', ''DROP'']"

lemmas rule_defs = snat_rule_def dnat_rule_def incoming_dnat_rule_def incoming_masquerade_rule_def
  accept_rule_def drop_to_rule_def drop_from_rule_def

section \<open>Open\<close>

text \<open>
  The deferred function of both operations: go back to the namespace the thread came from (an error
  is only printed) and close its handle.
\<close>

definition restoreNS :: "('y) net_env_scheme \<Rightarrow> (('z) ns_sys_scheme, unit) go" where
  "restoreNS e =
     andThen (actIgnore e (Netns_Set OriginalNS)) (\<lambda>_. actIgnore e (Netns_Close OriginalNS))"

definition openDevices :: "('y) net_env_scheme \<Rightarrow> namespace \<Rightarrow> (('z) ns_sys_scheme, unit) go" where
  "openDevices e n = (let c = ns_conf n; tap = NamespaceInterface c in
     wrapErr (NamespaceErr ErrCouldNotAddTapInterface) (act e (LinkAddTap tap)) (\<lambda>_.
     let gw = subnet (NamespaceInterfaceGateway c) (unat (NamespaceInterfaceNetmask c)) in
     wrapErr (NamespaceErr ErrCouldNotParseGatewaySubnet) (act e (ParseAddr gw)) (\<lambda>_.
     wrapErr (NamespaceErr ErrCouldNotAddAddressToInterface) (act e (AddrAdd tap gw)) (\<lambda>_.
     wrapErr (NamespaceErr ErrCouldNotParseMACAddress) (act e (ParseMAC (NamespaceInterfaceMAC c))) (\<lambda>_.
     wrapErr (NamespaceErr ErrCouldNotSetHardwareAddress)
       (act e (LinkSetHardwareAddr tap (NamespaceInterfaceMAC c))) (\<lambda>_.
     wrapErr (NamespaceErr ErrCouldNotSetLinkUp) (act e (LinkSetUp tap)) (\<lambda>_.
     wrapErr (NamespaceErr ErrCouldNotAddVethInterface) (act e (LinkAddVeth (veth0 n) (veth1 n))) (\<lambda>_.
     wrapErr (NamespaceErr ErrCouldNotGetVethInterface) (act e (LinkByName (veth1 n))) (\<lambda>_.
     wrapErr (NamespaceErr ErrCouldNotSetNamespacePid) (act e (LinkSetNsPid (veth1 n) 1)) (\<lambda>_.
     let internal = subnet (HostVethInternalIP c) PairMask in
     wrapErr (NamespaceErr ErrCouldNotParseInternalVethSubnet) (act e (ParseAddr internal)) (\<lambda>_.
     wrapErr (NamespaceErr ErrCouldNotAddAddressToInterface) (act e (AddrAdd (veth0 n) internal)) (\<lambda>_.
     wrapErr (NamespaceErr ErrCouldNotSetLinkUp) (act e (LinkSetUp (veth0 n)))
     ret))))))))))))"

definition openHostEnd :: "('y) net_env_scheme \<Rightarrow> namespace \<Rightarrow> (('z) ns_sys_scheme, unit) go" where
  "openHostEnd e n =
     wrapErr (NamespaceErr ErrCouldNotSetOriginalNamespace) (act e (Netns_Set OriginalNS)) (\<lambda>_.
     let external = subnet (HostVethExternalIP (ns_conf n)) PairMask in
     wrapErr (NamespaceErr ErrCouldNotParseExternalVethSubnet) (act e (ParseAddr external)) (\<lambda>_.
     wrapErr (NamespaceErr ErrCouldNotGetVethInterface) (act e (LinkByName (veth1 n))) (\<lambda>_.
     wrapErr (NamespaceErr ErrCouldNotAddAddressToInterface) (act e (AddrAdd (veth1 n) external)) (\<lambda>_.
     wrapErr (NamespaceErr ErrCouldNotSetLinkUp) (act e (LinkSetUp (veth1 n))) (\<lambda>_.
     wrapErr (NamespaceErr ErrCouldNotSetOriginalNamespace) (act e (Netns_Set (NewNamedNS (ns_id n))))
     ret)))))"

text \<open>\<open>x, err = netlink.ParseAddr(a)\<close>: the field is nil when the parse fails.\<close>

definition parseInto ::
    "('y) net_env_scheme \<Rightarrow> string \<Rightarrow> (string option \<Rightarrow> namespace \<Rightarrow> namespace) \<Rightarrow>
     (('z) ns_sys_scheme, unit) go" where
  "parseInto e a setField = attempt (act e (ParseAddr a)) (\<lambda>r.
     andThen (update (\<lambda>s. s\<lparr>self := setField (case r of Inl _ \<Rightarrow> None | Inr _ \<Rightarrow> Some a) (self s)\<rparr>)) (\<lambda>_.
     case r of Inl x \<Rightarrow> throw x | Inr _ \<Rightarrow> ret ()))"

definition openInside :: "('y) net_env_scheme \<Rightarrow> namespace \<Rightarrow> (('z) ns_sys_scheme, unit) go" where
  "openInside e n =
     wrapErr (NamespaceErr ErrCouldNotParseDefaultAddress)
       (parseInto e ''0.0.0.0/0'' (\<lambda>a m. m\<lparr>parsedDefaultAddress := a\<rparr>)) (\<lambda>_.
     wrapErr (NamespaceErr ErrCouldNotAddRoute)
       (act e (RouteAdd ''0.0.0.0/0'' (HostVethExternalIP (ns_conf n)))) (\<lambda>_.
     wrapErr (NamespaceErr ErrCouldNotNewIPTable) (act e Iptables_New) (\<lambda>_.
     wrapErr (NamespaceErr ErrCouldNotAppendIPTableRule)
       (act e (Iptables_Append ''nat'' ''POSTROUTING'' (snat_rule n))) (\<lambda>_.
     wrapErr (NamespaceErr ErrCouldNotAppendIPTableRule)
       (act e (Iptables_Append ''nat'' ''PREROUTING'' (dnat_rule n))) (\<lambda>_.
     whenM (AllowIncomingTraffic (ns_conf n))
       (wrapErr (NamespaceErr ErrCouldNotAppendIPTableRule)
          (act e (Iptables_Append ''nat'' ''PREROUTING'' (incoming_dnat_rule n))) (\<lambda>_.
        wrapErr (NamespaceErr ErrCouldNotAppendIPTableRule)
          (act e (Iptables_Append ''nat'' ''POSTROUTING'' (incoming_masquerade_rule n)))
        ret)))))))"

definition openForward :: "('y) net_env_scheme \<Rightarrow> namespace \<Rightarrow> (('z) ns_sys_scheme, unit) go" where
  "openForward e n =
     wrapErr (NamespaceErr ErrCouldNotSetOriginalNamespace) (act e (Netns_Set OriginalNS)) (\<lambda>_.
     wrapErr (NamespaceErr ErrCouldNotParseExternalVethSubnet)
       (parseInto e (NamespaceVethIP (ns_conf n) @ ''/32'') (\<lambda>a m. m\<lparr>parsedExternalAddr := a\<rparr>)) (\<lambda>_.
     wrapErr (NamespaceErr ErrCouldNotAddRoute)
       (act e (RouteAdd (NamespaceVethIP (ns_conf n) @ ''/32'') (HostVethInternalIP (ns_conf n)))) (\<lambda>_.
     wrapErr (NamespaceErr ErrCouldNotAppendIPTableRule)
       (act e (Iptables_Append ''filter'' ''FORWARD'' (accept_rule n))) (\<lambda>_.
     wrapErr (NamespaceErr ErrCouldNotAppendIPTableRule)
       (act e (Iptables_Append ''filter'' ''FORWARD'' (drop_to_rule n))) (\<lambda>_.
     wrapErr (NamespaceErr ErrCouldNotAppendIPTableRule)
       (act e (Iptables_Append ''filter'' ''FORWARD'' (drop_from_rule n)))
     ret)))))"

definition openAll :: "('y) net_env_scheme \<Rightarrow> namespace \<Rightarrow> (('z) ns_sys_scheme, unit) go" where
  "openAll e n =
     andThen (openDevices e n) (\<lambda>_.
     andThen (openHostEnd e n) (\<lambda>_.
     andThen (openInside e n) (\<lambda>_.
     openForward e n)))"

definition Namespace_Open :: "('y) net_env_scheme \<Rightarrow> (('z) ns_sys_scheme, unit) go" where
  "Namespace_Open e = reading self (\<lambda>n.
     andThen (actIgnore e LockOSThread) (\<lambda>_. deferring (actIgnore e UnlockOSThread) (
     wrapErr (NamespaceErr ErrCouldNotGetOriginalNamespace) (act e Netns_Get) (\<lambda>_.
     deferring (restoreNS e) (
     wrapErr (NamespaceErr ErrCouldNotNewNamespace) (act e (Netns_NewNamed (ns_id n))) (\<lambda>_.
     deferring (actIgnore e (Netns_Close (NewNamedNS (ns_id n)))) (
     openAll e n)))))))"

section \<open>Close\<close>

definition closeForward :: "('y) net_env_scheme \<Rightarrow> namespace \<Rightarrow> (('z) ns_sys_scheme, unit) go" where
  "closeForward e n =
     wrapErr (NamespaceErr ErrCouldNotNewIPTable) (act e Iptables_New) (\<lambda>_.
     wrapErr (NamespaceErr ErrCouldNotDeleteIPTableRule)
       (act e (Iptables_Delete ''filter'' ''FORWARD'' (drop_to_rule n))) (\<lambda>_.
     wrapErr (NamespaceErr ErrCouldNotDeleteIPTableRule)
       (act e (Iptables_Delete ''filter'' ''FORWARD'' (drop_from_rule n))) (\<lambda>_.
     wrapErr (NamespaceErr ErrCouldNotDeleteIPTableRule)
       (act e (Iptables_Delete ''filter'' ''FORWARD'' (accept_rule n))) (\<lambda>_.
     case parsedExternalAddr n of None \<Rightarrow> ret () | Some a \<Rightarrow>
       wrapErr (NamespaceErr ErrCouldNotDeleteRoute)
         (act e (RouteDel a (HostVethInternalIP (ns_conf n)))) ret))))"

definition closeInside :: "('y) net_env_scheme \<Rightarrow> namespace \<Rightarrow> (('z) ns_sys_scheme, unit) go" where
  "closeInside e n =
     wrapErr (NamespaceErr ErrCouldNotSetOriginalNamespace) (act e (Netns_Set (FromNameNS (ns_id n)))) (\<lambda>_.
     andThen (whenM (AllowIncomingTraffic (ns_conf n))
       (wrapErr (NamespaceErr ErrCouldNotAppendIPTableRule)
          (act e (Iptables_Append ''nat'' ''PREROUTING'' (incoming_dnat_rule n))) (\<lambda>_.
        wrapErr (NamespaceErr ErrCouldNotAppendIPTableRule)
          (act e (Iptables_Append ''nat'' ''POSTROUTING'' (incoming_masquerade_rule n)))
        ret))) (\<lambda>_.
     wrapErr (NamespaceErr ErrCouldNotDeleteIPTableRule)
       (act e (Iptables_Delete ''nat'' ''PREROUTING'' (dnat_rule n))) (\<lambda>_.
     wrapErr (NamespaceErr ErrCouldNotDeleteIPTableRule)
       (act e (Iptables_Delete ''nat'' ''POSTROUTING'' (snat_rule n))) (\<lambda>_.
     case parsedDefaultAddress n of None \<Rightarrow> ret () | Some a \<Rightarrow>
       wrapErr (NamespaceErr ErrCouldNotDeleteRoute)
         (act e (RouteDel a (HostVethExternalIP (ns_conf n)))) ret))))"

definition closeDevices :: "('y) net_env_scheme \<Rightarrow> namespace \<Rightarrow> (('z) ns_sys_scheme, unit) go" where
  "closeDevices e n =
     wrapErr (NamespaceErr ErrCouldNotSetOriginalNamespace) (act e (Netns_Set OriginalNS)) (\<lambda>_.
     wrapErr (NamespaceErr ErrCouldNotGetVethInterface) (act e (LinkByName (veth1 n))) (\<lambda>_.
     wrapErr (NamespaceErr ErrCouldNotDeleteLink) (act e (LinkDel (veth1 n))) (\<lambda>_.
     wrapErr (NamespaceErr ErrCouldNotSetOriginalNamespace) (act e (Netns_Set (FromNameNS (ns_id n)))) (\<lambda>_.
     let tap = NamespaceInterface (ns_conf n) in
     wrapErr (NamespaceErr ErrCouldNotAddTapInterface) (act e (LinkByName tap)) (\<lambda>_.
     wrapErr (NamespaceErr ErrCouldNotSetLinkDown) (act e (LinkSetDown tap)) (\<lambda>_.
     wrapErr (NamespaceErr ErrCouldNotDeleteLink) (act e (LinkDel tap)) (\<lambda>_.
     act e (Netns_DeleteNamed (ns_id n)))))))))"

definition closeAll :: "('y) net_env_scheme \<Rightarrow> namespace \<Rightarrow> (('z) ns_sys_scheme, unit) go" where
  "closeAll e n = andThen (closeInside e n) (\<lambda>_. closeDevices e n)"

definition closeLocked :: "('y) net_env_scheme \<Rightarrow> namespace \<Rightarrow> (('z) ns_sys_scheme, unit) go" where
  "closeLocked e n =
     andThen (actIgnore e LockOSThread) (\<lambda>_. deferring (actIgnore e UnlockOSThread) (
     wrapErr (NamespaceErr ErrCouldNotGetOriginalNamespace) (act e Netns_Get) (\<lambda>_.
     deferring (restoreNS e) (
     wrapErr (NamespaceErr ErrCouldNotNewNamespace) (act e (Netns_GetFromName (ns_id n))) (\<lambda>_.
     deferring (actIgnore e (Netns_Close (FromNameNS (ns_id n)))) (
     closeAll e n))))))"

definition Namespace_Close :: "('y) net_env_scheme \<Rightarrow> (('z) ns_sys_scheme, unit) go" where
  "Namespace_Close e = reading self (\<lambda>n. andThen (closeForward e n) (\<lambda>_. closeLocked e n))"

section \<open>What the operations leave behind\<close>

lemma grows_parseInto [grows]: "grows_trace (parseInto e a f)"
  unfolding parseInto_def by (intro grows) simp

lemma grows_openAll [grows]: "grows_trace (openAll e n)"
  unfolding openAll_def openDevices_def openHostEnd_def openInside_def openForward_def
  by (intro grows)

lemma grows_closeAll [grows]: "grows_trace (closeAll e n)"
  unfolding closeAll_def closeInside_def closeDevices_def
  by (intro grows)

text \<open>
  The calls of an operation end with the way back: to the namespace the thread came from, its handle
  closed, the thread unlocked.
\<close>

definition ends_restored :: "net_call list \<Rightarrow> bool" where
  "ends_restored cs \<longleftrightarrow> (\<exists>tr. cs = tr @ [Netns_Set OriginalNS, Netns_Close OriginalNS, UnlockOSThread])"

definition leaves_thread :: "net_call list \<Rightarrow> bool" where
  "leaves_thread cs \<longleftrightarrow> ends_restored cs \<or> 
     ((\<forall>h. Netns_Set h \<notin> set cs) \<and> (\<forall>i. Netns_NewNamed i \<notin> set cs) \<and>
      (LockOSThread \<in> set cs \<longrightarrow> last cs = UnlockOSThread))"

lemma Open_leaves_thread:
  "wp (Namespace_Open e) (\<lambda>r s'. \<exists>cs. called s' = called s @ cs \<and> leaves_thread cs) s"
proof -
  have in_all: "wp (openAll e n) Q t" if "\<And>r t' tr. trace t' = trace t @ tr \<Longrightarrow> Q r t'" for n Q t
    using that by (rule grows_wp[OF grows_openAll])
  show ?thesis
    unfolding Namespace_Open_def restoreNS_def
    by (simp add: go_wp split: option.splits, intro conjI impI allI in_all)
     (auto simp: go_wp called_def leaves_thread_def ends_restored_def)
qed

fun forward_call :: "net_call \<Rightarrow> bool" where
  "forward_call Iptables_New = True"
| "forward_call (Iptables_Delete _ _ _) = True"
| "forward_call (RouteDel _ _) = True"
| "forward_call _ = False"

lemma closeLocked_leaves_thread:
  "wp (closeLocked e n) (\<lambda>r s'. \<exists>cs. called s' = called s @ cs \<and> leaves_thread cs) s"
proof -
  have in_all: "wp (closeAll e n) Q t" if "\<And>r t' tr. trace t' = trace t @ tr \<Longrightarrow> Q r t'" for n Q
      and t :: "'z ns_sys_scheme"
    using that by (rule grows_wp[OF grows_closeAll])
  show ?thesis
    unfolding closeLocked_def restoreNS_def
    by (simp add: go_wp split: option.splits, intro conjI impI allI in_all)
     (auto simp: go_wp called_def leaves_thread_def ends_restored_def)
qed

lemma leaves_thread_prefix:
  assumes "list_all forward_call cs0" and "leaves_thread cs"
  shows "leaves_thread (cs0 @ cs)"
proof -
  have "c \<notin> set cs0" if "\<not> forward_call c" for c
    using assms(1) that by (auto simp: list_all_iff)
  then show ?thesis
    using assms(2) unfolding leaves_thread_def ends_restored_def
    by (auto simp: last_append split: if_splits)
qed

lemma closeForward_calls:
  "wp (closeForward e n) (\<lambda>r s'. \<exists>cs. called s' = called s @ cs \<and> list_all forward_call cs) s"
  unfolding closeForward_def
  by (cases "parsedExternalAddr n") (simp_all add: go_wp called_def split: option.splits)

lemma Close_leaves_thread:
  "wp (Namespace_Close e) (\<lambda>r s'. \<exists>cs. called s' = called s @ cs \<and> leaves_thread cs) s"
proof -
  let ?n = "self s"
  let ?Q = "\<lambda>r s'. \<exists>cs. called s' = called s @ cs \<and> leaves_thread cs"
  have "thenQ (\<lambda>_. closeLocked e ?n) ?Q r t"
    if "called t = called s @ cs" "list_all forward_call cs" for r t cs
  proof (cases r)
    case (Ok u)
    have "wp (closeLocked e ?n) ?Q t"
      by (rule wp_mono[OF closeLocked_leaves_thread])
        (use that in \<open>force intro: leaves_thread_prefix\<close>)
    then show ?thesis using Ok by simp
  qed (use that in \<open>auto simp: leaves_thread_def list_all_iff\<close>)
  then show ?thesis
    unfolding Namespace_Close_def wp_reading wp_andThen
    by (intro wp_mono[OF closeForward_calls]) auto
qed

definition inside_rules :: "namespace \<Rightarrow> (place \<times> fw_rule) list" where
  "inside_rules n = 
     [(InNamespace (ns_id n), ''nat'', ''POSTROUTING'', snat_rule n),
      (InNamespace (ns_id n), ''nat'', ''PREROUTING'', dnat_rule n)]"

definition incoming_rules :: "namespace \<Rightarrow> (place \<times> fw_rule) list" where
  "incoming_rules n = (if AllowIncomingTraffic (ns_conf n) then
     [(InNamespace (ns_id n), ''nat'', ''PREROUTING'', incoming_dnat_rule n),
      (InNamespace (ns_id n), ''nat'', ''POSTROUTING'', incoming_masquerade_rule n)] else [])"

definition host_rules :: "namespace \<Rightarrow> (place \<times> fw_rule) list" where
  "host_rules n = [(HostPlace, ''filter'', ''FORWARD'', accept_rule n),
      (HostPlace, ''filter'', ''FORWARD'', drop_to_rule n),
      (HostPlace, ''filter'', ''FORWARD'', drop_from_rule n)]"

lemma ok_parseInto [ok_rules]:
  "P () (self_update (f (Some a)) (trace_update (\<lambda>t. t @ [(ParseAddr a, True)]) s)) \<Longrightarrow>
     wp (parseInto e a f) (if_ok P) s"
  by (simp add: parseInto_def go_wp trace_snoc split: option.splits)
   (cases s; simp)

lemma openAll_rules:
  assumes "fw_run (trace s) s0 = (InNamespace (ns_id n), rs)"
  shows "wp (openAll e n) (if_ok (\<lambda>_ s'. 
     fw_run (trace s') s0 = (HostPlace, rs @ inside_rules n @ incoming_rules n @ host_rules n) \<and>
     self s' = (self s)\<lparr>parsedDefaultAddress := Some ''0.0.0.0/0'',
       parsedExternalAddr := Some (NamespaceVethIP (ns_conf n) @ ''/32'')\<rparr>)) s"
  unfolding openAll_def openDevices_def openHostEnd_def openInside_def openForward_def Let_def
  apply (intro ok_rules)
  using assms by (simp_all add: inside_rules_def incoming_rules_def host_rules_def)

lemma Open_rules:
  assumes "fw_run (trace s) s0 = (HostPlace, rs)"
  shows "wp (Namespace_Open e) (if_ok (\<lambda>_ s'. 
     fw_run (trace s') s0 = (HostPlace, rs @ inside_rules (self s) @ incoming_rules (self s) @ host_rules (self s)) \<and>
     self s' = (self s)\<lparr>parsedDefaultAddress := Some ''0.0.0.0/0'',
       parsedExternalAddr := Some (NamespaceVethIP (ns_conf (self s)) @ ''/32'')\<rparr>)) s"
proof -
  let ?n = "self s"
  have run: "wp (openAll e ?n) (if_ok (\<lambda>x. Q)) t"
    if "fw_run (trace t) s0 = (InNamespace (ns_id ?n), rs)" "self t = ?n"
      "\<And>t'. fw_run (trace t') s0 = (HostPlace, rs @ inside_rules ?n @ incoming_rules ?n @ host_rules ?n) \<Longrightarrow>
         self t' = ?n\<lparr>parsedDefaultAddress := Some ''0.0.0.0/0'',
           parsedExternalAddr := Some (NamespaceVethIP (ns_conf ?n) @ ''/32'')\<rparr> \<Longrightarrow> Q t'" for Q t
    using openAll_rules[OF that(1), of e] that(2,3) by (auto elim!: if_ok_weaken)
  show ?thesis
    unfolding Namespace_Open_def restoreNS_def
    by (intro ok_rules, rule run) (simp_all add: assms, intro ok_rules, simp)
qed

lemma closeAll_rules:
  assumes "fw_run (trace s) s0 = (HostPlace, rs)" "self s = n"
  shows "wp (closeAll e n) (if_ok (\<lambda>_ s'. fst (fw_run (trace s') s0) = InNamespace (ns_id n) \<and>
     snd (fw_run (trace s') s0) = remove1 (InNamespace (ns_id n), ''nat'', ''POSTROUTING'', snat_rule n)
       (remove1 (InNamespace (ns_id n), ''nat'', ''PREROUTING'', dnat_rule n) (rs @ incoming_rules n)))) s"
  unfolding closeAll_def closeInside_def closeDevices_def Let_def
  apply (intro ok_rules)
  using assms by (simp_all add: incoming_rules_def)

lemma Close_rules:
  assumes "fw_run (trace s) s0 = (HostPlace, rs)"
  shows "wp (Namespace_Close e) (if_ok (\<lambda>_ s'.
     snd (fw_run (trace s') s0) =
       remove1 (InNamespace (ns_id (self s)), ''nat'', ''POSTROUTING'', snat_rule (self s))
       (remove1 (InNamespace (ns_id (self s)), ''nat'', ''PREROUTING'', dnat_rule (self s))
       (remove1 (HostPlace, ''filter'', ''FORWARD'', accept_rule (self s))
       (remove1 (HostPlace, ''filter'', ''FORWARD'', drop_from_rule (self s))
       (remove1 (HostPlace, ''filter'', ''FORWARD'', drop_to_rule (self s)) rs)) @ incoming_rules (self s))))) s"
proof -
  let ?n = "self s"
  let ?ru = "remove1 (HostPlace, ''filter'', ''FORWARD'', accept_rule ?n)
       (remove1 (HostPlace, ''filter'', ''FORWARD'', drop_from_rule ?n)
       (remove1 (HostPlace, ''filter'', ''FORWARD'', drop_to_rule ?n) rs))"
  have run: "wp (closeAll e ?n) (if_ok (\<lambda>x. Q)) t"
    if "fw_run (trace t) s0 = (HostPlace, ?ru)" "self t = ?n"
      "\<And>t'. fst (fw_run (trace t') s0) = InNamespace (ns_id ?n) \<Longrightarrow>
       snd (fw_run (trace t') s0) = remove1 (InNamespace (ns_id ?n), ''nat'', ''POSTROUTING'', snat_rule ?n)
       (remove1 (InNamespace (ns_id ?n), ''nat'', ''PREROUTING'', dnat_rule ?n) (?ru @ incoming_rules ?n)) \<Longrightarrow> Q t'"
    for Q and t :: "'z ns_sys_scheme"
    using closeAll_rules[OF that(1,2), of e] that(3) by (auto elim!: if_ok_weaken)
  show ?thesis
    unfolding Namespace_Close_def closeForward_def closeLocked_def restoreNS_def
    by (intro ok_rules; rule run)
      (simp_all add: assms, (intro ok_rules, simp)+)
qed

text \<open>
  C17. Rules are taken back. A namespace that was opened and is later closed without an error leaves
  the packet-filter rules as they were, in the host and inside, when incoming traffic is not
  allowed. When it is, closing appends the two rules for incoming traffic a second time where
  opening had appended them, so both copies stay in the namespace.
\<close>

theorem namespace_roundtrip:
  assumes "fw_run (trace s) s0 = (HostPlace, rs)"
    and opened: "Namespace_Open e s = (Ok u, s1)"
    and "Namespace_Close e (s1\<lparr>trace := tr\<rparr>) = (Ok u', s2)"
    and "fw_run tr s0 = (HostPlace, rs @ inside_rules (self s) @ incoming_rules (self s) @ host_rules (self s))"
    and "set rs \<inter> set (inside_rules (self s) @ host_rules (self s)) = {}"
  shows "snd (fw_run (trace s2) s0) = rs @ incoming_rules (self s) @ incoming_rules (self s)"
proof -
  have n: "ns_id (self s1) = ns_id (self s)" "incoming_rules (self s1) = incoming_rules (self s)"
    "snat_rule (self s1) = snat_rule (self s)" "dnat_rule (self s1) = dnat_rule (self s)"
    "accept_rule (self s1) = accept_rule (self s)" "drop_to_rule (self s1) = drop_to_rule (self s)"
    "drop_from_rule (self s1) = drop_from_rule (self s)"
    using if_okD[OF Open_rules[OF assms(1)] opened] by (simp_all add: incoming_rules_def rule_defs)
  have "fw_run (trace (s1\<lparr>trace := tr\<rparr>)) s0 =
      (HostPlace, rs @ inside_rules (self s) @ incoming_rules (self s) @ host_rules (self s))"
    using assms(4) by simp
  moreover have "(HostPlace, x) \<notin> set (incoming_rules (self s))" for x
    by (simp add: incoming_rules_def)
  moreover have "drop_to_rule (self s) \<noteq> accept_rule (self s)" "drop_from_rule (self s) \<noteq> accept_rule (self s)"
    by (simp_all add: rule_defs)
  ultimately show ?thesis
    using if_okD[OF Close_rules assms(3)] assms(5)
    by (simp add: n inside_rules_def host_rules_def remove1_append)
qed

text \<open>
  C30. The thread comes back. Both operations, whatever fails in them, make the calls that put the
  thread back into the namespace it came from, close that handle and unlock the thread as their last
  three calls; the only runs that do not are those that never left the namespace.
\<close>

theorem namespace_thread_restored:
  "wp (Namespace_Open e) (\<lambda>r s'. \<exists>cs. called s' = called s @ cs \<and> leaves_thread cs) s \<and>
   wp (Namespace_Close e) (\<lambda>r s'. \<exists>cs. called s' = called s @ cs \<and> leaves_thread cs) s"
  by (intro conjI Open_leaves_thread Close_leaves_thread)

text \<open>A namespace in an environment where nothing fails.\<close>

definition demo_conf :: "bool \<Rightarrow> ns_config" where
  "demo_conf incoming = \<lparr>HostInterface = ''eth0'', NamespaceInterface = ''tap0'',
     NamespaceInterfaceGateway = ''172.16.0.1'', NamespaceInterfaceNetmask = 30,
     HostVethInternalIP = ''10.0.8.1'', HostVethExternalIP = ''10.0.8.2'',
     NamespaceInterfaceIP = ''172.16.0.2'', NamespaceVethIP = ''10.0.15.1'',
     BlockedSubnet = ''10.0.15.0/24'', NamespaceInterfaceMAC = ''02:0e:d9:fd:68:3d'',
     AllowIncomingTraffic = incoming\<rparr>"

definition calm_net :: net_env where
  "calm_net = \<lparr>fails = (\<lambda>_ _. None), maskSize = (\<lambda>_. 24), newPrefixCidr = (\<lambda>_. ''10.0.8.0/22''),
     availablePrefixes = (\<lambda>_. 256), availableAddrs = (\<lambda>_. 256), acquiredIP = (\<lambda>_. ''10.0.8.1''),
     acquiredPrefix = (\<lambda>_. ''10.0.8.0/30'')\<rparr>"

definition demo_ns :: "bool \<Rightarrow> ns_sys" where
  "demo_ns incoming = \<lparr>trace = [], self = NewNamespace ''ark0'' (demo_conf incoming)\<rparr>"

lemmas namespace_eval = Namespace_Open_def Namespace_Close_def closeLocked_def openAll_def closeAll_def
  openDevices_def openHostEnd_def openInside_def openForward_def closeForward_def closeInside_def
  closeDevices_def restoreNS_def parseInto_def Let_def go_defs calm_net_def demo_ns_def
  demo_conf_def NewNamespace_def

lemma demo_ns_runs:
  "fst (Namespace_Open calm_net (demo_ns b)) = Ok ()"
  "fst (Namespace_Close calm_net (snd (Namespace_Open calm_net (demo_ns b)))) = Ok ()"
  by (cases b; simp add: namespace_eval)+

theorem namespace_roundtrip_witness:
  "snd (fw_run (trace (snd (Namespace_Close calm_net (snd (Namespace_Open calm_net (demo_ns False))))))
     (HostPlace, [])) = [] \<and>
   length (snd (fw_run (trace (snd (Namespace_Close calm_net (snd (Namespace_Open calm_net (demo_ns True))))))
     (HostPlace, []))) = 4"
proof -
  have "snd (fw_run (trace (snd (Namespace_Close calm_net (snd (Namespace_Open calm_net (demo_ns b))))))
     (HostPlace, [])) = [] @ incoming_rules (self (demo_ns b)) @ incoming_rules (self (demo_ns b))" for b
  proof -
    obtain s1 where s1: "Namespace_Open calm_net (demo_ns b) = (Ok (), s1)"
      using demo_ns_runs(1)[of b] by (cases "Namespace_Open calm_net (demo_ns b)") simp
    obtain s2 where s2: "Namespace_Close calm_net (s1\<lparr>trace := trace s1\<rparr>) = (Ok (), s2)"
      using demo_ns_runs(2)[of b] by (cases "Namespace_Close calm_net s1") (simp add: s1)
    have f: "fw_run (trace (demo_ns b)) (HostPlace, []) = (HostPlace, [])" by (simp add: demo_ns_def)
    show ?thesis
      using namespace_roundtrip[OF f s1 s2 conjunct1[OF if_okD[OF Open_rules[OF f] s1]]] s2
      by (simp add: s1)
  qed
  then show ?thesis by (simp add: incoming_rules_def demo_ns_def NewNamespace_def demo_conf_def)
qed

end
