(* ===== verification/NatPool.thy ===== *)
theory NatPool
  imports Namespace VmState
begin

text \<open>
  The pool of network namespaces (\<^verbatim>\<open>pkg/network/nat/nat.go\<close>, \<^verbatim>\<open>namespaces.go\<close>):
  \<open>CreateNAT\<close> allocates addresses and opens one namespace per free address, machines claim and
  release namespaces by name, and \<open>Close\<close> gives everything back.

  Go's map iteration order is open; \<open>ClaimNamespace\<close> gets the order in which it meets the keys as an
  argument, and what is proved holds for every order. The background goroutine that closes the pool
  when the context ends runs under the third-party goroutine manager; its own code, which calls
  \<open>Close\<close> and panics with the error, is \<open>closeOnCancel\<close>. A panic of the loop is the outcome
  \<open>Panic\<close>; the goroutine manager, which turns it into the returned error, is not modelled.
\<close>

record claimable_ns =
  cn_namespace :: namespace
  claimed :: bool

record nat_sys = "net_call world" +
  hostVeths :: "ip_pair list"
  namespaceVeths :: "string list"
  claimable :: "(string, claimable_ns) gomap"
  nat_closed :: bool

record nat_config =
  nc_HostInterface :: string
  nc_HostVethCIDR :: string
  nc_NamespaceVethCIDR :: string
  nc_BlockedSubnetCIDR :: string
  nc_NamespaceInterface :: string
  nc_NamespaceInterfaceGateway :: string
  nc_NamespaceInterfaceNetmask :: "32 word"
  nc_NamespaceInterfaceIP :: string
  nc_NamespaceInterfaceMAC :: string
  nc_NamespacePrefix :: string
  nc_AllowIncomingTraffic :: bool

record nat_hooks =
  has_OnBeforeCreateNamespace :: bool
  has_OnBeforeRemoveNamespace :: bool

text \<open>\<open>ctxErr\<close> is what \<open>ctx.Err()\<close> returns when the code looks at the context.\<close>

record nat_env = net_env +
  ctxErr :: "net_trace \<Rightarrow> goerr option"

section \<open>Claiming and releasing\<close>

definition addNamespace :: "string \<Rightarrow> namespace \<Rightarrow> (('z) nat_sys_scheme, unit) go" where
  "addNamespace i n = update (\<lambda>s. s\<lparr>claimable := gm_put i \<lparr>cn_namespace = n, claimed = False\<rparr> (claimable s)\<rparr>)"

definition isFree :: "('z) nat_sys_scheme \<Rightarrow> string \<Rightarrow> bool" where
  "isFree s k \<longleftrightarrow> (case gm_get (claimable s) k of None \<Rightarrow> False | Some n \<Rightarrow> \<not> claimed n)"

definition setClaimed :: "string \<Rightarrow> bool \<Rightarrow> ('z) nat_sys_scheme \<Rightarrow> ('z) nat_sys_scheme" where
  "setClaimed k b s = s\<lparr>claimable := AList.map_entry k (\<lambda>n. n\<lparr>claimed := b\<rparr>) (claimable s)\<rparr>"

definition ClaimNamespace :: "string list \<Rightarrow> (('z) nat_sys_scheme, string) go" where
  "ClaimNamespace order = (\<lambda>s. case find (isFree s) order of
      None \<Rightarrow> (Err (NatErr ErrAllNamespacesClaimed), s)
    | Some k \<Rightarrow> (case gm_get (claimable s) k of
          None \<Rightarrow> (Panic NilDeref, s)
        | Some n \<Rightarrow> (Ok (GetID (cn_namespace n)), setClaimed k True s)))"

definition ReleaseNamespace :: "string \<Rightarrow> (('z) nat_sys_scheme, unit) go" where
  "ReleaseNamespace name = update (\<lambda>s. if gm_get (claimable s) name = None then s
                                       else setClaimed name False s)"

section \<open>Closing the pool\<close>

text \<open>
  \<open>withNamespace m n k\<close> runs a method of the namespace \<open>n\<close>; the rest gets its error and the
  struct it left behind.
\<close>

definition withNamespace ::
    "(ns_sys, unit) go \<Rightarrow> namespace \<Rightarrow> (goerr option \<Rightarrow> namespace \<Rightarrow> (('z) nat_sys_scheme, 'b) go) \<Rightarrow>
     (('z) nat_sys_scheme, 'b) go" where
  "withNamespace m n k = (\<lambda>s. case m \<lparr>trace = trace s, self = n\<rparr> of
      (Ok _, t) \<Rightarrow> k None (self t) (s\<lparr>trace := trace t\<rparr>)
    | (Err x, t) \<Rightarrow> k (Some x) (self t) (s\<lparr>trace := trace t\<rparr>)
    | (Panic x, t) \<Rightarrow> (Panic x, s\<lparr>trace := trace t\<rparr>))"

text \<open>
  \<open>for ... \{ if err := f(x); err != nil \{ errs = errors.Join(errs, E, err) \} \}\<close>
\<close>

fun collectErrs ::
    "goerr \<Rightarrow> ('x \<Rightarrow> ('s, unit) go) \<Rightarrow> 'x list \<Rightarrow> goerr option \<Rightarrow> ('s, goerr option) go" where
  "collectErrs E f [] errs = ret errs"
| "collectErrs E f (x # xs) errs = attempt (f x) (\<lambda>r. collectErrs E f xs
     (case r of Inl err \<Rightarrow> errors_Join [errs, Some E, Some err] | Inr _ \<Rightarrow> errs))"

definition returnErrs :: "goerr option \<Rightarrow> ('s, unit) go" where
  "returnErrs errs = (case errs of None \<Rightarrow> ret () | Some x \<Rightarrow> throw x)"

definition closeOne ::
    "('y) net_env_scheme \<Rightarrow> nat_hooks \<Rightarrow> string \<times> claimable_ns \<Rightarrow> (('z) nat_sys_scheme, unit) go" where
  "closeOne e hooks p = (case p of (_, cn) \<Rightarrow>
     andThen (whenM (has_OnBeforeRemoveNamespace hooks)
       (actIgnore e (OnBeforeRemoveNamespace (GetID (cn_namespace cn))))) (\<lambda>_.
     withNamespace (Namespace_Close e) (cn_namespace cn) (\<lambda>err _. returnErrs err)))"

definition Namespaces_Close ::
    "('y) net_env_scheme \<Rightarrow> nat_config \<Rightarrow> nat_hooks \<Rightarrow> ip_table \<Rightarrow> (('z) nat_sys_scheme, unit) go" where
  "Namespaces_Close e conf hooks nsTable =
     reading hostVeths (\<lambda>hv.
     andThen (collectErrs (NatErr ErrCouldNotReleaseHostVethIP) (\<lambda>q. ReleasePair e (Some q)) hv None)
       (\<lambda>errs.
     andThen (update (\<lambda>s. s\<lparr>hostVeths := []\<rparr>)) (\<lambda>_.
     reading namespaceVeths (\<lambda>nv.
     andThen (collectErrs (NatErr ErrCouldNotReleaseNamespaceVethIP)
       (\<lambda>ip. ReleaseIP e nsTable (Some ip)) nv errs) (\<lambda>errs.
     andThen (update (\<lambda>s. s\<lparr>namespaceVeths := []\<rparr>)) (\<lambda>_.
     reading claimable (\<lambda>cs.
     andThen (collectErrs (NatErr ErrCouldNotCloseNamespace) (closeOne e hooks) cs errs) (\<lambda>errs.
     andThen (update (\<lambda>s. s\<lparr>claimable := []\<rparr>)) (\<lambda>_.
     reading nat_closed (\<lambda>c. if c then returnErrs errs else
     andThen (update (\<lambda>s. s\<lparr>nat_closed := True\<rparr>)) (\<lambda>_.
     attempt (RemoveHostNAT e (nc_HostInterface conf)) (\<lambda>r.
     returnErrs (case r of Inl err \<Rightarrow> errors_Join [errs, Some (NatErr ErrCouldNotRemoveNAT), Some err]
                         | Inr _ \<Rightarrow> errs)))))))))))))"

definition closeOnCancel ::
    "('y) net_env_scheme \<Rightarrow> nat_config \<Rightarrow> nat_hooks \<Rightarrow> ip_table \<Rightarrow> (('z) nat_sys_scheme, unit) go" where
  "closeOnCancel e conf hooks nsTable = attempt (Namespaces_Close e conf hooks nsTable) (\<lambda>r. case r of
      Inl err \<Rightarrow> panic (Joined [NatErr ErrNATContextCancelled, err]) | Inr _ \<Rightarrow> ret ())"

section \<open>Creating the pool\<close>

text \<open>\<open>if err := m(); err != nil \{ panic(errors.Join(E, err)) \}\<close>\<close>

definition orPanic :: "goerr \<Rightarrow> ('s, 'a) go \<Rightarrow> ('a \<Rightarrow> ('s, 'b) go) \<Rightarrow> ('s, 'b) go" where
  "orPanic E m k = attempt m (\<lambda>r. case r of Inl err \<Rightarrow> panic (Joined [E, err]) | Inr x \<Rightarrow> k x)"

definition checkCtx :: "('y) nat_env_scheme \<Rightarrow> (('z) nat_sys_scheme, unit) go" where
  "checkCtx e = reading (\<lambda>s. ctxErr e (trace s)) returnErrs"

text \<open>
  The two allocations. When the allocation fails the pointer is nil, and the code releases it.
\<close>

definition allocHostVeth ::
    "('y) nat_env_scheme \<Rightarrow> ip_table \<Rightarrow> (('z) nat_sys_scheme, ip_pair) go" where
  "allocHostVeth e t = andThen (checkCtx e) (\<lambda>_.
     attempt (GetPair e t) (\<lambda>r. case r of
       Inl err \<Rightarrow> attempt (ReleasePair e None) (\<lambda>r2. case r2 of
           Inl err2 \<Rightarrow> throw (Joined [NatErr ErrCouldNotReleaseHostVethIP, err, err2])
         | Inr _ \<Rightarrow> throw err)
     | Inr q \<Rightarrow> andThen (update (\<lambda>s. s\<lparr>hostVeths := hostVeths s @ [q]\<rparr>)) (\<lambda>_. ret q)))"

definition allocNamespaceVeth ::
    "('y) nat_env_scheme \<Rightarrow> ip_table \<Rightarrow> (('z) nat_sys_scheme, string) go" where
  "allocNamespaceVeth e t = andThen (checkCtx e) (\<lambda>_.
     attempt (GetIP e t) (\<lambda>r. case r of
       Inl err \<Rightarrow> attempt (ReleaseIP e t None) (\<lambda>r2. case r2 of
           Inl err2 \<Rightarrow> throw (Joined [NatErr ErrCouldNotReleaseNamespaceVethIP, err, err2])
         | Inr _ \<Rightarrow> throw err)
     | Inr ip \<Rightarrow> andThen (update (\<lambda>s. s\<lparr>namespaceVeths := namespaceVeths s @ [ip]\<rparr>)) (\<lambda>_. ret ip)))"

definition nsConfigOf :: "nat_config \<Rightarrow> ip_pair \<Rightarrow> string \<Rightarrow> ns_config" where
  "nsConfigOf c hostVeth ip = \<lparr>HostInterface = nc_HostInterface c,
     NamespaceInterface = nc_NamespaceInterface c,
     NamespaceInterfaceGateway = nc_NamespaceInterfaceGateway c,
     NamespaceInterfaceNetmask = nc_NamespaceInterfaceNetmask c,
     HostVethInternalIP = firstIP hostVeth, HostVethExternalIP = secondIP hostVeth,
     NamespaceInterfaceIP = nc_NamespaceInterfaceIP c, NamespaceVethIP = ip,
     BlockedSubnet = nc_BlockedSubnetCIDR c, NamespaceInterfaceMAC = nc_NamespaceInterfaceMAC c,
     AllowIncomingTraffic = nc_AllowIncomingTraffic c\<rparr>"

definition openOne ::
    "('y) nat_env_scheme \<Rightarrow> nat_config \<Rightarrow> nat_hooks \<Rightarrow> string \<Rightarrow> ip_pair \<Rightarrow> string \<Rightarrow>
     (('z) nat_sys_scheme, unit) go" where
  "openOne e conf hooks i hostVeth ip = andThen (checkCtx e) (\<lambda>_.
     andThen (whenM (has_OnBeforeCreateNamespace hooks) (actIgnore e (OnBeforeCreateNamespace i))) (\<lambda>_.
     withNamespace (Namespace_Open e) (NewNamespace i (nsConfigOf conf hostVeth ip)) (\<lambda>err n.
     case err of
       None \<Rightarrow> addNamespace i n
     | Some x \<Rightarrow> withNamespace (Namespace_Close e) n (\<lambda>err2 _. case err2 of
           None \<Rightarrow> throw x
         | Some x2 \<Rightarrow> throw (Joined [NatErr ErrCouldNotOpenNamespace, x, x2])))))"

definition namespaceName :: "nat_config \<Rightarrow> nat \<Rightarrow> string" where
  "namespaceName conf i = nc_NamespacePrefix conf @ show_nat i"

definition createOne ::
    "('y) nat_env_scheme \<Rightarrow> nat_config \<Rightarrow> nat_hooks \<Rightarrow> ip_table \<Rightarrow> ip_table \<Rightarrow> nat \<Rightarrow>
     (('z) nat_sys_scheme, unit) go" where
  "createOne e conf hooks hostTable nsTable i =
     orPanic (NatErr ErrCouldNotOpenHostVethIPs) (allocHostVeth e hostTable) (\<lambda>hostVeth.
     orPanic (NatErr ErrCouldNotOpenNamespaceVethIPs) (allocNamespaceVeth e nsTable) (\<lambda>ip.
     orPanic (NatErr ErrCouldNotOpenNamespace)
       (openOne e conf hooks (namespaceName conf i) hostVeth ip) ret))"

definition limitNamespaces :: "int \<Rightarrow> 64 word \<Rightarrow> 64 word" where
  "limitNamespaces maxCreated ips =
     (if word_of_int maxCreated < ips then word_of_int maxCreated else ips)"

text \<open>The setup: the two tables and the number of namespaces to create.\<close>

definition CreateNAT_setup ::
    "('y) nat_env_scheme \<Rightarrow> nat_config \<Rightarrow> int \<Rightarrow>
     (('z) nat_sys_scheme, ip_table \<times> ip_table \<times> 64 word) go" where
  "CreateNAT_setup e conf maxCreated =
     wrapErr (NatErr ErrCouldNotFindHostInterface) (act e (InterfaceByName (nc_HostInterface conf))) (\<lambda>_.
     wrapErr (NatErr ErrCouldNotCreateNAT) (CreateHostNAT e (nc_HostInterface conf)) (\<lambda>_.
     wrapErr (NatErr ErrCouldNotOpenHostVethIPs) (IPTable_Open e (NewIPTable 0 (nc_HostVethCIDR conf))) (\<lambda>ht.
     wrapErr (NatErr ErrCouldNotOpenNamespaceVethIPs)
       (IPTable_Open e (NewIPTable 1 (nc_NamespaceVethCIDR conf))) (\<lambda>nt.
     andThen (AvailableIPs e nt) (\<lambda>ips.
     andThen (AvailablePairs e ht) (\<lambda>pairs.
     if ips > pairs then throw (NatErr ErrNotEnoughAvailableIPsInHostCIDR)
     else if ips < 1 then throw (NatErr ErrNotEnoughAvailableIPsInNamespaceCIDR)
     else ret (ht, nt, limitNamespaces maxCreated ips)))))))"

definition CreateNAT ::
    "('y) nat_env_scheme \<Rightarrow> nat_config \<Rightarrow> nat_hooks \<Rightarrow> int \<Rightarrow> (('z) nat_sys_scheme, ip_table) go" where
  "CreateNAT e conf hooks maxCreated =
     andThen (CreateNAT_setup e conf maxCreated) (\<lambda>(ht, nt, n).
     andThen (forEach [0..<unat n] (createOne e conf hooks ht nt)) (\<lambda>_. ret nt))"

section \<open>The pool as a system\<close>

text \<open>
  Clients claim and release namespaces in any order; \<open>holders\<close> records which are out. A client
  releases only what it holds.
\<close>

record pool_sys = nat_sys +
  holders :: "string list"

inductive pool_step :: "('z) pool_sys_scheme \<Rightarrow> ('z) pool_sys_scheme \<Rightarrow> bool" where
  pool_claim: "set order = fst ` set (claimable s) \<Longrightarrow> ClaimNamespace order s = (Ok i, s') \<Longrightarrow>
    pool_step s (s'\<lparr>holders := i # holders s\<rparr>)"
| pool_refuse: "set order = fst ` set (claimable s) \<Longrightarrow> ClaimNamespace order s = (Err x, s') \<Longrightarrow>
    pool_step s s'"
| pool_release: "i \<in> set (holders s) \<Longrightarrow> ReleaseNamespace i s = (Ok u, s') \<Longrightarrow>
    pool_step s (s'\<lparr>holders := remove1 i (holders s)\<rparr>)"

definition pool_named :: "('z) nat_sys_scheme \<Rightarrow> bool" where
  "pool_named s \<longleftrightarrow> gm_wf (claimable s) \<and>
     list_all (\<lambda>(k, n). GetID (cn_namespace n) = k) (claimable s)"

definition pool_init :: "('z) pool_sys_scheme \<Rightarrow> bool" where
  "pool_init s \<longleftrightarrow> pool_named s \<and> holders s = [] \<and>
     (\<forall>k n. gm_get (claimable s) k = Some n \<longrightarrow> \<not> claimed n)"

definition pool_inv :: "('z) pool_sys_scheme \<Rightarrow> bool" where
  "pool_inv s \<longleftrightarrow> pool_named s \<and> distinct (holders s) \<and>
     (\<forall>k. k \<in> set (holders s) \<longleftrightarrow> (\<exists>n. gm_get (claimable s) k = Some n \<and> claimed n))"

lemma get_setClaimed [simp]:
  "gm_get (claimable (setClaimed k b s)) j =
     (if j = k then map_option (\<lambda>n. n\<lparr>claimed := b\<rparr>) (gm_get (claimable s) k)
      else gm_get (claimable s) j)"
  by (auto simp: setClaimed_def map_of_map_entry split: option.splits)

lemma wf_setClaimed [simp]: "gm_wf (claimable (setClaimed k b s)) = gm_wf (claimable s)"
  by (simp add: setClaimed_def)

lemma holders_setClaimed [simp]: "holders (setClaimed k b s) = holders s"
  by (simp add: setClaimed_def)

lemma named_setClaimed [simp]: "pool_named (setClaimed k b s) = pool_named s"
proof -
  have "list_all (\<lambda>(k, n). GetID (cn_namespace n) = k) (AList.map_entry k (\<lambda>n. n\<lparr>claimed := b\<rparr>) m) =
      list_all (\<lambda>(k, n). GetID (cn_namespace n) = k) m" for m :: "(string, claimable_ns) gomap"
    by (induction m) auto
  then show ?thesis by (simp add: pool_named_def setClaimed_def)
qed

lemma pool_named_get: "pool_named s \<Longrightarrow> gm_get (claimable s) k = Some n \<Longrightarrow> GetID (cn_namespace n) = k"
  by (auto simp: pool_named_def list_all_iff dest: map_of_SomeD)

text \<open>The outcomes of a claim, for every order of iteration.\<close>

lemma ClaimNamespace_Ok:
  assumes "ClaimNamespace order s = (Ok i, s')" and "pool_named s"
  shows "i \<in> set order" "isFree s i" "s' = setClaimed i True s"
  using assms
  by (auto simp: ClaimNamespace_def find_Some_iff pool_named_get split: option.splits)

lemma ClaimNamespace_Err:
  assumes "ClaimNamespace order s = (Err x, s')"
  shows "s' = s" "x = NatErr ErrAllNamespacesClaimed" "\<forall>k \<in> set order. \<not> isFree s k"
  using assms by (auto simp: ClaimNamespace_def find_None_iff split: option.splits)

lemma ClaimNamespace_never_panics:
  "fst (ClaimNamespace order s) \<noteq> Panic x"
  by (auto simp: ClaimNamespace_def isFree_def find_Some_iff split: option.splits)

lemma pool_named_cong [simp]: "pool_named (s\<lparr>holders := h\<rparr>) = pool_named s"
  by (simp add: pool_named_def)

lemma pool_step_inv:
  assumes "pool_inv s" and "pool_step s t"
  shows "pool_inv t"
  using assms(2)
proof cases
  case (pool_claim order i s')
  note c = ClaimNamespace_Ok[OF pool_claim(3)]
  have n: "pool_named s" using assms(1) by (simp add: pool_inv_def)
  then show ?thesis
    using c assms(1) pool_claim(1)
    by (auto simp: pool_inv_def isFree_def split: option.splits)
next
  case (pool_refuse order x)
  then show ?thesis using assms(1) ClaimNamespace_Err(1) by blast
next
  case (pool_release i u s')
  have "s' = setClaimed i False s"
    using pool_release(3) assms(1) pool_release(2)
    by (auto simp: ReleaseNamespace_def go_defs pool_inv_def split: if_splits)
  then show ?thesis
    using assms(1) pool_release(1,2) by (auto simp: pool_inv_def split: if_splits)
qed

interpretation pool: invariant_system pool_init pool_step pool_inv
  by unfold_locales (simp add: pool_init_def pool_inv_def, rule pool_step_inv)

text \<open>
  C12. Exclusive claims. However clients claim and release, no namespace is held twice: a claim that
  succeeds returns a namespace of the pool nobody holds, and it fails, with the pool unchanged,
  exactly when every namespace of the pool is held.
\<close>

theorem claims_exclusive:
  assumes "reaches pool_init pool_step s" and "set order = fst ` set (claimable s)"
    and "ClaimNamespace order s = (r, s')"
  shows "distinct (holders s) \<and>
    (case r of
       Ok i \<Rightarrow> i \<in> fst ` set (claimable s) \<and> i \<notin> set (holders s)
     | Err x \<Rightarrow> s' = s \<and> set (holders s) = fst ` set (claimable s)
     | Panic x \<Rightarrow> False)"
proof -
  have i: "pool_inv s" by (rule pool.reachable_inv[OF assms(1)])
  then have n: "pool_named s" by (simp add: pool_inv_def)
  have free: "k \<in> fst ` set (claimable s) \<Longrightarrow> isFree s k \<longleftrightarrow> k \<notin> set (holders s)" for k
    using i by (auto simp: pool_inv_def isFree_def keys_iff_get split: option.splits)
  have held: "set (holders s) \<subseteq> fst ` set (claimable s)"
    using i by (auto simp: pool_inv_def keys_iff_get)
  show ?thesis
  proof (cases r)
    case (Ok i)
    then show ?thesis
      using ClaimNamespace_Ok(1,2)[of order s i s'] assms n free i by (auto simp: pool_inv_def)
  next
    case (Err x)
    then show ?thesis
      using ClaimNamespace_Err[of order s x s'] assms free held i by (auto simp: pool_inv_def)
  next
    case (Panic x)
    then show ?thesis using ClaimNamespace_never_panics[of order s x] assms(3) by simp
  qed
qed

section \<open>Creation fills the pool\<close>

lemma Open_keeps_self:
  "wp (Namespace_Open e) (if_ok (\<lambda>_ t. ns_id (self t) = ns_id (self s))) s"
  unfolding Namespace_Open_def restoreNS_def openAll_def openDevices_def openHostEnd_def
    openInside_def openForward_def Let_def
  by (intro ok_rules) simp_all

lemma wp_withNamespace:
  "wp (withNamespace m n k) Q s \<longleftrightarrow> (case m \<lparr>trace = trace s, self = n\<rparr> of
      (Ok _, t) \<Rightarrow> wp (k None (self t)) Q (s\<lparr>trace := trace t\<rparr>)
    | (Err x, t) \<Rightarrow> wp (k (Some x) (self t)) Q (s\<lparr>trace := trace t\<rparr>)
    | (Panic x, t) \<Rightarrow> Q (Panic x) (s\<lparr>trace := trace t\<rparr>))"
  by (simp add: wp_def withNamespace_def split: prod.splits res.splits)

lemma ok_withNamespace_Open:
  assumes "\<And>n' tr. ns_id n' = ns_id n \<Longrightarrow> wp (k None n') (if_ok P) (s\<lparr>trace := tr\<rparr>)"
    and "\<And>x n' tr. wp (k (Some x) n') (if_ok P) (s\<lparr>trace := tr\<rparr>)"
  shows "wp (withNamespace (Namespace_Open e) n k) (if_ok P) s"
proof -
  let ?t = "\<lparr>trace = trace s, self = n\<rparr>"
  have "ns_id (self t') = ns_id n" if "Namespace_Open e ?t = (Ok u, t')" for u t'
    using if_okD[OF Open_keeps_self that] by simp
  then show ?thesis
    using assms by (auto simp: wp_withNamespace split: prod.splits res.splits)
qed

lemma ok_withNamespace:
  "(\<And>r n' tr. wp (k r n') (if_ok P) (s\<lparr>trace := tr\<rparr>)) \<Longrightarrow> wp (withNamespace m n k) (if_ok P) s"
  by (auto simp: wp_withNamespace split: prod.splits res.splits)

lemma ok_orPanic [ok_rules]:
  "wp m (if_ok (\<lambda>x. wp (k x) (if_ok P))) s \<Longrightarrow> wp (orPanic E m k) (if_ok P) s"
  by (auto simp: wp_def if_ok_def orPanic_def attempt_def panic_def split: prod.splits res.splits)

lemma ok_checkCtx [ok_rules]: "P () s \<Longrightarrow> wp (checkCtx e) (if_ok P) s"
  by (auto simp: checkCtx_def returnErrs_def go_wp split: option.splits)

text \<open>Number \<open>i\<close> has been created: the state the loop is in.\<close>

definition created :: "nat_config \<Rightarrow> nat \<Rightarrow> ('z) nat_sys_scheme \<Rightarrow> bool" where
  "created conf i s \<longleftrightarrow> map fst (claimable s) = map (namespaceName conf) [0..<i] \<and>
     list_all (\<lambda>(k, n). GetID (cn_namespace n) = k \<and> \<not> claimed n) (claimable s) \<and>
     length (hostVeths s) = i \<and> length (namespaceVeths s) = i"

lemma namespaceName_inj: "namespaceName conf i = namespaceName conf j \<longleftrightarrow> i = j"
  by (simp add: namespaceName_def show_nat_inj)

lemma wp_alloc:
  "wp (allocHostVeth e t) (if_ok (\<lambda>q s'. \<exists>tr. s' = s\<lparr>trace := tr, hostVeths := hostVeths s @ [q]\<rparr>)) s"
  "wp (allocNamespaceVeth e t) (if_ok (\<lambda>q s'. \<exists>tr. s' = s\<lparr>trace := tr, namespaceVeths := namespaceVeths s @ [q]\<rparr>)) s"
  by (auto simp: allocHostVeth_def allocNamespaceVeth_def checkCtx_def returnErrs_def GetPair_def GetIP_def
      ReleasePair_def ReleaseIP_def withPrefix_def go_wp split: option.splits)

lemma openOne_adds:
  assumes "i \<notin> fst ` set (claimable s)"
  shows "wp (openOne e conf hooks i q ip) (if_ok (\<lambda>_ t. \<exists>n. ns_id n = i \<and>
     claimable t = claimable s @ [(i, \<lparr>cn_namespace = n, claimed = False\<rparr>)] \<and>
     hostVeths t = hostVeths s \<and> namespaceVeths t = namespaceVeths s)) s"
  unfolding openOne_def addNamespace_def
  by (intro ok_rules ok_withNamespace_Open)
    (auto simp: gm_put_new assms NewNamespace_def intro!: ok_rules ok_withNamespace)

lemma createOne_created:
  fixes s :: "'z nat_sys_scheme"
  assumes "created conf i s"
  shows "wp (createOne e conf hooks ht nt i) (if_ok (\<lambda>_. created conf (Suc i))) s"
proof -
  let ?k = "namespaceName conf i"
  have new: "?k \<notin> fst ` set (claimable s)"
    unfolding set_map[symmetric] using assms by (auto simp: created_def namespaceName_inj)
  have open': "wp (orPanic E (openOne e conf hooks ?k q ip) ret) (if_ok (\<lambda>_. created conf (Suc i))) t"
    if "claimable t = claimable s" "length (hostVeths t) = Suc i" "length (namespaceVeths t) = Suc i" for E q ip
      and t :: "'z nat_sys_scheme"
    by (rule ok_orPanic, rule if_ok_weaken[OF openOne_adds]) (use that new assms in \<open>auto simp: created_def GetID_def go_wp\<close>)
  show ?thesis
    unfolding createOne_def
    by (rule ok_orPanic, rule if_ok_weaken[OF wp_alloc(1)], elim exE, rule ok_orPanic,
        rule if_ok_weaken[OF wp_alloc(2)],
        elim exE, rule open')
      (use assms in \<open>simp_all add: created_def\<close>)
qed


section \<open>Failures\<close>

text \<open>
  A failed allocation crashes. When no address pair is left, or no address, the creation does not
  return the allocation error: it releases the nil pointer the allocation returned, and panics with
  a nil dereference, whatever the error was.
\<close>

theorem failed_allocation_crashes:
  assumes "ctxErr e (trace s) = None"
  shows "wp (GetPair e t) (\<lambda>r s1. \<forall>x. r = Err x \<longrightarrow> fst (allocHostVeth e t s) = Panic NilDeref) s \<and>
    wp (GetIP e t) (\<lambda>r s1. \<forall>x. r = Err x \<longrightarrow> fst (allocNamespaceVeth e t s) = Panic NilDeref) s"
  using assms
  by (auto simp: wp_def allocHostVeth_def allocNamespaceVeth_def checkCtx_def returnErrs_def
      ReleasePair_def ReleaseIP_def go_defs split: prod.splits res.splits)

section \<open>Closing\<close>

text \<open>An error that was collected is not lost.\<close>

lemma collectErrs_keeps: "wp (collectErrs E f xs errs) (if_ok (\<lambda>r _. errs \<noteq> None \<longrightarrow> r \<noteq> None)) s"
proof (induction xs arbitrary: errs s)
  case Nil
  then show ?case by (simp add: go_wp)
next
  case (Cons x xs)
  show ?case
    unfolding collectErrs.simps
    by (intro ok_attempt wpI) (auto split: res.splits intro!: if_ok_weaken[OF Cons.IH])
qed

text \<open>Releasing a list of pairs ends without an error only when the list is empty.\<close>

lemma collectErrs_pairs:
  "wp (collectErrs E (\<lambda>q. ReleasePair e (Some q)) xs errs) (if_ok (\<lambda>r _. xs \<noteq> [] \<longrightarrow> r \<noteq> None)) s"
proof (cases xs)
  case Nil
  then show ?thesis by (simp add: go_wp)
next
  case (Cons x ys)
  have never: "wp (ReleasePair e (Some x)) (\<lambda>r s'. case r of Ok u \<Rightarrow> False | _ \<Rightarrow> True) s"
    using ReleasePair_never_Ok[of e "Some x" s] by (auto simp: wp_def split: res.splits prod.splits)
  show ?thesis
    unfolding Cons collectErrs.simps
    by (intro ok_attempt wp_mono[OF never])
      (auto split: res.splits intro!: if_ok_weaken[OF collectErrs_keeps])
qed

lemma ok_returnErrs [ok_rules]: "(errs = None \<Longrightarrow> P () s) \<Longrightarrow> wp (returnErrs errs) (if_ok P) s"
  by (auto simp: returnErrs_def go_wp split: option.splits)

lemma Namespaces_Close_reports:
  assumes "hostVeths s \<noteq> []"
  shows "wp (Namespaces_Close e conf hooks t) (if_ok (\<lambda>_ _. False)) s"
  unfolding Namespaces_Close_def
  by (rule ok_reading, rule ok_andThen, rule if_ok_weaken[OF collectErrs_pairs],
      intro ok_rules if_ok_weaken[OF collectErrs_keeps])
    (use assms in \<open>auto intro!: wpI ok_returnErrs split: res.splits\<close>)

text \<open>Nothing in the pool is left once it was closed, whatever errors there were on the way.\<close>

lemma ok_collectErrs:
  assumes "I s" and "\<And>x s. I s \<Longrightarrow> wp (f x) (\<lambda>r s'. I s' \<or> (\<exists>p. r = Panic p)) s"
  shows "wp (collectErrs E f xs errs) (\<lambda>r s'. (\<exists>p. r = Panic p) \<or> (I s' \<and> (\<exists>x. r = Ok x))) s"
  using assms(1)
proof (induction xs arbitrary: errs s)
  case Nil
  then show ?case by (simp add: go_wp)
next
  case (Cons x xs)
  have "attemptQ (\<lambda>r. collectErrs E f xs (case r of Inl err \<Rightarrow> errors_Join [errs, Some E, Some err] | Inr _ \<Rightarrow> errs))
      (\<lambda>r s'. (\<exists>p. r = Panic p) \<or> (I s' \<and> (\<exists>x. r = Ok x))) r s'" if "I s' \<or> (\<exists>p. r = Panic p)" for r s'
    using that Cons.IH by (cases r) auto
  then show ?case
    unfolding collectErrs.simps wp_attempt by (rule wp_mono[OF assms(2)[OF Cons.prems]])
qed

lemma unless_panic_then:
  assumes "wp m (\<lambda>r s'. (\<exists>p. r = Panic p) \<or> (I s' \<and> (\<exists>x. r = Ok x))) s"
    and "\<And>x s'. I s' \<Longrightarrow> wp (k x) (\<lambda>r s'. (\<exists>p. r = Panic p) \<or> J s') s'"
  shows "wp (andThen m k) (\<lambda>r s'. (\<exists>p. r = Panic p) \<or> J s') s"
  unfolding wp_andThen by (rule wp_mono[OF assms(1)]) (use assms(2) in auto)

definition pool_empty :: "('z) nat_sys_scheme \<Rightarrow> bool" where
  "pool_empty s \<longleftrightarrow> hostVeths s = [] \<and> namespaceVeths s = [] \<and> claimable s = [] \<and> nat_closed s"

lemma Namespaces_Close_empties:
  "wp (Namespaces_Close e conf hooks t) (\<lambda>r s'. (\<exists>p. r = Panic p) \<or> pool_empty s') s"
proof -
  let ?I = "\<lambda>s. hostVeths s = []" and ?J = "\<lambda>s. hostVeths s = [] \<and> namespaceVeths s = []"
  have ip: "wp (ReleaseIP e t (Some a)) (\<lambda>r s'. ?I s' \<or> (\<exists>p. r = Panic p)) s" if "?I s" for a and s :: "'c nat_sys_scheme"
    using that by (simp add: ReleaseIP_def go_wp split: option.splits)
  have ns: "wp (closeOne e hooks p) (\<lambda>r s'. ?J s' \<or> (\<exists>p. r = Panic p)) s" if "?J s" for p and s :: "'c nat_sys_scheme"
    using that
    by (auto simp: closeOne_def returnErrs_def go_wp wp_withNamespace split: prod.splits res.splits)
  have last: "wp (andThen (update (\<lambda>s. s\<lparr>claimable := []\<rparr>)) (\<lambda>_.
     reading nat_closed (\<lambda>c. if c then returnErrs errs else
     andThen (update (\<lambda>s. s\<lparr>nat_closed := True\<rparr>)) (\<lambda>_.
     attempt (RemoveHostNAT e h) (\<lambda>r.
     returnErrs (case r of Inl err \<Rightarrow> errors_Join [errs, Some (NatErr ErrCouldNotRemoveNAT), Some err]
                         | Inr _ \<Rightarrow> errs))))))
     (\<lambda>r s'. (\<exists>p. r = Panic p) \<or> pool_empty s') s" if "?J s" for errs h and s :: "'c nat_sys_scheme"
    using that
    by (auto simp: go_wp returnErrs_def pool_empty_def RemoveHostNAT_def split: option.splits)
  show ?thesis
    unfolding Namespaces_Close_def wp_reading
    by (rule unless_panic_then[OF ok_collectErrs[where I = "\<lambda>_. True"]];
        simp add: wp_andThen[of "update _"] wp_update wp_reading;
        (rule wpI, simp)?;
        rule unless_panic_then[OF ok_collectErrs[where I = ?I]];
        simp add: ip wp_andThen[of "update _"] wp_update wp_reading;
        rule unless_panic_then[OF ok_collectErrs[where I = ?J]];
        simp add: ns; rule last; simp)
qed

lemma Namespaces_Close_again:
  "pool_empty s \<Longrightarrow> Namespaces_Close e conf hooks t s = (Ok (), s)"
  by (simp add: Namespaces_Close_def pool_empty_def returnErrs_def go_defs)

interpretation pool_close: once_op "Namespaces_Close e conf hooks t" pool_empty for e conf hooks t
  by unfold_locales (auto simp: Namespaces_Close_again dest: wpD[OF Namespaces_Close_empties])

text \<open>
  C32. What closing does. Unless it panics, closing the pool empties its lists and removes the host's
  address translation, errors on the way included, and closing again does nothing and returns no
  error. But the first close of a pool that holds an address pair never returns without an error,
  because \<open>ReleasePair\<close> returns its sentinel even when every release succeeded.
\<close>

theorem closing_the_pool:
  assumes "Namespaces_Close e conf hooks t s = (r, s')" and "\<And>p. r \<noteq> Panic p"
  shows "pool_empty s' \<and> Namespaces_Close e conf hooks t s' = (Ok (), s') \<and>
    (hostVeths s \<noteq> [] \<longrightarrow> (\<exists>x. r = Err x))"
proof -
  have "pool_empty s'" using wpD[OF Namespaces_Close_empties assms(1)] assms(2) by blast
  moreover have "\<exists>x. r = Err x" if "hostVeths s \<noteq> []"
    using wpD[OF Namespaces_Close_reports[OF that] assms(1)] assms(2) by (cases r) auto
  ultimately show ?thesis by (simp add: pool_close.done_is_noop)
qed

section \<open>Examples\<close>

text \<open>An environment in which nothing fails, and a pool with one free namespace.\<close>

definition calm_nat :: nat_env where
  "calm_nat = \<lparr>fails = (\<lambda>_ _. None), maskSize = (\<lambda>_. 24), newPrefixCidr = (\<lambda>_. ''10.0.8.0/22''),
     availablePrefixes = (\<lambda>_. 256), availableAddrs = (\<lambda>_. 256), acquiredIP = (\<lambda>_. ''10.0.8.1''),
     acquiredPrefix = (\<lambda>_. ''10.0.8.0/30''), ctxErr = (\<lambda>_. None)\<rparr>"

definition demo_nat :: nat_config where
  "demo_nat = \<lparr>nc_HostInterface = ''eth0'', nc_HostVethCIDR = ''10.0.8.0/22'',
     nc_NamespaceVethCIDR = ''10.0.15.0/24'', nc_BlockedSubnetCIDR = ''10.0.15.0/24'',
     nc_NamespaceInterface = ''tap0'', nc_NamespaceInterfaceGateway = ''172.16.0.1'',
     nc_NamespaceInterfaceNetmask = 30, nc_NamespaceInterfaceIP = ''172.16.0.2'',
     nc_NamespaceInterfaceMAC = ''02:0e:d9:fd:68:3d'', nc_NamespacePrefix = ''ark'',
     nc_AllowIncomingTraffic = False\<rparr>"

definition no_hooks :: nat_hooks where
  "no_hooks = \<lparr>has_OnBeforeCreateNamespace = False, has_OnBeforeRemoveNamespace = False\<rparr>"

definition empty_nat :: nat_sys where
  "empty_nat = \<lparr>trace = [], hostVeths = [], namespaceVeths = [], claimable = [], nat_closed = False\<rparr>"

definition demo_pool :: pool_sys where
  "demo_pool = \<lparr>trace = [], hostVeths = [], namespaceVeths = [],
     claimable = [(''ark0'', \<lparr>cn_namespace = NewNamespace ''ark0'' (demo_conf False), claimed = False\<rparr>)],
     nat_closed = False, holders = []\<rparr>"

definition demo_pool_held :: pool_sys where
  "demo_pool_held = demo_pool\<lparr>holders := [''ark0''],
     claimable := [(''ark0'', \<lparr>cn_namespace = NewNamespace ''ark0'' (demo_conf False), claimed = True\<rparr>)]\<rparr>"

lemma demo_pool_reaches: "reaches pool_init pool_step demo_pool_held"
proof (rule reaches_step)
  show "reaches pool_init pool_step demo_pool"
    by (rule reaches_init)
      (auto simp: pool_init_def pool_named_def demo_pool_def GetID_def NewNamespace_def split: if_splits)
  have "ClaimNamespace [''ark0''] demo_pool = (Ok ''ark0'', setClaimed ''ark0'' True demo_pool)"
    by (simp add: ClaimNamespace_def isFree_def demo_pool_def GetID_def NewNamespace_def)
  from pool_claim[OF _ this] show "pool_step demo_pool demo_pool_held"
    by (simp add: demo_pool_def demo_pool_held_def setClaimed_def)
qed

theorem claims_exclusive_witness:
  "fst (ClaimNamespace [''ark0''] demo_pool_held) = Err (NatErr ErrAllNamespacesClaimed) \<and>
   set (holders demo_pool_held) = {''ark0''}"
proof -
  have "ClaimNamespace [''ark0''] demo_pool_held = (Err (NatErr ErrAllNamespacesClaimed), demo_pool_held)"
    by (simp add: ClaimNamespace_def isFree_def demo_pool_held_def)
  with claims_exclusive[OF demo_pool_reaches _ this] show ?thesis
    by (simp add: demo_pool_held_def)
qed

lemma calm_nat_fields [simp]:
  "fails calm_nat t c = None" "maskSize calm_nat t = 24" "newPrefixCidr calm_nat t = ''10.0.8.0/22''"
  "availablePrefixes calm_nat t = 256" "availableAddrs calm_nat t = 256" "ctxErr calm_nat t = None"
  by (simp_all add: calm_nat_def)

lemma calm_open: "wp (Namespace_Open calm_nat) (\<lambda>r _. r = Ok ()) s"
  by (simp add: Namespace_Open_def restoreNS_def openAll_def openDevices_def openHostEnd_def
      openInside_def openForward_def parseInto_def Let_def go_wp)

lemma calm_create:
  "wp (CreateNAT calm_nat demo_nat no_hooks 1) (\<lambda>r _. \<exists>nt. r = Ok nt) empty_nat"
proof -
  have one: "wp (openOne calm_nat c no_hooks i q ip) (\<lambda>r _. r = Ok ()) s"
    for c i q ip and s :: nat_sys
    using calm_open[of "\<lparr>trace = trace s, self = NewNamespace i (nsConfigOf c q ip)\<rparr>"]
    by (auto simp: openOne_def checkCtx_def returnErrs_def no_hooks_def addNamespace_def go_wp
        wp_withNamespace wp_def[of "Namespace_Open calm_nat"] split: prod.splits)
  show ?thesis
    by (auto simp: CreateNAT_def CreateNAT_setup_def CreateHostNAT_def IPTable_Open_def NewIPTable_def
        AvailableIPs_def AvailablePairs_def withPrefix_def limitNamespaces_def empty_nat_def
        createOne_def orPanic_def allocHostVeth_def allocNamespaceVeth_def checkCtx_def returnErrs_def
        GetPair_def GetIP_def PairMask_def GatewayReserved_def go_wp intro!: wp_mono[OF one])
qed


definition full_nat :: nat_env where
  "full_nat = calm_nat\<lparr>fails := (\<lambda>_ c. case c of Ipam_AcquireChildPrefix _ _ _ \<Rightarrow> Some (Ext 1) | _ \<Rightarrow> None)\<rparr>"

theorem failed_allocation_crashes_witness:
  "fst (allocHostVeth full_nat ((NewIPTable 0 ''10.0.8.0/30'')\<lparr>table_prefix := Some ''10.0.8.0/30''\<rparr>) empty_nat)
     = Panic NilDeref"
proof -
  let ?t = "(NewIPTable 0 ''10.0.8.0/30'')\<lparr>table_prefix := Some ''10.0.8.0/30''\<rparr>"
  have "ctxErr full_nat (trace empty_nat) = None" by (simp add: full_nat_def)
  moreover have "\<exists>s1. GetPair full_nat ?t empty_nat =
      (Err (Joined [IpmanagerErr ErrCouldNotAcquireChildPrefix, Ext 1]), s1)"
    by (simp add: GetPair_def withPrefix_def full_nat_def go_defs)
  ultimately show ?thesis
    using failed_allocation_crashes[of full_nat empty_nat ?t] by (auto simp: wp_def)
qed

theorem closing_the_pool_witness: "\<exists>x s'. Namespaces_Close calm_nat demo_nat no_hooks (NewIPTable 1 ''10.0.15.0/24'') 
     (empty_nat\<lparr>hostVeths := [NewIPPair ''10.0.8.1'' ''10.0.8.2'' ''10.0.8.0/30'' (NewIPTable 0 ''10.0.8.0/22'')]\<rparr>) = (Err x, s') \<and> pool_empty s'"
proof -
  let ?s = "empty_nat\<lparr>hostVeths := [NewIPPair ''10.0.8.1'' ''10.0.8.2'' ''10.0.8.0/30'' (NewIPTable 0 ''10.0.8.0/22'')]\<rparr>"
  obtain r s' where run: "Namespaces_Close calm_nat demo_nat no_hooks (NewIPTable 1 ''10.0.15.0/24'') ?s = (r, s')"
    by fastforce
  moreover have "r \<noteq> Panic p" for p
    using run by (auto simp: Namespaces_Close_def ReleasePair_def ReleaseIP_def RemoveHostNAT_def returnErrs_def
        empty_nat_def calm_nat_def go_defs errors_Join_def)
  ultimately show ?thesis
    using closing_the_pool[OF run] by auto
qed
end
