(* ===== verification/Forwarder.thy ===== *)
theory Forwarder
  imports IpManager "HOL-Library.Multiset"
begin

text \<open>
  Port forwarding into a namespace (\<^verbatim>\<open>pkg/network/forwarder/forward_ports.go\<close>). For each port a
  callback looks up the machine's address inside its namespace and appends packet-filter rules; for
  each rule it registers the function that deletes it. \<open>Close\<close> runs what was registered, last one
  first. The callbacks run in \<open>concurrentMap\<close>, one goroutine each: \<open>ForwardPorts\<close> is given for the
  schedule that runs them one after the other, and \<open>cm_step\<close> is the step relation of
  \<open>concurrentMap\<close> itself, in which the goroutines and the waiting caller interleave.
\<close>

section \<open>One port\<close>

record port_forward =
  pf_Netns :: string
  pf_InternalPort :: string
  pf_Protocol :: string
  pf_ExternalAddr :: string

record port_forward_hooks =
  has_OnAfterPortForward :: bool
  has_OnBeforePortUnforward :: bool

text \<open>What \<open>iface.Addrs()\<close> returns: an address is one of two types the code knows, or another.\<close>

record ip_addr =
  ip_text :: string
  ip_loopback :: bool

datatype iface_addr = IPNetAddr ip_addr | IPAddrAddr ip_addr | OtherAddr

record fwd_env = net_env +
  splitHostPort :: "net_trace \<Rightarrow> string \<times> string"
  resolvedLoopback :: "net_trace \<Rightarrow> bool"
  interfaceNames :: "net_trace \<Rightarrow> string list"
  interfaceAddrs :: "net_trace \<Rightarrow> iface_addr list"
  cidrContains :: "string \<Rightarrow> bool"                    \<comment> \<open>hostVethCIDR.Contains\<close>
  managerCtxErr :: "net_trace \<Rightarrow> goerr option"

text \<open>A registered function, by what it does.\<close>

datatype fwd_defer = DeleteRule string string "string list" | BeforeUnforward nat

record fwd_sys = "net_call world" +
  localDefers :: "fwd_defer list"
  closeInProgress_closed :: bool

definition addDefer :: "fwd_defer \<Rightarrow> (('z) fwd_sys_scheme, unit) go" where
  "addDefer d = update (\<lambda>s. s\<lparr>localDefers := localDefers s @ [d]\<rparr>)"

text \<open>\<open>net.JoinHostPort\<close> puts an address with a colon in brackets.\<close>

definition JoinHostPort :: "string \<Rightarrow> string \<Rightarrow> string" where
  "JoinHostPort host port =
     (if CHR '':'' \<in> set host then ''['' @ host @ '']:'' @ port else host @ '':'' @ port)"

fun scanAddrs :: "(string \<Rightarrow> bool) \<Rightarrow> iface_addr list \<Rightarrow> string option" where
  "scanAddrs contains [] = None"
| "scanAddrs contains (OtherAddr # as) = scanAddrs contains as"
| "scanAddrs contains (IPNetAddr ip # as) =
     (if \<not> ip_loopback ip \<and> contains (ip_text ip) then Some (ip_text ip) else scanAddrs contains as)"
| "scanAddrs contains (IPAddrAddr ip # as) =
     (if \<not> ip_loopback ip \<and> contains (ip_text ip) then Some (ip_text ip) else scanAddrs contains as)"

fun scanInterfaces :: "('y) fwd_env_scheme \<Rightarrow> string list \<Rightarrow> (('z) fwd_sys_scheme, string) go" where
  "scanInterfaces e [] = throw (ForwarderErr ErrCouldNotFindInternalHostVeth)"
| "scanInterfaces e (i # is) =
     wrapErr (ForwarderErr ErrCouldNotGetInterfaceAddresses) (ask e (interfaceAddrs e) (InterfaceAddrs i))
     (\<lambda>as. case scanAddrs (cidrContains e) as of Some ip \<Rightarrow> ret ip | None \<Rightarrow> scanInterfaces e is)"

definition findHostVeth ::
    "('y) fwd_env_scheme \<Rightarrow> string \<Rightarrow> (('z) fwd_sys_scheme, string) go" where
  "findHostVeth e ns =
     andThen (actIgnore e LockOSThread) (\<lambda>_. deferring (actIgnore e UnlockOSThread) (
     wrapErr (ForwarderErr ErrCouldNotGetOriginalNSHandle) (act e Netns_Get) (\<lambda>_.
     deferring (andThen (actIgnore e (Netns_Set OriginalNS)) (\<lambda>_. actIgnore e (Netns_Close OriginalNS))) (
     wrapErr (ForwarderErr ErrCouldNotGetNSHandle) (act e (Netns_GetFromName ns)) (\<lambda>_.
     deferring (actIgnore e (Netns_Close (FromNameNS ns))) (
     wrapErr (ForwarderErr ErrCouldNotSetNSHandle) (act e (Netns_Set (FromNameNS ns))) (\<lambda>_.
     wrapErr (ForwarderErr ErrCouldNotListInterfaces) (ask e (interfaceNames e) Interfaces)
     (scanInterfaces e))))))))"

definition checkManager :: "('y) fwd_env_scheme \<Rightarrow> (('z) fwd_sys_scheme, unit) go" where
  "checkManager e = reading (\<lambda>s. managerCtxErr e (trace s)) (\<lambda>r. case r of None \<Rightarrow> ret () | Some x \<Rightarrow> throw x)"

definition addRule ::
    "('y) fwd_env_scheme \<Rightarrow> forwarder_err \<Rightarrow> string \<Rightarrow> string \<Rightarrow> string list \<Rightarrow>
     (('z) fwd_sys_scheme, unit) go" where
  "addRule e E table chain spec =
     wrapErr (ForwarderErr E) (act e (Iptables_Append table chain spec)) (\<lambda>_.
     addDefer (DeleteRule table chain spec))"

definition enableRouteLocalnet :: "('y) fwd_env_scheme \<Rightarrow> (('z) fwd_sys_scheme, unit) go" where
  "enableRouteLocalnet e =
     wrapErr (ForwarderErr ErrCouldNotWriteFileRouteLocalnetAll)
       (act e (WriteFile ''/proc/sys/net/ipv4/conf/all/route_localnet'' ''1'')) (\<lambda>_.
     wrapErr (ForwarderErr ErrCouldNotWriteFileRouteLocalnetLo)
       (act e (WriteFile ''/proc/sys/net/ipv4/conf/lo/route_localnet'' ''1'')) ret)"

definition forwardRules ::
    "('y) fwd_env_scheme \<Rightarrow> port_forward \<Rightarrow> bool \<Rightarrow> string \<Rightarrow> string \<Rightarrow> string \<Rightarrow>
     (('z) fwd_sys_scheme, unit) go" where
  "forwardRules e p loopback host port ip =
     andThen (whenM (\<not> loopback)
       (andThen (addRule e ErrCouldNotAppendIPTablesFilterForwardD ''filter'' ''FORWARD''
                   [''-d'', ip, ''-j'', ''ACCEPT'']) (\<lambda>_.
        addRule e ErrCouldNotAppendIPTablesFilterForwardS ''filter'' ''FORWARD''
                   [''-s'', ip, ''-j'', ''ACCEPT'']))) (\<lambda>_.
     andThen (checkManager e) (\<lambda>_.
     andThen (addRule e ErrCouldNotAppendIPTablesNatOutput ''nat'' ''OUTPUT''
       [''-p'', pf_Protocol p, ''-d'', host, ''--dport'', port, ''-j'', ''DNAT'', ''--to-destination'',
        JoinHostPort ip (pf_InternalPort p)]) (\<lambda>_.
     andThen (addRule e ErrCouldNotAppendIPTablesNatPrerouting ''nat'' ''PREROUTING''
       [''-p'', pf_Protocol p, ''--dport'', port, ''-d'', host, ''-j'', ''DNAT'', ''--to-destination'',
        JoinHostPort ip (pf_InternalPort p)]) (\<lambda>_.
     addRule e ErrCouldNotAppendIPTablesNatPostrouting ''nat'' ''POSTROUTING''
       [''-p'', pf_Protocol p, ''-d'', ip, ''--dport'', pf_InternalPort p, ''-j'', ''MASQUERADE'']))))"

definition forwardOne ::
    "('y) fwd_env_scheme \<Rightarrow> port_forward_hooks \<Rightarrow> nat \<Rightarrow> port_forward \<Rightarrow> (('z) fwd_sys_scheme, unit) go" where
  "forwardOne e hooks index p =
     andThen (checkManager e) (\<lambda>_.
     wrapErr (ForwarderErr ErrCouldNotSplitHostPort)
       (ask e (splitHostPort e) (SplitHostPort (pf_ExternalAddr p))) (\<lambda>(host, port).
     wrapErr (ForwarderErr ErrCouldNotResolveIPAddr)
       (ask e (resolvedLoopback e) (ResolveIPAddr host)) (\<lambda>loopback.
     andThen (whenM loopback (enableRouteLocalnet e)) (\<lambda>_.
     andThen (findHostVeth e (pf_Netns p)) (\<lambda>ip.
     andThen (checkManager e) (\<lambda>_.
     andThen (forwardRules e p loopback host port ip) (\<lambda>_.
     andThen (whenM (has_OnAfterPortForward hooks)
       (actIgnore e (OnAfterPortForward index
          [pf_Netns p, ip, pf_InternalPort p, host, port, pf_Protocol p]))) (\<lambda>_.
     addDefer (BeforeUnforward index)))))))))"

section \<open>All ports, one after the other\<close>

definition runDefer ::
    "('y) fwd_env_scheme \<Rightarrow> port_forward_hooks \<Rightarrow> fwd_defer \<Rightarrow> (('z) fwd_sys_scheme, unit) go" where
  "runDefer e hooks d = (case d of
      DeleteRule t c spec \<Rightarrow> act e (Iptables_Delete t c spec)
    | BeforeUnforward i \<Rightarrow> whenM (has_OnBeforePortUnforward hooks) (actIgnore e (OnBeforePortUnforward i)))"

fun runDefers ::
    "('y) fwd_env_scheme \<Rightarrow> port_forward_hooks \<Rightarrow> fwd_defer list \<Rightarrow> goerr option \<Rightarrow>
     (('z) fwd_sys_scheme, goerr option) go" where
  "runDefers e hooks [] errs = ret errs"
| "runDefers e hooks (d # ds) errs = attempt (runDefer e hooks d) (\<lambda>r. runDefers e hooks ds
     (case r of Inl x \<Rightarrow> errors_Join [errs, Some x] | Inr _ \<Rightarrow> errs))"

text \<open>
  \<open>Close\<close> defers the registered functions in order, so they run from the last to the first.
  Closing \<open>closeInProgress\<close> is wrapped in \<open>sync.OnceFunc\<close>.
\<close>

definition ForwardedPorts_Close ::
    "('y) fwd_env_scheme \<Rightarrow> port_forward_hooks \<Rightarrow> fwd_defer list list \<Rightarrow>
     (('z) fwd_sys_scheme, unit) go" where
  "ForwardedPorts_Close e hooks deferFuncs =
     deferring (update (\<lambda>s. s\<lparr>closeInProgress_closed := True\<rparr>)) (
     andThen (runDefers e hooks (rev (concat deferFuncs)) None) (\<lambda>errs.
     case errs of None \<Rightarrow> ret () | Some x \<Rightarrow> throw x))"

fun forwardAll ::
    "('y) fwd_env_scheme \<Rightarrow> port_forward_hooks \<Rightarrow> nat \<Rightarrow> port_forward list \<Rightarrow> fwd_defer list list \<Rightarrow>
     goerr option \<Rightarrow> (('z) fwd_sys_scheme, fwd_defer list list \<times> goerr option) go" where
  "forwardAll e hooks i [] defers errs = ret (defers, errs)"
| "forwardAll e hooks i (p # ps) defers errs =
     andThen (update (\<lambda>s. s\<lparr>localDefers := []\<rparr>)) (\<lambda>_.
     attempt (forwardOne e hooks i p) (\<lambda>r.
     reading localDefers (\<lambda>ds.
     forwardAll e hooks (Suc i) ps (defers @ [ds])
       (errors_Join [errs, case r of Inl x \<Rightarrow> Some x | Inr _ \<Rightarrow> None]))))"

definition ForwardPorts ::
    "('y) fwd_env_scheme \<Rightarrow> port_forward_hooks \<Rightarrow> port_forward list \<Rightarrow>
     (('z) fwd_sys_scheme, fwd_defer list list) go" where
  "ForwardPorts e hooks ports =
     attempt (act e Iptables_New) (\<lambda>r. case r of
       Inl x \<Rightarrow> panic (Joined [ForwarderErr ErrCouldNotCreatingIPTables, x])
     | Inr _ \<Rightarrow>
     andThen (forwardAll e hooks 0 ports [] None) (\<lambda>(deferFuncs, err). case err of
       None \<Rightarrow> ret deferFuncs
     | Some x \<Rightarrow> attempt (ForwardedPorts_Close e hooks deferFuncs) (\<lambda>r.
         panic (Joined (x # (case r of Inl y \<Rightarrow> [y] | Inr _ \<Rightarrow> []))))))"

section \<open>What was added is taken back\<close>

definition rulesOf :: "fwd_defer list \<Rightarrow> (place \<times> fw_rule) list" where
  "rulesOf ds = [(HostPlace, t, c, spec). DeleteRule t c spec \<leftarrow> ds]"

lemma rulesOf_simps [simp]:
  "rulesOf [] = []" "rulesOf (ds @ ds') = rulesOf ds @ rulesOf ds'"
  "rulesOf (DeleteRule t c spec # ds) = (HostPlace, t, c, spec) # rulesOf ds"
  "rulesOf (BeforeUnforward i # ds) = rulesOf ds"
  by (simp_all add: rulesOf_def)

text \<open>
  The invariant of a callback: the rules in place are those there before and, in order, those whose
  deletion is registered.
\<close>

definition registered :: "fw_state \<Rightarrow> (place \<times> fw_rule) list \<Rightarrow> ('z) fwd_sys_scheme \<Rightarrow> bool" where
  "registered s0 rs s \<longleftrightarrow> fw_run (trace s) s0 = (HostPlace, rs @ rulesOf (localDefers s))"

text \<open>Inside the lookup the thread is elsewhere, but the rules are those.\<close>

definition same_rules :: "fw_state \<Rightarrow> (place \<times> fw_rule) list \<Rightarrow> fwd_defer list \<Rightarrow> ('z) fwd_sys_scheme \<Rightarrow> bool" where
  "same_rules s0 rs ds s \<longleftrightarrow> snd (fw_run (trace s) s0) = rs \<and> localDefers s = ds"

lemma snd_fw_effect_quiet [simp]:
  "snd (fw_effect (Netns_Close h) s) = snd s" "snd (fw_effect UnlockOSThread s) = snd s"
  "snd (fw_effect LockOSThread s) = snd s" "snd (fw_effect (Netns_GetFromName n) s) = snd s"
  "snd (fw_effect Netns_Get s) = snd s"
  "snd (fw_effect Interfaces s) = snd s" "snd (fw_effect (InterfaceAddrs i) s) = snd s"
  by (cases s; simp)+

lemma keeps_scanInterfaces [keeps]: "keeps_inv (same_rules s0 rs ds) (scanInterfaces e is)"
proof (induction "is")
  case Nil
  show ?case unfolding scanInterfaces.simps by (rule keeps)
next
  case (Cons i "is")
  show ?case
    unfolding scanInterfaces.simps
    by (intro keeps Cons) (simp add: same_rules_def)
qed


lemma keeps_lookup:
  fixes e :: "('y) fwd_env_scheme"
  shows "keeps_inv (same_rules s0 rs ds :: ('z) fwd_sys_scheme \<Rightarrow> bool)
    (wrapErr (ForwarderErr ErrCouldNotGetNSHandle) (act e (Netns_GetFromName ns)) (\<lambda>_.
     deferring (actIgnore e (Netns_Close (FromNameNS ns))) (
     wrapErr (ForwarderErr ErrCouldNotSetNSHandle) (act e (Netns_Set (FromNameNS ns))) (\<lambda>_.
     wrapErr (ForwarderErr ErrCouldNotListInterfaces) (ask e (interfaceNames e) Interfaces)
     (scanInterfaces e)))))"
  by (intro keeps) (simp_all add: same_rules_def)

lemma fw_effect_quiet [simp]: 
  "fw_effect (Netns_Close h) s = s"
  by (cases s) simp

lemma fw_effect_Set: "fw_effect (Netns_Set h) s = (handle_place h, snd s)"
  by (cases s) simp

text \<open>The deferred function brings the thread back.\<close>

lemma keeps_findHostVeth:
  fixes e :: "('y) fwd_env_scheme"
  assumes ok: "\<And>tr. fails e tr (Netns_Set OriginalNS) = None"
  shows "keeps_inv (registered s0 rs :: ('z) fwd_sys_scheme \<Rightarrow> bool) (findHostVeth e ns)"
proof -
  have restore: "wp (andThen (actIgnore e (Netns_Set OriginalNS)) (\<lambda>_. actIgnore e (Netns_Close OriginalNS)))
      (\<lambda>r t. registered s0 rs t \<and> (\<forall>x. r \<noteq> Panic x)) t"
    if "same_rules s0 (rs @ rulesOf ds) ds t" for ds and t :: "('z) fwd_sys_scheme"
    using that by (simp add: go_wp ok registered_def same_rules_def fw_effect_Set)
  have inner: "keeps_inv (registered s0 rs :: ('z) fwd_sys_scheme \<Rightarrow> bool)
     (deferring (andThen (actIgnore e (Netns_Set OriginalNS)) (\<lambda>_. actIgnore e (Netns_Close OriginalNS))) (
     wrapErr (ForwarderErr ErrCouldNotGetNSHandle) (act e (Netns_GetFromName ns)) (\<lambda>_.
     deferring (actIgnore e (Netns_Close (FromNameNS ns))) (
     wrapErr (ForwarderErr ErrCouldNotSetNSHandle) (act e (Netns_Set (FromNameNS ns))) (\<lambda>_.
     wrapErr (ForwarderErr ErrCouldNotListInterfaces) (ask e (interfaceNames e) Interfaces)
     (scanInterfaces e))))))"
    by (rule keepsI, rule wp_restoring[OF keeps_lookup _ restore])
      (auto simp: registered_def same_rules_def)
  show ?thesis
    unfolding findHostVeth_def by (intro keeps inner) (simp_all add: registered_def)
qed

lemma addRule_keeps [keeps]:
  "keeps_inv (registered s0 rs :: ('z) fwd_sys_scheme \<Rightarrow> bool) (addRule e E table chain spec)"
  by (rule keepsI) (simp add: addRule_def addDefer_def go_wp registered_def split: option.splits)

lemma fwd_quiet_keeps [keeps]:
  "keeps_inv (registered s0 rs :: ('z) fwd_sys_scheme \<Rightarrow> bool) (checkManager e)"
  "keeps_inv (registered s0 rs :: ('z) fwd_sys_scheme \<Rightarrow> bool) (enableRouteLocalnet e)"
  "keeps_inv (registered s0 rs :: ('z) fwd_sys_scheme \<Rightarrow> bool) (addDefer (BeforeUnforward i))"
  by (auto simp: checkManager_def enableRouteLocalnet_def addDefer_def registered_def intro!: keeps)

lemma keeps_forwardOne:
  fixes e :: "('y) fwd_env_scheme"
  assumes ok: "\<And>tr. fails e tr (Netns_Set OriginalNS) = None"
  shows "keeps_inv (registered s0 rs :: ('z) fwd_sys_scheme \<Rightarrow> bool) (forwardOne e hooks i p)"
  unfolding forwardOne_def forwardRules_def
  by (intro keeps keeps_findHostVeth[OF ok]) (simp_all add: registered_def)

text \<open>All ports: what the lists of registered functions say is what is in place.\<close>

definition collected :: "fw_state \<Rightarrow> (place \<times> fw_rule) list \<Rightarrow> fwd_defer list list \<Rightarrow> ('z) fwd_sys_scheme \<Rightarrow> bool" where
  "collected s0 rs defers s \<longleftrightarrow> fw_run (trace s) s0 = (HostPlace, rs @ rulesOf (concat defers))"

lemma forwardAll_collected:
  fixes e :: "('y) fwd_env_scheme" and s :: "('z) fwd_sys_scheme"
  assumes ok: "\<And>tr. fails e tr (Netns_Set OriginalNS) = None"
    and "collected s0 rs defers s"
  shows "wp (forwardAll e hooks i ps defers errs)
    (\<lambda>r s'. \<exists>ds x. r = Ok (ds, x) \<and> collected s0 rs ds s') s"
  using assms(2)
proof (induction ps arbitrary: i defers errs s)
  case Nil
  then show ?case by (simp add: go_wp)
next
  case (Cons p ps)
  have start: "registered s0 (rs @ rulesOf (concat defers)) (s\<lparr>localDefers := []\<rparr>)"
    using Cons.prems by (simp add: collected_def registered_def)
  have next': "wp (forwardAll e hooks j ps (defers @ [localDefers t]) x)
      (\<lambda>r s'. \<exists>ds x. r = Ok (ds, x) \<and> collected s0 rs ds s') t"
    if "registered s0 (rs @ rulesOf (concat defers)) t" for j x and t :: "('z) fwd_sys_scheme"
    using Cons.IH[of "defers @ [localDefers t]" t] that by (simp add: collected_def registered_def)
  show ?case
    unfolding forwardAll.simps wp_andThen wp_update thenQ.simps wp_attempt
  proof (rule keeps_wp[OF keeps_forwardOne[OF ok] start])
    fix r and t :: "('z) fwd_sys_scheme"
    assume t: "registered s0 (rs @ rulesOf (concat defers)) t" and r: "\<And>x. r \<noteq> Panic x"
    show "attemptQ (\<lambda>r. reading localDefers (\<lambda>ds. forwardAll e hooks (Suc i) ps (defers @ [ds])
        (errors_Join [errs, case r of Inl x \<Rightarrow> Some x | Inr _ \<Rightarrow> None])))
        (\<lambda>r s'. \<exists>ds x. r = Ok (ds, x) \<and> collected s0 rs ds s') r t"
      by (cases r) (use r next'[OF t] in \<open>auto simp: wp_reading\<close>)
  qed
qed

text \<open>The functions run back: every deletion that succeeds takes one rule.\<close>

lemma mset_fw_effect_Delete:
  "mset (snd (fw_effect (Iptables_Delete t c spec) (HostPlace, R))) = mset R - {#(HostPlace, t, c, spec)#}"
  by simp

lemma runDefers_restores:
  fixes e :: "('y) fwd_env_scheme" and s :: "('z) fwd_sys_scheme"
  assumes ok: "\<And>tr t c spec. fails e tr (Iptables_Delete t c spec) = None"
    and "fw_run (trace s) s0 = (HostPlace, R)" and "mset R = mset rs + mset (rulesOf ds)"
  shows "wp (runDefers e hooks ds errs) (\<lambda>r s'. r = Ok errs \<and>
    (\<exists>R'. fw_run (trace s') s0 = (HostPlace, R') \<and> mset R' = mset rs)) s"
  using assms(2,3)
proof (induction ds arbitrary: s R)
  case Nil
  then show ?case by (simp add: go_wp)
next
  case (Cons d ds)
  show ?case
  proof (cases d)
    case (DeleteRule t c spec)
    then show ?thesis
      using Cons.prems
      by (auto simp: runDefer_def go_wp ok intro!: Cons.IH)
  next
    case (BeforeUnforward i)
    then show ?thesis
      using Cons.prems by (auto simp: runDefer_def go_wp intro!: Cons.IH)
  qed
qed

lemma Close_restores:
  fixes e :: "('y) fwd_env_scheme" and s :: "('z) fwd_sys_scheme"
  assumes ok: "\<And>tr t c spec. fails e tr (Iptables_Delete t c spec) = None"
    and "collected s0 rs defers s"
  shows "wp (ForwardedPorts_Close e hooks defers) (\<lambda>r s'. r = Ok () \<and>
    (\<exists>R'. fw_run (trace s') s0 = (HostPlace, R') \<and> mset R' = mset rs)) s"
proof -
  have "mset (rulesOf (rev ds)) = mset (rulesOf ds)" for ds
    by (induction ds) (simp_all, rename_tac d ds, case_tac d, simp_all)
  then have "wp (runDefers e hooks (rev (concat defers)) None) (\<lambda>r s'. r = Ok None \<and>
    (\<exists>R'. fw_run (trace s') s0 = (HostPlace, R') \<and> mset R' = mset rs)) s"
    using assms(2) by (intro runDefers_restores[OF ok]) (auto simp: collected_def)
  then show ?thesis
    unfolding ForwardedPorts_Close_def
    by (simp add: go_wp) (erule wp_mono, auto simp: go_wp)
qed


text \<open>
  C18. Forwarding takes back what it added. When switching the thread back to its own namespace and
  deleting rules do not fail, then: after a \<open>ForwardPorts\<close> that succeeds the packet-filter rules
  are those before it followed by the rules whose deletion it registered, and its \<open>Close\<close>
  succeeds and leaves as many of each rule as before; a \<open>ForwardPorts\<close> that fails (at any port
  and any call) leaves as many of each rule as before.
\<close>

theorem forwarding_taken_back:
  fixes e :: "('y) fwd_env_scheme" and s :: "('z) fwd_sys_scheme"
  assumes set_ok: "\<And>tr. fails e tr (Netns_Set OriginalNS) = None"
    and del_ok: "\<And>tr t c spec. fails e tr (Iptables_Delete t c spec) = None"
    and "fw_run (trace s) s0 = (HostPlace, rs)"
  shows "wp (ForwardPorts e hooks ports) (\<lambda>r s'. case r of
      Ok defers \<Rightarrow> fw_run (trace s') s0 = (HostPlace, rs @ rulesOf (concat defers)) \<and>
        wp (ForwardedPorts_Close e hooks defers) (\<lambda>r' s''. r' = Ok () \<and>
          (\<exists>R. fw_run (trace s'') s0 = (HostPlace, R) \<and> mset R = mset rs)) s'
    | Err x \<Rightarrow> False
    | Panic x \<Rightarrow> \<exists>R. fw_run (trace s') s0 = (HostPlace, R) \<and> mset R = mset rs) s"
proof -
  have rest: "wp (andThen (forwardAll e hooks 0 ports [] None) (\<lambda>(deferFuncs, err). case err of
       None \<Rightarrow> ret deferFuncs
     | Some x \<Rightarrow> attempt (ForwardedPorts_Close e hooks deferFuncs) (\<lambda>r.
         panic (Joined (x # (case r of Inl y \<Rightarrow> [y] | Inr _ \<Rightarrow> []))))))
    (\<lambda>r s'. case r of
      Ok defers \<Rightarrow> fw_run (trace s') s0 = (HostPlace, rs @ rulesOf (concat defers)) \<and>
        wp (ForwardedPorts_Close e hooks defers) (\<lambda>r' s''. r' = Ok () \<and>
          (\<exists>R. fw_run (trace s'') s0 = (HostPlace, R) \<and> mset R = mset rs)) s'
    | Err x \<Rightarrow> False
    | Panic x \<Rightarrow> \<exists>R. fw_run (trace s') s0 = (HostPlace, R) \<and> mset R = mset rs) t"
    if t: "collected s0 rs [] t" for t :: "('z) fwd_sys_scheme"
    unfolding wp_andThen
  proof (rule wp_mono[OF forwardAll_collected[OF set_ok t]], clarsimp simp: go_wp)
    fix ds err and t' :: "('z) fwd_sys_scheme"
    assume c: "collected s0 rs ds t'"
    note closes = Close_restores[OF del_ok c]
    show "wp (case err of None \<Rightarrow> ret ds
      | Some x \<Rightarrow> attempt (ForwardedPorts_Close e hooks ds) (\<lambda>r.
         panic (Joined (x # (case r of Inl y \<Rightarrow> [y] | Inr _ \<Rightarrow> [])))))
     (\<lambda>r s'. case r of
      Ok defers \<Rightarrow> fw_run (trace s') s0 = (HostPlace, rs @ rulesOf (concat defers)) \<and>
        wp (ForwardedPorts_Close e hooks defers) (\<lambda>r' s''. r' = Ok () \<and>
          (\<exists>R. fw_run (trace s'') s0 = (HostPlace, R) \<and> mset R = mset rs)) s'
    | Err x \<Rightarrow> False
    | Panic x \<Rightarrow> \<exists>R. fw_run (trace s') s0 = (HostPlace, R) \<and> mset R = mset rs) t'"
    proof (cases err)
      case None
      then show ?thesis using closes c by (simp add: go_wp collected_def)
    next
      case (Some x)
      then show ?thesis
        unfolding Some option.simps wp_attempt
        by (intro wp_mono[OF closes]) (auto simp: go_wp)
    qed
  qed
  show ?thesis
    unfolding ForwardPorts_def wp_attempt wp_act
    using assms(3) rest by (auto simp: go_wp collected_def split: option.splits)
qed

text \<open>A host whose calls all succeed, with one address behind the namespace's interface.\<close>

definition fwd_demo :: fwd_env where
  "fwd_demo = \<lparr>fails = (\<lambda>_ _. None), maskSize = (\<lambda>_. 24), newPrefixCidr = (\<lambda>_. []),
     availablePrefixes = (\<lambda>_. 0), availableAddrs = (\<lambda>_. 0), acquiredIP = (\<lambda>_. []),
     acquiredPrefix = (\<lambda>_. []), splitHostPort = (\<lambda>_. (''192.0.2.1'', ''80'')),
     resolvedLoopback = (\<lambda>_. False), interfaceNames = (\<lambda>_. [''lo'', ''veth'']),
     interfaceAddrs = (\<lambda>_. [OtherAddr, IPNetAddr \<lparr>ip_text = ''127.0.0.1'', ip_loopback = True\<rparr>,
        IPNetAddr \<lparr>ip_text = ''10.0.8.1'', ip_loopback = False\<rparr>]),
     cidrContains = (\<lambda>_. True), managerCtxErr = (\<lambda>_. None)\<rparr>"

abbreviation fwd_demo_port :: port_forward where
  "fwd_demo_port \<equiv> \<lparr>pf_Netns = ''ns'', pf_InternalPort = ''6379'', pf_Protocol = ''tcp'',
     pf_ExternalAddr = ''192.0.2.1:80''\<rparr>"

abbreviation fwd_demo_start :: fwd_sys where
  "fwd_demo_start \<equiv> \<lparr>trace = [], localDefers = [], closeInProgress_closed = False\<rparr>"

theorem forwarding_taken_back_witness:
  "case ForwardPorts fwd_demo \<lparr>has_OnAfterPortForward = True, has_OnBeforePortUnforward = True\<rparr>
      [fwd_demo_port] fwd_demo_start of
    (Ok ds, s') \<Rightarrow> snd (fw_run (trace s') (HostPlace, [])) = rulesOf (concat ds) \<and>
      length (rulesOf (concat ds)) = 5
   | _ \<Rightarrow> False"
proof -
  let ?h = "\<lparr>has_OnAfterPortForward = True, has_OnBeforePortUnforward = True\<rparr>"
  have ok: "\<exists>ds s'. ForwardPorts fwd_demo ?h [fwd_demo_port] fwd_demo_start = (Ok ds, s') \<and>
      length (rulesOf (concat ds)) = 5"
    by (simp add: ForwardPorts_def forwardOne_def forwardRules_def addRule_def addDefer_def
        checkManager_def findHostVeth_def fwd_demo_def errors_Join_def go_defs)
  have "fw_run (trace fwd_demo_start) (HostPlace, []) = (HostPlace, [])" by simp
  from forwarding_taken_back[OF _ _ this, of fwd_demo ?h "[fwd_demo_port]"] ok
  show ?thesis by (auto simp: wp_def fwd_demo_def)
qed

section \<open>The goroutines of concurrentMap\<close>

text \<open>
  What goroutine \<open>i\<close> does: run the callback, append its output and deferred functions, tell the
  wait group it is done, and only then join its error. \<open>cm_result i\<close> is what the callback returns
  for input \<open>i\<close>. The caller starts the goroutines one after the other and waits.
\<close>

datatype cm_phase = CmRunning | CmAppended | CmDone | CmRecorded

record ('o, 'd) cm_state =
  cm_phases :: "cm_phase list"
  cm_outputs :: "'o list"
  cm_defers :: "'d list list"
  cm_errs :: "goerr option"
  cm_returned :: "('o list \<times> 'd list list \<times> goerr option) option"

definition cm_init :: "('o, 'd) cm_state \<Rightarrow> bool" where
  "cm_init s \<longleftrightarrow> s = \<lparr>cm_phases = [], cm_outputs = [], cm_defers = [], cm_errs = None,
                     cm_returned = None\<rparr>"

inductive cm_step ::
    "nat \<Rightarrow> (nat \<Rightarrow> 'o \<times> 'd list \<times> goerr option) \<Rightarrow> ('o, 'd) cm_state \<Rightarrow> ('o, 'd) cm_state \<Rightarrow> bool"
  for n cm_result where
  cm_spawn: "length (cm_phases s) < n \<Longrightarrow>
    cm_step n cm_result s (s\<lparr>cm_phases := cm_phases s @ [CmRunning]\<rparr>)"
| cm_append: "i < length (cm_phases s) \<Longrightarrow> cm_phases s ! i = CmRunning \<Longrightarrow> cm_result i = (out, ds, x) \<Longrightarrow>
    cm_step n cm_result s (s\<lparr>cm_phases := (cm_phases s)[i := CmAppended],
      cm_outputs := cm_outputs s @ [out], cm_defers := cm_defers s @ [ds]\<rparr>)"
| cm_wg_done: "i < length (cm_phases s) \<Longrightarrow> cm_phases s ! i = CmAppended \<Longrightarrow>
    cm_step n cm_result s (s\<lparr>cm_phases := (cm_phases s)[i := CmDone]\<rparr>)"
| cm_record: "i < length (cm_phases s) \<Longrightarrow> cm_phases s ! i = CmDone \<Longrightarrow> cm_result i = (out, ds, x) \<Longrightarrow>
    cm_step n cm_result s (s\<lparr>cm_phases := (cm_phases s)[i := CmRecorded],
      cm_errs := errors_Join [cm_errs s, x]\<rparr>)"
| cm_wait: "length (cm_phases s) = n \<Longrightarrow> set (cm_phases s) \<subseteq> {CmDone, CmRecorded} \<Longrightarrow>
    cm_returned s = None \<Longrightarrow>
    cm_step n cm_result s (s\<lparr>cm_returned := Some (cm_outputs s, cm_defers s, cm_errs s)\<rparr>)"

inductive_cases cm_stepE: "cm_step n cm_result s t"

text \<open>
  The invariant: the appended lists belong to the goroutines past their callback, an error was
  joined only if a callback returned one, and what was returned was complete.
\<close>

definition cm_past :: "cm_phase list \<Rightarrow> nat set" where
  "cm_past ps = {i. i < length ps \<and> ps ! i \<noteq> CmRunning}"

definition cm_lists :: "(nat \<Rightarrow> 'o \<times> 'd list \<times> goerr option) \<Rightarrow> nat set \<Rightarrow> ('o \<times> 'd list) multiset" where
  "cm_lists cm_result I = image_mset (\<lambda>i. case cm_result i of (out, ds, x) \<Rightarrow> (out, ds)) (mset_set I)"

definition cm_inv :: "nat \<Rightarrow> (nat \<Rightarrow> 'o \<times> 'd list \<times> goerr option) \<Rightarrow> ('o, 'd) cm_state \<Rightarrow> bool" where
  "cm_inv n cm_result s \<longleftrightarrow> length (cm_phases s) \<le> n \<and>
     length (cm_outputs s) = length (cm_defers s) \<and>
     mset (zip (cm_outputs s) (cm_defers s)) = cm_lists cm_result (cm_past (cm_phases s)) \<and>
     (cm_errs s \<noteq> None \<longrightarrow> (\<exists>i<n. snd (snd (cm_result i)) \<noteq> None)) \<and>
     (\<forall>os ds x. cm_returned s = Some (os, ds, x) \<longrightarrow>
        length os = length ds \<and> mset (zip os ds) = cm_lists cm_result {..<n} \<and>
        (x \<noteq> None \<longrightarrow> (\<exists>i<n. snd (snd (cm_result i)) \<noteq> None)))"

lemma cm_past_spawn [simp]: "cm_past (ps @ [CmRunning]) = cm_past ps"
  by (auto simp: cm_past_def nth_append)

lemma cm_past_update:
  assumes "i < length ps" and "p \<noteq> CmRunning"
  shows "cm_past (ps[i := p]) = insert i (cm_past ps)"
  using assms by (auto simp: cm_past_def nth_list_update)

lemma cm_past_in: "i \<in> cm_past ps \<longleftrightarrow> i < length ps \<and> ps ! i \<noteq> CmRunning"
  by (simp add: cm_past_def)

lemma cm_past_finite [simp]: "finite (cm_past ps)"
  by (simp add: cm_past_def)

lemma cm_past_all:
  assumes "set ps \<subseteq> {CmDone, CmRecorded}"
  shows "cm_past ps = {..<length ps}"
  using assms nth_mem[of _ ps] by (fastforce simp: cm_past_def)

lemma cm_lists_insert:
  "finite I \<Longrightarrow> i \<notin> I \<Longrightarrow> cm_result i = (out, ds, x) \<Longrightarrow>
     cm_lists cm_result (insert i I) = add_mset (out, ds) (cm_lists cm_result I)"
  by (simp add: cm_lists_def)

lemma errors_Join_pair_None: "errors_Join [a, b] = None \<longleftrightarrow> a = None \<and> b = None"
  by (cases a; cases b) (simp_all add: errors_Join_def)

interpretation cm: invariant_system cm_init "cm_step n cm_result" "cm_inv n cm_result" for n cm_result
proof
  show "cm_inv n cm_result s" if "cm_init s" for s
    using that by (simp add: cm_init_def cm_inv_def cm_past_def cm_lists_def)
next
  fix s t
  assume inv: "cm_inv n cm_result s" and "cm_step n cm_result s t"
  show "cm_inv n cm_result t"
    using \<open>cm_step n cm_result s t\<close>
  proof (cases rule: cm_step.cases)
    case cm_spawn
    then show ?thesis using inv by (simp add: cm_inv_def)
  next
    case (cm_append i out ds x)
    then show ?thesis
      using inv by (simp add: cm_inv_def cm_past_update cm_past_in cm_lists_insert)
  next
    case (cm_wg_done i)
    then show ?thesis
      using inv by (simp add: cm_inv_def cm_past_update cm_past_in insert_absorb)
  next
    case (cm_record i out ds x)
    then have "i < n" using inv by (simp add: cm_inv_def)
    then have "x \<noteq> None \<Longrightarrow> \<exists>i<n. snd (snd (cm_result i)) \<noteq> None"
      using cm_record by (intro exI[of _ i]) simp
    then show ?thesis
      using inv cm_record
      by (auto simp: cm_inv_def cm_past_update cm_past_in insert_absorb errors_Join_pair_None)
  next
    case cm_wait
    then show ?thesis using inv by (simp add: cm_inv_def cm_past_all)
  qed
qed

text \<open>A run with one input in which the caller wakes up before the error is joined.\<close>

lemma lossy_run:
  "reaches cm_init (cm_step 1 (\<lambda>_::nat. (out, ds, Some x)))
     \<lparr>cm_phases = [CmDone], cm_outputs = [out], cm_defers = [ds], cm_errs = None,
      cm_returned = Some ([out], [ds], None)\<rparr>"
proof -
  let ?r = "\<lambda>_::nat. (out, ds, Some x)"
  let ?s = "\<lambda>ps os dss ret. \<lparr>cm_phases = ps, cm_outputs = os, cm_defers = dss, cm_errs = None, cm_returned = ret\<rparr>"
  have "reaches cm_init (cm_step 1 ?r) (?s [] [] [] None)"
    by (rule reaches_init) (simp add: cm_init_def)
  then have "reaches cm_init (cm_step 1 ?r) (?s [CmRunning] [] [] None)"
    by (rule reaches_step) (use cm_spawn[of "?s [] [] [] None" 1 ?r] in simp)
  then have "reaches cm_init (cm_step 1 ?r) (?s [CmAppended] [out] [ds] None)"
    by (rule reaches_step)
      (use cm_append[of 0 "?s [CmRunning] [] [] None" ?r out ds "Some x" 1] in simp)
  then have "reaches cm_init (cm_step 1 ?r) (?s [CmDone] [out] [ds] None)"
    by (rule reaches_step)
      (use cm_wg_done[of 0 "?s [CmAppended] [out] [ds] None" 1 ?r] in simp)
  then show ?thesis
    by (rule reaches_step)
      (use cm_wait[of "?s [CmDone] [out] [ds] None" 1 ?r] in simp)
qed

text \<open>
  C33. When \<open>concurrentMap\<close> returns, in whatever order its goroutines ran, the lists it returns hold
  the output and the deferred functions of every callback exactly once, so that no registered
  deletion is lost; and it reports an error only if a callback returned one.
\<close>

theorem concurrentMap_returns_everything:
  assumes "reaches cm_init (cm_step n cm_result) s" and "cm_returned s = Some (os, ds, x)"
  shows "length os = length ds \<and> mset (zip os ds) = cm_lists cm_result {..<n} \<and>
    (x \<noteq> None \<longrightarrow> (\<exists>i<n. snd (snd (cm_result i)) \<noteq> None))"
  using cm.reachable_inv[OF assms(1)] assms(2) by (simp add: cm_inv_def)

theorem concurrentMap_returns_everything_witness:
  "mset (zip [()] [[DeleteRule ''nat'' ''OUTPUT'' []]]) =
     cm_lists (\<lambda>_. ((), [DeleteRule ''nat'' ''OUTPUT'' []], Some NilDeref)) {..<1}"
  using concurrentMap_returns_everything
    [OF lossy_run[of "()" "[DeleteRule ''nat'' ''OUTPUT'' []]" NilDeref]] by simp

text \<open>
  C34. An error can be lost: there is a run with one input whose callback returns an error in which
  \<open>concurrentMap\<close> returns no error, because the goroutine joins its error only after it told the
  wait group it is done.
\<close>

theorem concurrentMap_may_lose_an_error:
  shows "\<exists>s. reaches cm_init (cm_step 1 (\<lambda>_. (out, ds, Some x))) s \<and>
     cm_returned s = Some ([out], [ds], None)"
  by (rule exI, rule conjI[OF lossy_run]) simp

end
