(* ===== verification/Commands.thy ===== *)
theory Commands
  imports NatPool Forwarder Snapshot PeerMain
begin

text \<open>
  The programs around the pool of namespaces, port forwarding and the snapshotter (\<^verbatim>\<open>cmd/drafter-nat/main.go\<close>,
  \<^verbatim>\<open>cmd/drafter-forwarder/main.go\<close>, \<^verbatim>\<open>cmd/drafter-snapshotter/main.go\<close>). Each reads its flags, calls its library,
  waits for an interrupt where it serves, and closes what it opened; an error of the library is a panic, an error of
  closing is only logged. What is decoded or looked up is a parameter; the hooks only log.
\<close>

section \<open>drafter-nat\<close>

definition natDefaults :: nat_config where
  "natDefaults = \<lparr>nc_HostInterface = [], nc_HostVethCIDR = ''10.0.8.0/22'', nc_NamespaceVethCIDR = ''10.0.15.0/24'',
     nc_BlockedSubnetCIDR = ''10.0.15.0/24'', nc_NamespaceInterface = ''tap0'',
     nc_NamespaceInterfaceGateway = ''172.16.0.1'', nc_NamespaceInterfaceNetmask = 30,
     nc_NamespaceInterfaceIP = ''172.16.0.2'', nc_NamespaceInterfaceMAC = ''02:0e:d9:fd:68:3d'',
     nc_NamespacePrefix = ''ark'', nc_AllowIncomingTraffic = True\<rparr>"

definition loggingHooks :: nat_hooks where
  "loggingHooks = \<lparr>has_OnBeforeCreateNamespace = True, has_OnBeforeRemoveNamespace = True\<rparr>"

text \<open>Without an interface the one of the default route is used.\<close>

definition hostInterface :: "nat_config \<Rightarrow> goerr + string \<Rightarrow> ('s, nat_config) go" where
  "hostInterface conf defaultRoute = (if nc_HostInterface conf = [] then (case defaultRoute of
       Inl x \<Rightarrow> panic x | Inr i \<Rightarrow> ret (conf\<lparr>nc_HostInterface := i\<rparr>)) else ret conf)"

definition nat_main ::
    "('y) nat_env_scheme \<Rightarrow> nat_config \<Rightarrow> goerr + string \<Rightarrow> (('z) nat_sys_scheme, unit) go" where
  "nat_main e flags defaultRoute = andThen (hostInterface flags defaultRoute) (\<lambda>conf.
     orCrash (CreateNAT e conf loggingHooks 256) (\<lambda>nt.
     attempt (Namespaces_Close e conf loggingHooks nt) (\<lambda>_. ret ())))"

section \<open>drafter-forwarder\<close>

definition defaultPortForwards :: "port_forward list" where
  "defaultPortForwards = [\<lparr>pf_Netns = ''ark0'', pf_InternalPort = ''6379'', pf_Protocol = ''tcp'',
     pf_ExternalAddr = ''127.0.0.1:3333''\<rparr>]"

definition loggingForwardHooks :: port_forward_hooks where
  "loggingForwardHooks = \<lparr>has_OnAfterPortForward = True, has_OnBeforePortUnforward = True\<rparr>"

definition forwarder_main ::
    "('y) fwd_env_scheme \<Rightarrow> goerr + port_forward list \<Rightarrow> goerr + unit \<Rightarrow> (('z) fwd_sys_scheme, unit) go" where
  "forwarder_main e portForwards cidr = (case portForwards of Inl x \<Rightarrow> panic x | Inr ports \<Rightarrow>
     (case cidr of Inl x \<Rightarrow> panic x | Inr _ \<Rightarrow>
     orCrash (ForwardPorts e loggingForwardHooks ports) (\<lambda>deferFuncs.
     attempt (ForwardedPorts_Close e loggingForwardHooks deferFuncs) (\<lambda>_. ret ()))))"

section \<open>drafter-snapshotter\<close>

text \<open>The inputs go to one directory and the rest to another.\<close>

definition snapshotDefaults :: "snapshot_device list" where
  "snapshotDefaults = map (\<lambda>n. let fn = (case gm_get DeviceFilenames n of None \<Rightarrow> [] | Some fn \<Rightarrow> fn) in
     \<lparr>sd_Name = n, sd_Input = [], sd_Output =
       (if n \<in> {DeviceKernelName, DeviceDiskName, DeviceOCIName} then filepath_Join [''out'', ''blueprint'', fn]
        else filepath_Join [''out'', ''package'', fn])\<rparr>) KnownNames"

record snapshot_flags =
  sf_devices :: "goerr + snapshot_device list"
  sf_firecrackerBin :: "goerr + string"
  sf_jailerBin :: "goerr + string"
  sf_ChrootBaseDir :: string
  sf_uid :: int
  sf_gid :: int
  sf_enableOutput :: bool
  sf_enableInput :: bool
  sf_netns :: string
  sf_numaNode :: int
  sf_cgroupVersion :: int
  sf_ioEngineSync :: bool
  sf_vm :: vm_config
  sf_network :: network_config
  sf_livenessVSockPort :: int
  sf_agentVSockPort :: int

definition snapshotMachine :: "snapshot_flags \<Rightarrow> string \<Rightarrow> string \<Rightarrow> machine_config" where
  "snapshotMachine fl firecrackerBin jailerBin = \<lparr>mc_FirecrackerBin = firecrackerBin, mc_JailerBin = jailerBin,
     mc_ChrootBaseDir = sf_ChrootBaseDir fl, mc_UID = sf_uid fl, mc_GID = sf_gid fl, mc_NetNS = sf_netns fl,
     mc_NumaNode = sf_numaNode fl, mc_CgroupVersion = sf_cgroupVersion fl,
     mc_Stdout = (if sf_enableOutput fl then Some ''stdout'' else None),
     mc_Stderr = (if sf_enableOutput fl then Some ''stderr'' else None),
     mc_Stdin = (if sf_enableInput fl then Some ''stdin'' else None), mc_NoMapShared = False\<rparr>"

text \<open>The ports are cut to 32 bits.\<close>

definition snapshotter_main ::
    "('y) snap_env_scheme \<Rightarrow> snapshot_flags \<Rightarrow> start_event list \<Rightarrow> recv_event \<Rightarrow> goerr option \<Rightarrow> goerr option \<Rightarrow>
     (('z) host_sys_scheme, unit) go" where
  "snapshotter_main e fl evs ev crashed exit = (case sf_devices fl of Inl x \<Rightarrow> panic x | Inr devices \<Rightarrow>
     (case sf_firecrackerBin fl of Inl x \<Rightarrow> panic x | Inr firecrackerBin \<Rightarrow>
     (case sf_jailerBin fl of Inl x \<Rightarrow> panic x | Inr jailerBin \<Rightarrow>
     orCrash (CreateSnapshot e devices (sf_ioEngineSync fl) (sf_vm fl)
         \<lparr>LivenessVSockPort = word_of_int (sf_livenessVSockPort fl)\<rparr> (snapshotMachine fl firecrackerBin jailerBin)
         (sf_network fl) \<lparr>AgentVSockPort = word_of_int (sf_agentVSockPort fl)\<rparr> evs ev crashed exit) ret)))"

section \<open>What the programs leave\<close>

text \<open>
  None of the programs reports an error by returning one: they end normally or crash. A snapshotter that ends
  normally has made its snapshot.
\<close>

lemma orCrash_no_error:
  "(\<And>x t. wp (k x) (\<lambda>r _. \<forall>y. r \<noteq> Err y) t) \<Longrightarrow> wp (orCrash m k) (\<lambda>r _. \<forall>y. r \<noteq> Err y) s"
  by (rule orCrash_any) simp_all

lemma attempt_ret_no_error: "wp (attempt m (\<lambda>_. ret ())) (\<lambda>r _. \<forall>y. r \<noteq> Err y) s"
  unfolding wp_attempt by (rule wp_any) (simp_all add: go_wp)

lemma programs_end_or_crash:
  "wp (nat_main ne flags route) (\<lambda>r _. \<forall>y. r \<noteq> Err y) s1"
  "wp (forwarder_main fe ports cidr) (\<lambda>r _. \<forall>y. r \<noteq> Err y) s2"
  "wp (snapshotter_main se fl evs ev crashed exit) (\<lambda>r _. \<forall>y. r \<noteq> Err y) s3"
proof -
  show "wp (nat_main ne flags route) (\<lambda>r _. \<forall>y. r \<noteq> Err y) s1"
    unfolding nat_main_def hostInterface_def
    by (cases route) (auto simp: go_wp intro!: orCrash_no_error attempt_ret_no_error[unfolded wp_attempt])
  show "wp (forwarder_main fe ports cidr) (\<lambda>r _. \<forall>y. r \<noteq> Err y) s2"
    unfolding forwarder_main_def
    by (cases ports; cases cidr) (auto simp: wp_panic intro!: orCrash_no_error attempt_ret_no_error)
  show "wp (snapshotter_main se fl evs ev crashed exit) (\<lambda>r _. \<forall>y. r \<noteq> Err y) s3"
    unfolding snapshotter_main_def
    by (cases "sf_devices fl"; cases "sf_firecrackerBin fl"; cases "sf_jailerBin fl")
      (auto simp: wp_panic wp_ret intro!: orCrash_no_error)
qed

text \<open>The default outputs keep the devices apart, so that none overwrites another.\<close>

lemma snapshot_defaults: "distinct (map sd_Output snapshotDefaults)" "map sd_Name snapshotDefaults = KnownNames"
  by code_simp+

end
