(* ===== verification/Benchmark.thy ===== *)
theory Benchmark
  imports Journey
begin

text \<open>
  The benchmark that migrates machines while they work (\<^verbatim>\<open>cmd/drafter-perf/runtime-silo.go\<close>, the configurations in
  \<^verbatim>\<open>main.go\<close>): for each configuration it resumes a machine from a snapshot, and whenever a timer fires it migrates
  it to a new peer on the same host, compares the memory of both and closes the old one. The functions that claim a
  namespace and forward its ports are one call each. What is only printed is left out; the numbers that are
  shown are in \<open>Stats\<close>. A migration ends by computing its table, when the machines no longer change; a device
  without a protocol, which is a panic there, is not followed here.
\<close>

section \<open>Configurations\<close>

record run_config =
  rcf_Name :: string
  rcf_UseCow :: bool
  rcf_UseSharedBase :: bool
  rcf_UseSparseFile :: bool
  rcf_UseVolatility :: bool
  rcf_UseWriteCache :: bool
  rcf_WriteCacheMin :: string
  rcf_WriteCacheMax :: string
  rcf_WriteCacheBlocksize :: string
  rcf_BlockSize :: "32 word"
  rcf_GrabPeriod :: nat
  rcf_NoMapShared :: bool
  rcf_GrabFailsafe :: bool
  rcf_DirectMemory :: bool
  rcf_S3Sync :: bool
  rcf_S3Secure :: bool
  rcf_S3SecretKey :: string
  rcf_S3Endpoint :: string
  rcf_S3Concurrency :: int
  rcf_S3Bucket :: string
  rcf_S3AccessKey :: string
  rcf_S3Prefix :: string
  rcf_S3BlockShift :: int
  rcf_S3OnlyDirty :: bool
  rcf_S3MaxAge :: string
  rcf_S3MinChanged :: int
  rcf_S3Limit :: int
  rcf_S3CheckPeriod :: string
  rcf_MigrateAfter :: string
  rcf_MigrateInterval :: string
  rcf_MigrationCompression :: bool
  rcf_MigrationConcurrency :: int
  rcf_NumPipes :: int
  rcf_VMCPUs :: int
  rcf_VMMemory :: int

text \<open>The copy of a configuration for one repetition; a field that is not copied is zero.\<close>

definition repeated :: "run_config \<Rightarrow> nat \<Rightarrow> run_config" where
  "repeated c n = \<lparr>rcf_Name = rcf_Name c @ ''.'' @ show_nat n, rcf_UseCow = rcf_UseCow c,
     rcf_UseSharedBase = rcf_UseSharedBase c, rcf_UseSparseFile = rcf_UseSparseFile c,
     rcf_UseVolatility = rcf_UseVolatility c, rcf_UseWriteCache = rcf_UseWriteCache c,
     rcf_WriteCacheMin = rcf_WriteCacheMin c, rcf_WriteCacheMax = rcf_WriteCacheMax c,
     rcf_WriteCacheBlocksize = rcf_WriteCacheBlocksize c, rcf_BlockSize = rcf_BlockSize c,
     rcf_GrabPeriod = rcf_GrabPeriod c, rcf_NoMapShared = rcf_NoMapShared c, rcf_GrabFailsafe = False,
     rcf_DirectMemory = rcf_DirectMemory c, rcf_S3Sync = rcf_S3Sync c, rcf_S3Secure = rcf_S3Secure c,
     rcf_S3SecretKey = rcf_S3SecretKey c, rcf_S3Endpoint = rcf_S3Endpoint c, rcf_S3Concurrency = rcf_S3Concurrency c,
     rcf_S3Bucket = rcf_S3Bucket c, rcf_S3AccessKey = rcf_S3AccessKey c, rcf_S3Prefix = [],
     rcf_S3BlockShift = rcf_S3BlockShift c, rcf_S3OnlyDirty = rcf_S3OnlyDirty c, rcf_S3MaxAge = rcf_S3MaxAge c,
     rcf_S3MinChanged = rcf_S3MinChanged c, rcf_S3Limit = rcf_S3Limit c, rcf_S3CheckPeriod = rcf_S3CheckPeriod c,
     rcf_MigrateAfter = rcf_MigrateAfter c, rcf_MigrateInterval = [],
     rcf_MigrationCompression = rcf_MigrationCompression c, rcf_MigrationConcurrency = rcf_MigrationConcurrency c,
     rcf_NumPipes = 0, rcf_VMCPUs = 0, rcf_VMMemory = 0\<rparr>"

definition siloConfigs :: "int \<Rightarrow> run_config list \<Rightarrow> run_config list" where
  "siloConfigs iterations base = (if iterations = 1 then base
     else concat (map (\<lambda>c. map (repeated c) [0..<nat iterations]) base))"

section \<open>State\<close>

text \<open>
  \<open>b_fs\<close> is what making the schemas does. Of the environment: the memory read on either side at an offset (how
  much was read, and the buffer then), how many blocks of a device arrived and how many there are, and the parser of
  durations.
\<close>

record 'r bench = "'r journey" +
  b_fs :: "mig_call world"

type_synonym journey_trace = "(journey_call \<times> bool) list"

record bench_env = journey_env +
  sentMemory :: "journey_trace \<Rightarrow> nat \<Rightarrow> nat \<times> string"
  arrivedMemory :: "journey_trace \<Rightarrow> nat \<Rightarrow> nat \<times> string"
  availability :: "journey_trace \<Rightarrow> string \<Rightarrow> nat \<times> nat"
  parseDuration :: "string \<Rightarrow> goerr + int"

definition onFs :: "(mig_call world, 'a) go \<Rightarrow> (('r, 'z) bench_scheme, 'a) go" where
  "onFs m = (\<lambda>s. case m (b_fs s) of (r, w) \<Rightarrow> (r, s\<lparr>b_fs := w\<rparr>))"

section \<open>Devices\<close>

definition emptyDevice :: "string \<Rightarrow> migrate_from_device" where
  "emptyDevice n = \<lparr>mf_Name = n, mf_Base = [], mf_Overlay = [], mf_State = [], mf_BlockSize = 0, mf_Shared = False,
     mf_UseSparseFile = False, mf_AnyOrder = False, mf_UseWriteCache = False, mf_WriteCacheMin = [],
     mf_WriteCacheMax = [], mf_WriteCacheBlocksize = [], mf_SharedBase = False, mf_SkipSilo = False, mf_S3Sync = False,
     mf_S3AccessKey = [], mf_S3SecretKey = [], mf_S3Endpoint = [], mf_S3Secure = False, mf_S3Bucket = [],
     mf_S3Concurrency = 0, mf_S3Prefix = [], mf_S3OnlyDirty = False, mf_S3BlockShift = 0, mf_S3MaxAge = [],
     mf_S3MinChanged = 0, mf_S3Limit = 0, mf_S3CheckPeriod = []\<rparr>"

definition benchWriteCache :: "run_config \<Rightarrow> migrate_from_device \<Rightarrow> migrate_from_device" where
  "benchWriteCache c d = (if rcf_UseWriteCache c \<and> mf_Name d = ''memory'' then
     d\<lparr>mf_UseWriteCache := True, mf_WriteCacheMin := rcf_WriteCacheMin c, mf_WriteCacheMax := rcf_WriteCacheMax c,
       mf_WriteCacheBlocksize := rcf_WriteCacheBlocksize c\<rparr> else d)"

definition benchBase :: "nat \<Rightarrow> string \<Rightarrow> string \<Rightarrow> run_config \<Rightarrow> migrate_from_device \<Rightarrow> migrate_from_device" where
  "benchBase i testDir snapDir c d = (let n = mf_Name d;
       fn = (case gm_get DeviceFilenames n of None \<Rightarrow> [] | Some fn \<Rightarrow> fn);
       file = (\<lambda>ext. filepath_Join [filepath_Join [testDir, rcf_Name c, fn @ ''-'' @ show_nat i @ ext]])
     in if rcf_UseCow c then d\<lparr>mf_Base := filepath_Join [snapDir, n], mf_UseSparseFile := rcf_UseSparseFile c,
          mf_Overlay := file ''.overlay'', mf_State := file ''.state'', mf_SharedBase := rcf_UseSharedBase c\<rparr>
        else d\<lparr>mf_Base := filepath_Join [testDir, ''silo_'' @ rcf_Name c @ ''_'' @ show_nat i @ ''_'' @ n]\<rparr>)"

definition benchS3 :: "run_config \<Rightarrow> migrate_from_device \<Rightarrow> migrate_from_device" where
  "benchS3 c d = (if mf_Name d \<in> {DeviceDiskName, DeviceOCIName, DeviceMemoryName} then
     d\<lparr>mf_S3Sync := rcf_S3Sync c, mf_S3Secure := rcf_S3Secure c, mf_S3SecretKey := rcf_S3SecretKey c,
       mf_S3Endpoint := rcf_S3Endpoint c, mf_S3Concurrency := rcf_S3Concurrency c, mf_S3Bucket := rcf_S3Bucket c,
       mf_S3AccessKey := rcf_S3AccessKey c, mf_S3Prefix := rcf_S3Prefix c, mf_S3BlockShift := rcf_S3BlockShift c,
       mf_S3OnlyDirty := rcf_S3OnlyDirty c, mf_S3MaxAge := rcf_S3MaxAge c, mf_S3MinChanged := rcf_S3MinChanged c,
       mf_S3Limit := rcf_S3Limit c, mf_S3CheckPeriod := rcf_S3CheckPeriod c\<rparr> else d)"

definition benchDevice :: "nat \<Rightarrow> string \<Rightarrow> string \<Rightarrow> run_config \<Rightarrow> string \<Rightarrow> migrate_from_device" where
  "benchDevice i testDir snapDir c n = benchS3 c (benchBase i testDir snapDir c (benchWriteCache c
     ((emptyDevice n)\<lparr>mf_BlockSize := rcf_BlockSize c, mf_AnyOrder := \<not> rcf_UseVolatility c\<rparr>)))"

definition copyTestFile ::
    "('x) bench_env_scheme \<Rightarrow> string \<Rightarrow> string \<Rightarrow> (('r, 'z) bench_scheme, unit) go" where
  "copyTestFile e src dst =
     andThen (act e (OpenTestFile src)) (\<lambda>_.
     andThen (act e (CreateTestFile dst)) (\<lambda>_.
     andThen (act e (CopyTestFile src dst)) (\<lambda>_.
     andThen (act e (CloseTestFile src)) (\<lambda>_.
     act e (CloseTestFile dst)))))"

text \<open>The schemas are made, with all that this does to the files, and not used.\<close>

definition benchDevicesFrom ::
    "('x) bench_env_scheme \<Rightarrow> ('y) mig_env_scheme \<Rightarrow> nat \<Rightarrow> string \<Rightarrow> string \<Rightarrow> run_config \<Rightarrow>
     (('r, 'z) bench_scheme, migrate_from_device list) go" where
  "benchDevicesFrom e me i testDir snapDir c = (let dev = benchDevice i testDir snapDir c in
     andThen (forEach journeyNames (\<lambda>n.
       andThen (whenM (\<not> rcf_UseCow c) (copyTestFile e (filepath_Join [snapDir, n]) (mf_Base (dev n)))) (\<lambda>_.
       andThen (onFs (CreateSiloDevSchema me (dev n))) (\<lambda>_. ret ())))) (\<lambda>_.
     ret (map dev journeyNames)))"

definition benchDevicesTo :: "migrate_to_device list" where
  "benchDevicesTo = map (\<lambda>n. \<lparr>mt_Name = n, mt_MaxDirtyBlocks = 0, mt_MinCycles = 0, mt_MaxCycles = 0,
     mt_CycleThrottle = 500000000\<rparr>) (KnownNames @ [DeviceOCIName])"

section \<open>A peer\<close>

text \<open>The output goes to a file of the run, or nowhere if it cannot be opened: the standard output and error.\<close>

definition outputName :: "run_config \<Rightarrow> nat \<Rightarrow> string" where
  "outputName c i = rcf_Name c @ ''-'' @ replicate (4 - length (show_nat i)) (CHR ''0'') @ show_nat i @ ''.stdout''"

definition benchOutput ::
    "('x) bench_env_scheme \<Rightarrow> bool \<Rightarrow> string \<Rightarrow> (('r, 'z) bench_scheme, string option \<times> string option) go" where
  "benchOutput e enableOutput file = (if enableOutput then ret (Some ''stdout'', Some ''stderr'') else
     attempt (act e (OpenTestFile file)) (\<lambda>r. case r of
       Inl _ \<Rightarrow> ret (None, None)
     | Inr _ \<Rightarrow> ret (Some file, Some file)))"

definition closeOutput ::
    "('x) bench_env_scheme \<Rightarrow> bool \<Rightarrow> string \<Rightarrow> string option \<times> string option \<Rightarrow> (('r, 'z) bench_scheme, unit) go" where
  "closeOutput e enableOutput file out = whenM (\<not> enableOutput \<and> out \<noteq> (None, None)) (actIgnore e (CloseTestFile file))"

definition benchMachine ::
    "string \<Rightarrow> string \<Rightarrow> run_config \<Rightarrow> bool \<Rightarrow> string option \<times> string option \<Rightarrow> string \<Rightarrow> string \<Rightarrow> machine_config" where
  "benchMachine testDir netns c enableInput out firecrackerBin jailerBin =
     (journeyMachine testDir netns firecrackerBin jailerBin)\<lparr>mc_Stdout := fst out, mc_Stderr := snd out,
       mc_Stdin := Some (if enableInput then ''stdin'' else ''pusher''), mc_NoMapShared := rcf_NoMapShared c\<rparr>"

definition benchRuntime :: "run_config \<Rightarrow> machine_config \<Rightarrow> rt_config" where
  "benchRuntime c conf = \<lparr>rc_Machine = conf, rc_GrabInterval = rcf_GrabPeriod c, rc_GrabFailsafe = rcf_GrabFailsafe c,
     rc_GrabUpdateDirty = rcf_DirectMemory c, rc_GrabUpdateMemory = rcf_NoMapShared c \<and> \<not> rcf_DirectMemory c,
     rc_DirectMemory = rcf_DirectMemory c, rc_DirectMemoryWriteback = False, rc_hasRunningCB = True\<rparr>"

text \<open>
  The peer that is set up is the next one. The runtime is made from its configuration, and a peer that was not
  started from whether it is to grab memory (\<open>GrabMemory\<close>, a field of the runtime that its end changes).
\<close>

definition setupPeer ::
    "('x) bench_env_scheme \<Rightarrow> ('y) peer_env_scheme \<Rightarrow> (rt_config \<Rightarrow> ('r, 'w) runtime_provider_scheme) \<Rightarrow> (bool \<Rightarrow> 'r peer) \<Rightarrow>
     run_config \<Rightarrow> string \<Rightarrow> string \<Rightarrow> bool \<Rightarrow> bool \<Rightarrow> nat \<Rightarrow> (('r, 'z) bench_scheme, ('r, 'w) runtime_provider_scheme) go" where
  "setupPeer e pe rp fresh c testDir netns enableInput enableOutput i =
     andThen (findBin e ''firecracker'') (\<lambda>firecrackerBin.
     andThen (findBin e ''jailer'') (\<lambda>jailerBin.
     andThen (benchOutput e enableOutput (outputName c i)) (\<lambda>out.
     deferring (closeOutput e enableOutput (outputName c i) out) (
     let rt = rp (benchRuntime c (benchMachine testDir netns c enableInput out firecrackerBin jailerBin));
         name = rcf_Name c @ ''-'' @ show_nat i in
     andThen (update (\<lambda>s. s\<lparr>j_peers := j_peers s @ [fresh (rcf_NoMapShared c)]\<rparr>)) (\<lambda>_.
     andThen (onPeer i (StartPeer pe rt True True None name)) (\<lambda>_.
     andThen (onPeer i (SetInstanceID name)) (\<lambda>_. ret rt)))))))"

section \<open>A migration\<close>

text \<open>
  Eight gibibytes are compared, block by block; a difference in how much was read is only printed.
\<close>

definition compareBlock :: "('x) bench_env_scheme \<Rightarrow> nat \<Rightarrow> (('r, 'z) bench_scheme, unit) go" where
  "compareBlock e b = (let off = b * (1024 * 1024) in
     andThen (ask e (\<lambda>tr. sentMemory e tr off) (ReadSentMemory off)) (\<lambda>sent.
     andThen (ask e (\<lambda>tr. arrivedMemory e tr off) (ReadArrivedMemory off)) (\<lambda>arrived.
     if snd sent \<noteq> snd arrived then throw (Plain ''corruption detected'') else ret ())))"

definition compareMemory :: "('x) bench_env_scheme \<Rightarrow> (('r, 'z) bench_scheme, unit) go" where
  "compareMemory e =
     andThen (act e OpenSentMemory) (\<lambda>_.
     andThen (act e OpenArrivedMemory) (\<lambda>_. forEach [0..<8 * 1024] (compareBlock e)))"

definition checkAvailable :: "('x) bench_env_scheme \<Rightarrow> (('r, 'z) bench_scheme, unit) go" where
  "checkAvailable e = forEach (KnownNames @ [DeviceOCIName]) (\<lambda>n.
     reading (\<lambda>s. availability e (trace s) n) (\<lambda>(n1, n2).
     if n1 \<noteq> n2 then throw (Plain ''missing data'') else ret ()))"

definition benchOptions :: "run_config \<Rightarrow> migrate_to_options" where
  "benchOptions c = \<lparr>opt_Concurrency = (if rcf_MigrationConcurrency c = 0 then 10 else rcf_MigrationConcurrency c),
     opt_Compression = rcf_MigrationCompression c, opt_CompressionType = 0\<rparr>"

text \<open>At least one pair of pipes.\<close>

definition numPipes :: "run_config \<Rightarrow> nat" where
  "numPipes c = nat (if rcf_NumPipes c < 1 then 1 else rcf_NumPipes c)"

text \<open>The machine that arrived is resumed once the other is closed, and closed itself if that fails.\<close>

definition takeOver ::
    "('y) peer_env_scheme \<Rightarrow> ('r, 'w) runtime_provider_scheme \<Rightarrow> ('r, 'w) runtime_provider_scheme \<Rightarrow> nat \<Rightarrow>
     (('r, 'z) bench_scheme, unit) go" where
  "takeOver pe rpFrom rpTo i =
     andThen (onPeer i (peer_Close pe rpFrom)) (\<lambda>_.
     attempt (onPeer (Suc i) (peer_Resume rpTo)) (\<lambda>r. case r of
       Inl x \<Rightarrow> attempt (onPeer (Suc i) (peer_Close pe rpTo)) (\<lambda>_. throw x)
     | Inr _ \<Rightarrow> ret ()))"

text \<open>From peer \<open>i\<close> to the next. The sender's error is kept until both sides are done.\<close>

definition migrateNow ::
    "('x) bench_env_scheme \<Rightarrow> ('y) peer_env_scheme \<Rightarrow> ('r, 'w) runtime_provider_scheme \<Rightarrow> ('r, 'w) runtime_provider_scheme \<Rightarrow>
     ('v) mig_env_scheme \<Rightarrow> 'r peer silo_dirty \<Rightarrow> goerr \<Rightarrow> run_config \<Rightarrow> string \<Rightarrow> string \<Rightarrow> nat \<Rightarrow>
     (('r, 'z) bench_scheme, unit) go" where
  "migrateNow e pe rpFrom rpTo me silo lost c testDir snapDir i =
     (let profile = rcf_Name c @ ''-'' @ show_nat (Suc i) @ ''.prof'' in
     orCrash (act e (CreateTestFile profile)) (\<lambda>_.
     orCrash (act e (StartProfile profile)) (\<lambda>_.
     deferring (andThen (actIgnore e StopProfile) (\<lambda>_. actIgnore e (CloseTestFile profile))) (
     reading (\<lambda>s. trace (j_peers s ! i)) (\<lambda>tr0.
     attempt (onPeer i (MigrateTo pe rpFrom silo True True (benchOptions c) benchDevicesTo (Some (Some [])))) (\<lambda>sent.
     andThen (benchDevicesFrom e me (Suc i) testDir snapDir c) (\<lambda>devices.
     reading (\<lambda>s. arrivalFrom tr0 (trace (j_peers s ! i)) lost) (\<lambda>arrival.
     andThen (onPeer (Suc i) (MigrateFrom pe rpTo nextHooks devices (numPipes c) (numPipes c) arrival)) (\<lambda>_.
     andThen (awaitCompletion pe (Suc i)) (\<lambda>_. case sent of
       Inl x \<Rightarrow> throw x
     | Inr _ \<Rightarrow> andThen (compareMemory e) (\<lambda>_. andThen (checkAvailable e) (\<lambda>_.
         takeOver pe rpFrom rpTo i))))))))))))"

section \<open>A run\<close>

datatype bench_event = BenchDone | TimerFired

text \<open>How often the timer can fire: one for a ticker, which replaces one that fires once; \<open>None\<close> for no limit.\<close>

definition timerOf :: "('x) bench_env_scheme \<Rightarrow> run_config \<Rightarrow> (('r, 'z) bench_scheme, nat option) go" where
  "timerOf e c = andThen (if rcf_MigrateAfter c \<noteq> [] then
       (case parseDuration e (rcf_MigrateAfter c) of Inl x \<Rightarrow> throw x | Inr _ \<Rightarrow> ret (Some 1)) else ret (Some 0)) (\<lambda>after.
     if rcf_MigrateInterval c \<noteq> [] then (case parseDuration e (rcf_MigrateInterval c) of
         Inl x \<Rightarrow> throw x
       | Inr d \<Rightarrow> if d \<le> 0 then panic (Plain ''non-positive interval for NewTicker'') else ret None)
     else ret after)"

text \<open>
  The current peer is \<open>i\<close>, with the runtime \<open>rp0\<close>. \<open>setup\<close> and \<open>migrate\<close> are \<open>setupPeer\<close> and
  \<open>migrateNow\<close> of the run. With no more events the loop waits. An error of closing is only printed.
\<close>

fun benchLoop ::
    "('y) peer_env_scheme \<Rightarrow> (nat \<Rightarrow> (('r, 'z) bench_scheme, 'rp) go) \<Rightarrow> (nat \<Rightarrow> 'rp \<Rightarrow> 'rp \<Rightarrow> (('r, 'z) bench_scheme, unit) go) \<Rightarrow>
     (nat \<Rightarrow> 'rp \<Rightarrow> (('r, 'z) bench_scheme, unit) go) \<Rightarrow> bench_event list \<Rightarrow> nat option \<Rightarrow> nat \<Rightarrow> 'rp \<Rightarrow>
     (('r, 'z) bench_scheme, unit) go" where
  "benchLoop pe new_peer migrate close [] ticks i rp0 = doesNotEnd"
| "benchLoop pe new_peer migrate close (BenchDone # evs) ticks i rp0 = attempt (close i rp0) (\<lambda>_. ret ())"
| "benchLoop pe new_peer migrate close (TimerFired # evs) ticks i rp0 =
     (if ticks = Some 0 then benchLoop pe new_peer migrate close evs ticks i rp0 else
      andThen (new_peer (Suc i)) (\<lambda>rp1.
      andThen (migrate i rp0 rp1) (\<lambda>_.
      attempt (close i rp0) (\<lambda>_. benchLoop pe new_peer migrate close evs (map_option (\<lambda>k. k - 1) ticks) (Suc i) rp1))))"

text \<open>
  The caller says how a namespace is claimed and how ports are forwarded to it; both give the function that undoes it.
\<close>

definition runSilo ::
    "('x) bench_env_scheme \<Rightarrow> ('y) peer_env_scheme \<Rightarrow> (rt_config \<Rightarrow> ('r, 'w) runtime_provider_scheme) \<Rightarrow> (bool \<Rightarrow> 'r peer) \<Rightarrow>
     ('v) mig_env_scheme \<Rightarrow> (nat \<Rightarrow> 'r peer silo_dirty) \<Rightarrow> (nat \<Rightarrow> goerr) \<Rightarrow> string \<Rightarrow> string \<Rightarrow>
     (('r, 'z) bench_scheme, string \<times> (('r, 'z) bench_scheme, unit) go) go \<Rightarrow>
     (string \<Rightarrow> (('r, 'z) bench_scheme, (('r, 'z) bench_scheme, unit) go) go) \<Rightarrow> run_config \<Rightarrow>
     bool \<Rightarrow> bool \<Rightarrow> bench_event list \<Rightarrow> (('r, 'z) bench_scheme, unit) go" where
  "runSilo e pe rp fresh me silo lost testDir snapDir ns forwards c enableInput enableOutput evs =
     andThen (benchDevicesFrom e me 0 testDir snapDir c) (\<lambda>devices.
     andThen ns (\<lambda>(netns, netCloser).
     andThen (forwards netns) (\<lambda>forwardsCloser.
     deferring (andThen forwardsCloser (\<lambda>_. netCloser)) (
     let new_peer = setupPeer e pe rp fresh c testDir netns enableInput enableOutput in
     andThen (new_peer 0) (\<lambda>rp0.
     andThen (onPeer 0 (MigrateFrom pe rp0 firstHooks devices 0 0 (Inr []))) (\<lambda>_.
     andThen (onPeer 0 (peer_Resume rp0)) (\<lambda>_.
     andThen (timerOf e c) (\<lambda>ticks.
     benchLoop pe new_peer (\<lambda>i rpFrom rpTo. migrateNow e pe rpFrom rpTo me (silo i) (lost i) c testDir snapDir i)
       (\<lambda>i rp0. onPeer i (peer_Close pe rp0)) evs ticks 0 rp0))))))))"

section \<open>Following the peers\<close>

lemma bench_fields [simp]:
  fixes s :: "('r, 'z) bench_scheme"
  shows "chain st n i (b_fs_update f s) = chain st n i s" "between st i (b_fs_update f s) = between st i s"
    "oneRuns st (b_fs_update f s) = oneRuns st s" "wasSent st i tr0 (b_fs_update f s) = wasSent st i tr0 s"
  by (simp_all add: chain_def between_def oneRuns_def wasSent_def)

lemma stays_onFs [stays]:
  "(\<And>s f. I s \<Longrightarrow> I (b_fs_update f s)) \<Longrightarrow> stays_inv I (onFs m)"
  by (auto simp: stays_inv_def onFs_def split: prod.splits)

lemma stays_benchDevices:
  fixes I :: "('r, 'z) bench_scheme \<Rightarrow> bool"
  assumes "\<And>s f. I s \<Longrightarrow> I (b_fs_update f s)" and "\<And>s f. I s \<Longrightarrow> I (trace_update f s)"
  shows "stays_inv I (benchDevicesFrom e me i testDir snapDir c)"
  unfolding benchDevicesFrom_def copyTestFile_def by (intro stays assms)

lemma stays_checks:
  fixes I :: "('r, 'z) bench_scheme \<Rightarrow> bool"
  assumes "\<And>s f. I s \<Longrightarrow> I (trace_update f s)"
  shows "stays_inv I (compareMemory e)" "stays_inv I (checkAvailable e)"
proof -
  show "stays_inv I (compareMemory e)"
    unfolding compareMemory_def compareBlock_def by (intro stays assms)
  show "stays_inv I (checkAvailable e)"
    unfolding checkAvailable_def
    by (intro stays; simp add: stays_basic split: prod.split)
qed

text \<open>Once the machine was handed over, nothing that follows makes the old one run.\<close>

lemma takeOver_keeps:
  fixes s :: "('r, 'z) bench_scheme"
  assumes "peer_contract rpFrom st" and "chain st (Suc (Suc i)) (Suc i) s"
  shows "wp (takeOver pe rpFrom rpTo i) (\<lambda>_. chain st (Suc (Suc i)) (Suc i)) s"
proof -
  let ?C = "chain st (Suc (Suc i)) (Suc i) :: ('r, 'z) bench_scheme \<Rightarrow> bool"
  have closed: "wp (attempt (onPeer (Suc i) (peer_Close pe rpTo)) (\<lambda>_. throw x)) (\<lambda>_. ?C) t" if "?C t" for x t
    unfolding wp_attempt by (rule wp_mono[OF onPeer_last[OF that]], simp, rename_tac r u, case_tac r) (simp_all add: go_wp)
  have resume: "wp (attempt (onPeer (Suc i) (peer_Resume rpTo)) (\<lambda>r. case r of
       Inl x \<Rightarrow> attempt (onPeer (Suc i) (peer_Close pe rpTo)) (\<lambda>_. throw x)
     | Inr _ \<Rightarrow> ret ())) (\<lambda>_. ?C) t" if "?C t" for t
    unfolding wp_attempt
    by (rule wp_mono[OF onPeer_last[OF that]], simp, rename_tac r u, case_tac r) (simp_all add: go_wp closed[unfolded wp_attempt])
  show ?thesis
    unfolding takeOver_def
  proof (rule seq_rule(1)[OF onPeer_stopped(1)[OF peer_contract.stays_peer_ops(4)[OF assms(1)] assms(2)]])
  qed (rule resume, assumption | simp)+
qed

lemma afterArrival_keeps:
  fixes s :: "('r, 'z) bench_scheme"
  assumes "peer_contract rpFrom st" and "chain st (Suc (Suc i)) (Suc i) s"
  shows "wp (andThen (awaitCompletion pe (Suc i)) (\<lambda>_. case sent of
       Inl x \<Rightarrow> throw x
     | Inr _ \<Rightarrow> andThen (compareMemory e) (\<lambda>_. andThen (checkAvailable e) (\<lambda>_. takeOver pe rpFrom rpTo i))))
     (\<lambda>_. chain st (Suc (Suc i)) (Suc i)) s"
proof -
  let ?C = "chain st (Suc (Suc i)) (Suc i) :: ('r, 'z) bench_scheme \<Rightarrow> bool"
  have checks: "stays_inv ?C (compareMemory e)" "stays_inv ?C (checkAvailable e)" by (rule stays_checks, simp)+
  have await: "wp (awaitCompletion pe (Suc i)) (\<lambda>_. ?C) s"
    unfolding awaitCompletion_def doesNotEnd_def
    by (rule seq_rule(1)[OF onPeer_last[OF assms(2)]]) (simp_all add: go_wp)
  have over: "wp (andThen (checkAvailable e) (\<lambda>_. takeOver pe rpFrom rpTo i)) (\<lambda>_. ?C) t" if "?C t" for t
    by (rule seq_rule(1)[OF stays_wp[OF checks(2) that]]) (simp_all add: takeOver_keeps[OF assms(1)])
  have compared: "wp (andThen (compareMemory e) (\<lambda>_. andThen (checkAvailable e) (\<lambda>_. takeOver pe rpFrom rpTo i))) (\<lambda>_. ?C) t"
    if "?C t" for t
    by (rule seq_rule(1)[OF stays_wp[OF checks(1) that]]) (simp_all add: over)
  show ?thesis
    by (rule seq_rule(1)[OF await]) (auto simp: compared wp_throw split: sum.split)
qed

text \<open>What a migration leaves: at most one machine that runs, and after success it is not the old one.\<close>

definition migrated :: "('r \<Rightarrow> bool) \<Rightarrow> nat \<Rightarrow> unit res \<Rightarrow> ('r, 'z) bench_scheme \<Rightarrow> bool" where
  "migrated st i r t \<longleftrightarrow> oneRuns st t \<and> (r = Ok () \<longrightarrow> chain st (Suc (Suc i)) (Suc i) t)"

lemma migrated_intros:
  "chain st (Suc (Suc i)) (Suc i) t \<Longrightarrow> migrated st i r t" "between st i t \<Longrightarrow> r \<noteq> Ok () \<Longrightarrow> migrated st i r t"
  using chain_one[of st "Suc (Suc i)" "Suc i" t] by (auto simp: migrated_def intro: between_one)

lemma seq_rest:
  assumes "wp m (\<lambda>r t. C t \<and> (\<forall>x. r = Ok x \<longrightarrow> P x t)) s" and "\<And>x t. P x t \<Longrightarrow> wp (k x) R t"
    and "\<And>x t. C t \<Longrightarrow> R (Err x) t" and "\<And>x t. C t \<Longrightarrow> R (Panic x) t"
  shows "wp (andThen m k) R s"
  unfolding wp_andThen by (rule wp_mono[OF assms(1)], rename_tac r t, case_tac r) (simp_all add: assms(2-4))

lemma numPipes_pos: "0 < numPipes c"
  by (simp add: numPipes_def)

lemma exchange_follows:
  fixes s :: "('r, 'z) bench_scheme"
  assumes old: "peer_contract rpFrom st" and new: "peer_contract rpTo st"
    and hooks_only: "\<And>df s. (dm_step df)\<^sup>*\<^sup>* s (snd (silo df s))" and s: "between st i s"
  shows "wp (attempt (onPeer i (MigrateTo pe rpFrom silo True True (benchOptions c) benchDevicesTo (Some (Some [])))) (\<lambda>sent.
     andThen (benchDevicesFrom e me (Suc i) testDir snapDir c) (\<lambda>devices.
     reading (\<lambda>t. arrivalFrom (trace (j_peers s ! i)) (trace (j_peers t ! i)) lost) (\<lambda>arrival.
     andThen (onPeer (Suc i) (MigrateFrom pe rpTo nextHooks devices (numPipes c) (numPipes c) arrival)) (\<lambda>_.
     andThen (awaitCompletion pe (Suc i)) (\<lambda>_. case sent of
       Inl x \<Rightarrow> throw x
     | Inr _ \<Rightarrow> andThen (compareMemory e) (\<lambda>_. andThen (checkAvailable e) (\<lambda>_. takeOver pe rpFrom rpTo i))))))))
     (migrated st i) s"
proof -
  let ?tr0 = "trace (j_peers s ! i)"
  let ?W = "wasSent st i ?tr0 :: ('r, 'z) bench_scheme \<Rightarrow> bool"
  let ?rest = "\<lambda>sent. andThen (awaitCompletion pe (Suc i)) (\<lambda>_. case sent of
       Inl x \<Rightarrow> throw x
     | Inr _ \<Rightarrow> andThen (compareMemory e) (\<lambda>_. andThen (checkAvailable e) (\<lambda>_. takeOver pe rpFrom rpTo i)))"
  have rest: "wp (?rest sent) (migrated st i) t" if "chain st (Suc (Suc i)) (Suc i) t" for sent t
    by (rule wp_mono[OF afterArrival_keeps[OF old that]]) (rule migrated_intros)
  have arrive: "wp (andThen (onPeer (Suc i) (MigrateFrom pe rpTo nextHooks devices (numPipes c) (numPipes c)
      (arrivalFrom ?tr0 (trace (j_peers t ! i)) lost))) (\<lambda>_. ?rest sent)) (migrated st i) t" if "?W t" for devices sent t
    by (rule seq_rest[where C = "between st i" and P = "\<lambda>_. chain st (Suc (Suc i)) (Suc i)"])
      (use peer_contract.arrival_follows[OF new that numPipes_pos numPipes_pos] rest in \<open>auto intro: migrated_intros\<close>)
  have devices: "wp (andThen (benchDevicesFrom e me (Suc i) testDir snapDir c) (\<lambda>devices.
     reading (\<lambda>t. arrivalFrom ?tr0 (trace (j_peers t ! i)) lost) (\<lambda>arrival.
     andThen (onPeer (Suc i) (MigrateFrom pe rpTo nextHooks devices (numPipes c) (numPipes c) arrival)) (\<lambda>_. ?rest sent))))
     (migrated st i) t" if "?W t" for sent t
  proof (rule seq_rule(1)[where P = ?W])
    show "wp (benchDevicesFrom e me (Suc i) testDir snapDir c) (\<lambda>_. ?W) t"
      by (rule stays_wp[OF stays_benchDevices[where I = ?W] that]) simp_all
  qed (simp_all only: wp_reading arrive, auto simp: wasSent_def intro: migrated_intros)
  have panicked: "migrated st i (Panic x) t" if "?W t" for x t
    using that by (auto simp: wasSent_def intro: migrated_intros)
  show ?thesis
    unfolding wp_attempt
    by (rule wp_mono[OF peer_contract.send_follows[OF old hooks_only s]], rename_tac r t, case_tac r)
      (simp_all only: attemptQ.simps devices panicked)
qed

lemma migrateNow_follows:
  fixes s :: "('r, 'z) bench_scheme"
  assumes old: "peer_contract rpFrom st" and new: "peer_contract rpTo st"
    and hooks_only: "\<And>df s. (dm_step df)\<^sup>*\<^sup>* s (snd (silo df s))" and s: "between st i s"
  shows "wp (migrateNow e pe rpFrom rpTo me silo lost c testDir snapDir i) (migrated st i) s"
proof -
  have act: "wp (act e x) (\<lambda>_. between st i) t" if "between st i t" for x and t :: "('r, 'z) bench_scheme"
    using that by (simp add: go_wp split: option.split)
  have deferred: "wp (deferring (andThen (actIgnore e x) (\<lambda>_. actIgnore e y)) m) (migrated st i) t"
    if "wp m (migrated st i) t" for x y m and t :: "('r, 'z) bench_scheme"
    unfolding wp_deferring
    by (rule wp_mono[OF that], rename_tac r t, case_tac r) (simp_all add: go_wp migrated_def)
  show ?thesis
    unfolding migrateNow_def Let_def
    by (intro seq_rule(2)[OF act] deferred) (auto simp: s wp_reading exchange_follows[OF old new hooks_only] intro: migrated_intros)
qed


lemma setupPeer_gives:
  fixes s :: "('r, 'z) bench_scheme"
  assumes s: "I0 s"
    and tr: "\<And>t f. I0 (trace_update f t) = I0 t" "\<And>t f. I1 (trace_update f t) = I1 t"
    and add: "\<And>t. I0 t \<Longrightarrow> I1 (t\<lparr>j_peers := j_peers t @ [fresh (rcf_NoMapShared c)]\<rparr>)"
    and keep: "\<And>conf name t. I1 t \<Longrightarrow> wp (onPeer i (StartPeer pe (rp conf) True True None name)) (\<lambda>_. I1) t"
      "\<And>name t. I1 t \<Longrightarrow> wp (onPeer i (SetInstanceID name)) (\<lambda>_. I1) t"
  shows "wp (setupPeer e pe rp fresh c testDir netns enableInput enableOutput i)
     (\<lambda>r t. (I0 t \<or> I1 t) \<and> (\<forall>x. r = Ok x \<longrightarrow> (\<exists>conf. x = rp conf) \<and> I1 t)) s"
proof -
  let ?R = "\<lambda>r t. (I0 t \<or> I1 t) \<and> (\<forall>x. r = Ok x \<longrightarrow> (\<exists>conf. x = rp conf) \<and> I1 t)"
  have find: "wp (findBin e n) (\<lambda>_. I0) t" if "I0 t" for n and t :: "('r, 'z) bench_scheme"
    using that by (simp add: findBin_def go_wp trace_snoc tr split: option.split)
  have out: "wp (benchOutput e enableOutput (outputName c i)) (\<lambda>_. I0) t" if "I0 t" for t :: "('r, 'z) bench_scheme"
    using that by (simp add: benchOutput_def go_wp trace_snoc tr split: option.split)
  have started: "wp (andThen (onPeer i (StartPeer pe (rp conf) True True None name)) (\<lambda>_.
      andThen (onPeer i (SetInstanceID name)) (\<lambda>_. ret (rp conf)))) ?R t"
    if "I1 t" for conf name and t :: "('r, 'z) bench_scheme"
    by (intro seq_rule(1)[OF keep(1)[OF that]] seq_rule(1)[OF keep(2)]) (auto simp: wp_ret)
  have close: "wp (deferring (closeOutput e b name out) m) ?R t" if "wp m ?R t" for b name out m and t :: "('r, 'z) bench_scheme"
    unfolding wp_deferring closeOutput_def
    by (rule wp_mono[OF that], rename_tac r t, case_tac r) (auto simp: go_wp trace_snoc tr)
  show ?thesis
    unfolding setupPeer_def Let_def
    by (intro seq_rule(1)[OF find] seq_rule(1)[OF out] close)
      (auto simp: s wp_andThen[of "update f" for f] wp_update add intro!: started)
qed

lemma stays_SetInstanceID: "stays_inv (\<lambda>p :: ('r, 'z) peer_scheme. st (p_runtime p)) (SetInstanceID name)"
  unfolding SetInstanceID_def by (intro stays) simp

lemma setupPeer_next:
  fixes s :: "('r, 'z) bench_scheme"
  assumes contract: "\<And>conf. peer_contract (rp conf) st" and fresh: "st (p_runtime (fresh (rcf_NoMapShared c)))"
  shows "j_peers s = [] \<Longrightarrow> wp (setupPeer e pe rp fresh c testDir netns enableInput enableOutput 0)
      (\<lambda>r t. oneRuns st t \<and> (\<forall>x. r = Ok x \<longrightarrow> (\<exists>conf. x = rp conf) \<and> chain st (Suc 0) 0 t)) s"
    "chain st (Suc i) i s \<Longrightarrow> wp (setupPeer e pe rp fresh c testDir netns enableInput enableOutput (Suc i))
      (\<lambda>r t. oneRuns st t \<and> (\<forall>x. r = Ok x \<longrightarrow> (\<exists>conf. x = rp conf) \<and> between st i t)) s"
proof -
  let ?run = "setupPeer e pe rp fresh c testDir netns enableInput enableOutput"
  have one: "chain st (Suc 0) 0 t \<longleftrightarrow> length (j_peers t) = Suc 0" for t :: "('r, 'z) bench_scheme"
    by (simp add: chain_def)
  have first: "wp (onPeer 0 m) (\<lambda>_. chain st (Suc 0) 0) t" if "length (j_peers t) = Suc 0"
    for m :: "('r peer, unit) go" and t :: "('r, 'z) bench_scheme"
    by (rule onPeer_last) (use that in \<open>simp_all add: one\<close>)
  show "wp (?run 0) (\<lambda>r t. oneRuns st t \<and> (\<forall>x. r = Ok x \<longrightarrow> (\<exists>conf. x = rp conf) \<and> chain st (Suc 0) 0 t)) s"
    if "j_peers s = []"
    by (rule wp_mono[OF setupPeer_gives[where ?I0.0 = "\<lambda>t. j_peers t = []" and ?I1.0 = "chain st (Suc 0) 0"]])
      (use that first in \<open>auto simp: one chain_def oneRuns_def\<close>)
  have start: "wp (onPeer (Suc i) (StartPeer pe (rp conf) True True None name)) (\<lambda>_. between st i) t"
    if "between st i t" for conf name and t :: "('r, 'z) bench_scheme"
    by (rule onPeer_stopped(2)[OF peer_contract.stays_peer_ops(1)[OF contract] that])
  have named: "wp (onPeer (Suc i) (SetInstanceID name)) (\<lambda>_. between st i) t"
    if "between st i t" for name and t :: "('r, 'z) bench_scheme"
    by (rule onPeer_stopped(2)[OF stays_SetInstanceID that])
  show "wp (?run (Suc i)) (\<lambda>r t. oneRuns st t \<and> (\<forall>x. r = Ok x \<longrightarrow> (\<exists>conf. x = rp conf) \<and> between st i t)) s"
    if "chain st (Suc i) i s"
    by (rule wp_mono[OF setupPeer_gives[where ?I0.0 = "chain st (Suc i) i" and ?I1.0 = "between st i"]])
      (use that start named fresh in \<open>auto simp: between_one chain_one, auto simp: between_def chain_def nth_append\<close>)
qed

lemma benchLoop_follows:
  fixes s :: "('r, 'z) bench_scheme"
  assumes contract: "\<And>conf. peer_contract (rp conf) st" and fresh: "st (p_runtime (fresh (rcf_NoMapShared c)))"
    and hooks_only: "\<And>k df s. (dm_step df)\<^sup>*\<^sup>* s (snd (silo k df s))" and "chain st (Suc i) i s"
  shows "wp (benchLoop pe (setupPeer e pe rp fresh c testDir netns enableInput enableOutput)
       (\<lambda>i rpFrom rpTo. migrateNow e pe rpFrom rpTo me (silo i) (lost i) c testDir snapDir i)
       (\<lambda>i rp0. onPeer i (peer_Close pe rp0)) evs ticks i (rp conf)) (\<lambda>_. oneRuns st) s"
  using assms(4)
proof (induction evs arbitrary: ticks i conf s)
  case Nil
  then show ?case by (simp add: doesNotEnd_def wp_panic chain_one)
next
  case (Cons ev evs)
  let ?C = "chain st (Suc (Suc i)) (Suc i) :: ('r, 'z) bench_scheme \<Rightarrow> bool"
  have closed: "wp (attempt (onPeer k (peer_Close pe (rp conf))) h) (\<lambda>_. oneRuns st) t"
    if "chain st (Suc n) n t" "\<And>x u. chain st (Suc n) n u \<Longrightarrow> wp (h x) (\<lambda>_. oneRuns st) u" for k n h conf and t :: "('r, 'z) bench_scheme"
    unfolding wp_attempt
    by (rule wp_mono[OF onPeer_stopped(1)[OF peer_contract.stays_peer_ops(4)[OF contract] that(1)]], simp, rename_tac r u, case_tac r)
      (use that(2) in \<open>auto intro: chain_one\<close>)
  have one: "oneRuns st t" if "chain st (Suc n) n t" for n and t :: "('r, 'z) bench_scheme"
    using that by (rule chain_one) simp
  show ?case
  proof (cases ev)
    case BenchDone
    then show ?thesis by (auto intro!: closed[OF Cons.prems] simp: wp_ret one)
  next
    case TimerFired
    have migrate: "wp (andThen (migrateNow e pe (rp conf) (rp conf') me (silo i) (lost i) c testDir snapDir i) k) (\<lambda>_. oneRuns st) t"
      if "between st i t" "\<And>x u. ?C u \<Longrightarrow> wp (k x) (\<lambda>_. oneRuns st) u" for conf' k and t :: "('r, 'z) bench_scheme"
      unfolding wp_andThen
      by (rule wp_mono[OF migrateNow_follows[OF contract contract hooks_only that(1)]], rename_tac r u, case_tac r)
        (use that(2) in \<open>auto simp: migrated_def\<close>)
    show ?thesis
      unfolding TimerFired benchLoop.simps wp_if
    proof (split if_split, intro conjI impI, rule Cons.IH[OF Cons.prems], rule seq_rest[OF setupPeer_next(2)[where rp = rp and fresh = fresh and c = c, OF contract fresh Cons.prems]], goal_cases)
      case (1 x t)
      then obtain conf' where "x = rp conf'" "between st i t" by blast
      then show ?case by (auto intro!: migrate closed Cons.IH)
    qed simp_all
  qed
qed

text \<open>
  A computation that leaves a part of the state as it is, and one that gives another such computation: namespaces and
  ports, with what undoes them, have nothing to do with the peers.
\<close>

definition leaves :: "('s \<Rightarrow> 'x) \<Rightarrow> ('s, 'a) go \<Rightarrow> bool" where
  "leaves f m \<longleftrightarrow> (\<forall>x. stays_inv (\<lambda>s. f s = x) m)"

definition gives :: "('s \<Rightarrow> 'x) \<Rightarrow> ('a \<Rightarrow> ('s, unit) go) \<Rightarrow> ('s, 'a) go \<Rightarrow> bool" where
  "gives f d m \<longleftrightarrow> leaves f m \<and> (\<forall>s x t. m s = (Ok x, t) \<longrightarrow> leaves f (d x))"

lemma leavesI: "(\<And>x. stays_inv (\<lambda>s. f s = x) m) \<Longrightarrow> leaves f m"
  by (simp add: leaves_def)

lemma leaves_wp: "leaves f m \<Longrightarrow> (\<And>r t. f t = f s \<Longrightarrow> Q r t) \<Longrightarrow> wp m Q s"
  by (rule stays_wp[where I = "\<lambda>t. f t = f s"]) (auto simp: leaves_def)

lemma leaves_at: "(\<And>s. wp m (\<lambda>_ t. f t = f s) s) \<Longrightarrow> leaves f m"
  by (intro leavesI staysI) metis

lemma gives_wp:
  assumes "gives f d m" and "\<And>r t. f t = f s \<Longrightarrow> (\<And>x. r = Ok x \<Longrightarrow> leaves f (d x)) \<Longrightarrow> Q r t"
  shows "wp m Q s"
proof (rule wpI)
  fix r t
  assume "m s = (r, t)"
  moreover have "wp m (\<lambda>_ u. f u = f s) s"
    using assms(1) by (auto simp: gives_def intro: leaves_wp)
  ultimately show "Q r t"
    by (intro assms(2)) (use assms(1) in \<open>auto simp: gives_def wp_def\<close>)
qed

lemma leaves_rules:
  shows leaves_ret: "leaves f (ret x)"
    and leaves_andThen: "leaves f m \<Longrightarrow> (\<And>x. leaves f (k x)) \<Longrightarrow> leaves f (andThen m k)"
    and leaves_orCrash: "leaves f m \<Longrightarrow> (\<And>x. leaves f (k x)) \<Longrightarrow> leaves f (orCrash m k)"
    and leaves_deferring: "leaves f c \<Longrightarrow> leaves f m' \<Longrightarrow> leaves f (deferring c m')"
    and leaves_whenM: "leaves f c \<Longrightarrow> leaves f (whenM b c)"
  unfolding leaves_def by (intro allI stays; blast)+

lemma leaves_given:
  assumes "gives f d m" and "\<And>x. leaves f (d x) \<Longrightarrow> leaves f (k x)"
  shows "leaves f (andThen m k)" "leaves f (orCrash m k)"
proof -
  show "leaves f (andThen m k)"
    by (rule leaves_at, unfold wp_andThen, rule gives_wp[OF assms(1)], rename_tac r t, case_tac r)
      (auto intro: leaves_wp[OF assms(2)])
  show "leaves f (orCrash m k)"
    by (rule leaves_at, unfold orCrash_def wp_attempt, rule gives_wp[OF assms(1)], rename_tac r t, case_tac r)
      (auto simp: wp_panic intro: leaves_wp[OF assms(2)])
qed

text \<open>What is deferred then does not count.\<close>

lemma defer_leaves:
  assumes "leaves j_peers d" and "wp m (\<lambda>_. oneRuns st) s"
  shows "wp (deferring d m) (\<lambda>_. oneRuns st) s"
proof -
  have "wp d (deferredQ r (\<lambda>_. oneRuns st)) t" if "oneRuns st t" for r t
    by (rule leaves_wp[OF assms(1)], rename_tac q u, case_tac q) (use that in \<open>simp_all add: oneRuns_def\<close>)
  then show ?thesis
    unfolding wp_deferring deferQ_unfold by (rule wp_mono[OF assms(2)])
qed

lemma timerOf_keeps: "stays_inv I (timerOf e c)"
  unfolding timerOf_def by (intro stays)

lemma runSilo_follows:
  fixes s :: "('r, 'z) bench_scheme"
  assumes contract: "\<And>conf. peer_contract (rp conf) st" and fresh: "st (p_runtime (fresh (rcf_NoMapShared c)))"
    and hooks_only: "\<And>k df s. (dm_step df)\<^sup>*\<^sup>* s (snd (silo k df s))"
    and ns: "gives j_peers snd ns" and forwards: "\<And>n. gives j_peers (\<lambda>x. x) (forwards n)" and s: "j_peers s = []"
  shows "wp (runSilo e pe rp fresh me silo lost testDir snapDir ns forwards c enableInput enableOutput evs) (\<lambda>_. oneRuns st) s"
proof -
  let ?none = "\<lambda>t :: ('r, 'z) bench_scheme. j_peers t = []" and ?C = "chain st (Suc 0) 0 :: ('r, 'z) bench_scheme \<Rightarrow> bool"
  let ?loop = "\<lambda>netns rp0. andThen (timerOf e c) (\<lambda>ticks.
     benchLoop pe (setupPeer e pe rp fresh c testDir netns enableInput enableOutput)
       (\<lambda>i rpFrom rpTo. migrateNow e pe rpFrom rpTo me (silo i) (lost i) c testDir snapDir i)
       (\<lambda>i rp0. onPeer i (peer_Close pe rp0)) evs ticks 0 rp0)"
  let ?run = "\<lambda>devices netns. andThen (setupPeer e pe rp fresh c testDir netns enableInput enableOutput 0) (\<lambda>rp0.
     andThen (onPeer 0 (MigrateFrom pe rp0 firstHooks devices 0 0 (Inr []))) (\<lambda>_.
     andThen (onPeer 0 (peer_Resume rp0)) (\<lambda>_. ?loop netns rp0)))"
  have one: "oneRuns st t" if "?C t" for t using that by (rule chain_one) simp
  have none: "oneRuns st t" if "?none t" for t using that by (simp add: oneRuns_def)
  have devices: "wp (benchDevicesFrom e me 0 testDir snapDir c) (\<lambda>_. ?none) s"
    by (rule stays_wp[OF stays_benchDevices[where I = ?none] s]) simp_all
  have loop: "wp (?loop netns (rp conf)) (\<lambda>_. oneRuns st) t" if "?C t" for netns conf t
    by (rule seq_rule(1)[where P = ?C, OF stays_wp[OF timerOf_keeps[where I = ?C] that]])
      (auto simp: one intro!: benchLoop_follows assms)
  have resumed: "wp (andThen (onPeer 0 (MigrateFrom pe rp0 firstHooks devices 0 0 (Inr []))) (\<lambda>_.
     andThen (onPeer 0 (peer_Resume rp0)) (\<lambda>_. ?loop netns rp0))) (\<lambda>_. oneRuns st) t"
    if "\<exists>conf. rp0 = rp conf" "?C t" for rp0 devices netns t
    using that(1) by (intro seq_rule(1)[OF onPeer_last[OF that(2)]] seq_rule(1)[OF onPeer_last]) (auto simp: one loop)
  have run: "wp (?run devices netns) (\<lambda>_. oneRuns st) t" if "?none t" for devices netns t
    by (rule seq_rest[OF setupPeer_next(1)[where rp = rp and fresh = fresh and c = c, OF contract fresh that]])
      (auto simp: resumed)
  have opened: "wp (andThen (forwards netns) (\<lambda>fc. deferring (andThen fc (\<lambda>_. nc)) (?run devices netns))) (\<lambda>_. oneRuns st) t"
    if "?none t" "leaves j_peers nc" for devices netns nc t
    unfolding wp_andThen
    by (rule gives_wp[OF forwards], rename_tac r u, case_tac r)
      (use that in \<open>auto simp: none intro!: defer_leaves leaves_andThen run\<close>)
  have claimed: "wp (andThen ns (\<lambda>(netns, nc). andThen (forwards netns) (\<lambda>fc. deferring (andThen fc (\<lambda>_. nc)) (?run devices netns))))
    (\<lambda>_. oneRuns st) t" if "?none t" for devices t
    unfolding wp_andThen[of ns]
    by (rule gives_wp[OF ns], rename_tac r u, case_tac r) (use that in \<open>auto simp: none intro!: opened split: prod.split\<close>)
  show ?thesis
    unfolding runSilo_def Let_def by (rule seq_rule(1)[OF devices]) (auto simp: none claimed)
qed

section \<open>Repetitions\<close>

text \<open>
  Repeating a configuration is not running it several times: with any number of repetitions but one, every
  configuration that is run migrates only once at most, over one pipe, without the failsafe grab and without a prefix
  in S3, whatever was configured; with one repetition the configurations are run as they are.
\<close>

lemma repeated_configs_lose_options:
  assumes "c \<in> set (siloConfigs n base)" and "n \<noteq> 1"
  shows "rcf_MigrateInterval c = [] \<and> \<not> rcf_GrabFailsafe c \<and> rcf_S3Prefix c = [] \<and> numPipes c = 1 \<and>
     fst (timerOf e c s) \<noteq> Ok None \<and> (\<exists>b \<in> set base. \<exists>k < nat n. c = repeated b k)"
proof -
  obtain b k where c: "b \<in> set base" "k < nat n" "c = repeated b k"
    using assms by (auto simp: siloConfigs_def)
  have "fst (timerOf e (repeated b k) s) \<noteq> Ok None"
    by (simp add: timerOf_def repeated_def go_defs split: sum.split)
  then show ?thesis using c by (auto simp: repeated_def numPipes_def)
qed

end
