(* ===== verification/PerfMain.thy ===== *)
theory PerfMain
  imports Commands Benchmark
begin

text \<open>
  The program around the benchmark (\<^verbatim>\<open>cmd/drafter-perf/main.go\<close>, \<^verbatim>\<open>util.go\<close>, \<^verbatim>\<open>runtime-nosilo.go\<close>, \<^verbatim>\<open>cicd.go\<close>,
  \<^verbatim>\<open>valkey.go\<close>): it opens a pool of namespaces, makes a snapshot, runs the benchmark of \<open>Benchmark\<close> for each
  configuration and, if asked to, once without Silo. Here the pool, port forwarding, the snapshotter, the peers and a
  machine without a peer meet in one state; each has its own calls. The benchmark inside the machine runs beside the
  run with Silo, which only sees its end. The numbers of the tables are in \<open>Stats\<close>.
\<close>

section \<open>State\<close>

record 'r perf = "'r bench" +
  pm_pool :: nat_sys
  pm_fwd :: fwd_sys
  pm_machine :: fc_machine           \<comment> \<open>the machine of the run without Silo\<close>

text \<open>
  The environments of the parts; \<open>ph_order\<close> is the order in which the pool's map is met, \<open>ph_route\<close> the interface
  of the default route, \<open>ph_evs\<close> what waiting for the machine of the run without Silo meets.
\<close>

record perf_env = bench_env +
  ph_nat :: nat_env
  ph_fwd :: fwd_env
  ph_fc :: fc_env
  ph_snapshot :: snapshot_run
  ph_order :: "nat_sys \<Rightarrow> string list"
  ph_route :: "goerr + string"
  ph_evs :: "start_event list"

definition onPool :: "(nat_sys, 'a) go \<Rightarrow> (('r, 'z) perf_scheme, 'a) go" where
  "onPool m = (\<lambda>s. case m (pm_pool s) of (r, p) \<Rightarrow> (r, s\<lparr>pm_pool := p\<rparr>))"

definition onForwards :: "(fwd_sys, 'a) go \<Rightarrow> (('r, 'z) perf_scheme, 'a) go" where
  "onForwards m = (\<lambda>s. case m (pm_fwd s) of (r, p) \<Rightarrow> (r, s\<lparr>pm_fwd := p\<rparr>))"

definition onBare :: "(fc_machine, 'a) go \<Rightarrow> (('r, 'z) perf_scheme, 'a) go" where
  "onBare m = (\<lambda>s. case m (pm_machine s) of (r, p) \<Rightarrow> (r, s\<lparr>pm_machine := p\<rparr>))"

section \<open>Namespaces and ports\<close>

text \<open>An error of a closer is only printed.\<close>

abbreviation closer :: "('s, unit) go \<Rightarrow> ('s, unit) go" where
  "closer m \<equiv> attempt m (\<lambda>_. ret ())"

definition perfNat :: "string \<Rightarrow> string \<Rightarrow> nat_config" where
  "perfNat iface pre = natDefaults\<lparr>nc_HostInterface := iface, nc_NamespacePrefix := pre\<rparr>"

definition SetupNAT ::
    "('x) perf_env_scheme \<Rightarrow> string \<Rightarrow> string \<Rightarrow> (('r, 'z) perf_scheme, (('r, 'z) perf_scheme, unit) go) go" where
  "SetupNAT e hostIface pre =
     andThen (if hostIface = [] then (case ph_route e of Inl x \<Rightarrow> throw x | Inr i \<Rightarrow> ret i) else ret hostIface) (\<lambda>i.
     let conf = perfNat i pre in
     andThen (onPool (CreateNAT (ph_nat e) conf loggingHooks 32)) (\<lambda>nt.
     ret (closer (onPool (Namespaces_Close (ph_nat e) conf loggingHooks nt)))))"

definition getNetNs ::
    "('x) perf_env_scheme \<Rightarrow> (('r, 'z) perf_scheme, string \<times> (('r, 'z) perf_scheme, unit) go) go" where
  "getNetNs e = andThen (onPool (reading (ph_order e) ClaimNamespace)) (\<lambda>n.
     ret (n, closer (onPool (ReleaseNamespace n))))"

definition ForwardPort ::
    "('x) perf_env_scheme \<Rightarrow> string \<Rightarrow> string \<Rightarrow> nat \<Rightarrow> nat \<Rightarrow> (('r, 'z) perf_scheme, (('r, 'z) perf_scheme, unit) go) go" where
  "ForwardPort e ns protocol portFrom portTo =
     andThen (onForwards (ForwardPorts (ph_fwd e) loggingForwardHooks [\<lparr>pf_Netns = ns, pf_InternalPort = show_nat portFrom,
       pf_Protocol = protocol, pf_ExternalAddr = ''127.0.0.1:'' @ show_nat portTo\<rparr>])) (\<lambda>ds.
     ret (closer (onForwards (ForwardedPorts_Close (ph_fwd e) loggingForwardHooks ds))))"

text \<open>With an error the closers of the ports that were already forwarded are lost.\<close>

fun doForwards ::
    "('x) perf_env_scheme \<Rightarrow> string \<Rightarrow> (nat \<times> nat) list \<Rightarrow> (('r, 'z) perf_scheme, unit) go list \<Rightarrow>
     (('r, 'z) perf_scheme, (('r, 'z) perf_scheme, unit) go) go" where
  "doForwards e ns [] closers = ret (forEach closers (\<lambda>c. c))"
| "doForwards e ns ((src, dst) # fs) closers = andThen (ForwardPort e ns ''tcp'' src dst) (\<lambda>c.
     doForwards e ns fs (closers @ [c]))"

section \<open>What runs inside the machine\<close>

text \<open>The argument counts the ticks until the timeout.\<close>

fun portCallback :: "('x) journey_env_scheme \<Rightarrow> nat \<Rightarrow> nat \<Rightarrow> (('r, 'z) journey_scheme, unit) go" where
  "portCallback e port 0 = throw (Plain ''never finished'')"
| "portCallback e port (Suc n) = attempt (act e (DialTest (''127.0.0.1:'' @ show_nat port))) (\<lambda>r. case r of
     Inl _ \<Rightarrow> portCallback e port n
   | Inr _ \<Rightarrow> andThen (act e ReadTestConn) (\<lambda>_. act e CloseTestConn))"

definition benchCICD ::
    "('x) journey_env_scheme \<Rightarrow> bool \<Rightarrow> string \<Rightarrow> nat \<Rightarrow> nat \<Rightarrow> (('r, 'z) journey_scheme, unit) go" where
  "benchCICD e profileCPU n ticks1 ticks2 = (let prof = n @ ''.prof'' in
     andThen (portCallback e 4568 ticks1) (\<lambda>_.
     if profileCPU then orCrash (act e (CreateTestFile prof)) (\<lambda>_. orCrash (act e (StartProfile prof)) (\<lambda>_.
       deferring (andThen (actIgnore e StopProfile) (\<lambda>_. orCrash (act e (CloseTestFile prof)) ret))
         (portCallback e 4567 ticks2)))
     else portCallback e 4567 ticks2))"

text \<open>Whether a client was made, in as many tries.\<close>

fun valkeyConnect :: "('x) journey_env_scheme \<Rightarrow> string \<Rightarrow> nat \<Rightarrow> (('r, 'z) journey_scheme, bool) go" where
  "valkeyConnect e addr 0 = ret False"
| "valkeyConnect e addr (Suc n) = attempt (act e (NewValkeyClient addr)) (\<lambda>r. case r of
     Inl _ \<Rightarrow> valkeyConnect e addr n | Inr _ \<Rightarrow> ret True)"

definition valkeyKey :: "nat \<Rightarrow> string" where
  "valkeyKey i = ''key-'' @ show_nat i"

text \<open>\<open>perm\<close> is the random permutation of the keys, for a number that is not negative.\<close>

definition benchValkey ::
    "('x) journey_env_scheme \<Rightarrow> bool \<Rightarrow> string \<Rightarrow> nat \<Rightarrow> int \<Rightarrow> (nat \<Rightarrow> nat list) \<Rightarrow> (('r, 'z) journey_scheme, unit) go" where
  "benchValkey e profileCPU n port iterations perm = (let prof = n @ ''.prof'';
       keys = andThen (valkeyConnect e (''127.0.0.1:'' @ show_nat port) 30) (\<lambda>connected.
         if \<not> connected then throw (Plain ''could not connect'') else
         andThen (forEach [0..<nat iterations] (\<lambda>i. act e (ValkeySet (valkeyKey i)))) (\<lambda>_.
         if iterations < 0 then panic (Plain ''makeslice: len out of range'') else
         andThen (forEach (perm (nat iterations)) (\<lambda>k. act e (ValkeyGet (valkeyKey k)))) (\<lambda>_.
         actIgnore e CloseValkey)))
     in if profileCPU then orCrash (act e (CreateTestFile prof)) (\<lambda>_. orCrash (act e (StartProfile prof)) (\<lambda>_.
          deferring (andThen (actIgnore e StopProfile) (\<lambda>_. actIgnore e (CloseTestFile prof))) keys))
        else keys)"

text \<open>With a valkey benchmark this is what the snapshotter waits for.\<close>

fun valkeyReady :: "('x) journey_env_scheme \<Rightarrow> nat \<Rightarrow> (('r, 'z) journey_scheme, unit) go" where
  "valkeyReady e 0 = throw CtxDeadlineExceeded"
| "valkeyReady e (Suc n) = attempt (act e (DialTest ''127.0.0.1:3333'')) (\<lambda>r. case r of
     Inl _ \<Rightarrow> valkeyReady e n | Inr _ \<Rightarrow> actIgnore e CloseTestConn)"

section \<open>The snapshot\<close>

definition setupPerfSnapshot ::
    "('x) perf_env_scheme \<Rightarrow> string \<Rightarrow> vm_config \<Rightarrow> bool \<Rightarrow> string \<Rightarrow> string \<Rightarrow> (('r, 'z) perf_scheme, unit) go" where
  "setupPerfSnapshot e netns vm ioEngineSync blueDir snapDir = (let sr = ph_snapshot e in
     andThen (findBin e ''firecracker'') (\<lambda>firecrackerBin.
     andThen (findBin e ''jailer'') (\<lambda>jailerBin.
     onHost (CreateSnapshot (sr_env sr) (testSnapshotDevices snapDir blueDir) ioEngineSync vm \<lparr>LivenessVSockPort = 25\<rparr>
       (testSnapshotMachine snapDir netns False firecrackerBin jailerBin)
       \<lparr>nc_Interface = ''tap0'', nc_MAC = ''02:0e:d9:fd:68:3d''\<rparr> \<lparr>AgentVSockPort = 26\<rparr>
       (sr_start sr) (sr_guest sr) (sr_crashed sr) (sr_exit sr)))))"

section \<open>The run without Silo\<close>

definition nosiloFiles :: "string list" where
  "nosiloFiles = [''state'', ''memory'', ''kernel'', ''disk'', ''config'', ''oci'']"

text \<open>The remote is got, and called.\<close>

definition remoteCall :: "('y) fc_env_scheme \<Rightarrow> fc_call \<Rightarrow> (fc_machine, unit) go" where
  "remoteCall fc c = andThen (act fc AgentGetRemote) (\<lambda>_. act fc c)"

text \<open>
  From the resume of the snapshot on. A machine pointer that is nil is used at once.
\<close>

definition nosiloBench ::
    "('x) perf_env_scheme \<Rightarrow> machine_config \<Rightarrow> (('r, 'z) perf_scheme, unit) go \<Rightarrow> (('r, 'z) perf_scheme, unit) go" where
  "nosiloBench e conf bench = (let fc = ph_fc e in
     andThen (onBare (ResumeSnapshot fc conf DeviceStateName DeviceMemoryName)) (\<lambda>_.
     andThen (onBare (reading VMPath (\<lambda>p. act fc (StartAgent (filepath_Join [p, VSockName]) 26)))) (\<lambda>_.
     andThen (onBare (remoteCall fc AgentAfterResume)) (\<lambda>_.
     andThen bench (\<lambda>_.
     andThen (onBare (remoteCall fc AgentBeforeSuspend)) (\<lambda>_.
     onBare (act fc AgentClose)))))))"

definition nosiloMachine ::
    "string \<Rightarrow> string \<Rightarrow> bool \<Rightarrow> string option \<times> string option \<Rightarrow> string \<Rightarrow> string \<Rightarrow> machine_config" where
  "nosiloMachine testDir netns enableInput out firecrackerBin jailerBin =
     (journeyMachine testDir netns firecrackerBin jailerBin)\<lparr>mc_Stdout := fst out, mc_Stderr := snd out,
       mc_Stdin := (if enableInput then Some ''stdin'' else None)\<rparr>"

definition runNonSilo ::
    "('x) perf_env_scheme \<Rightarrow> (('r, 'z) perf_scheme, string \<times> (('r, 'z) perf_scheme, unit) go) go \<Rightarrow>
     (string \<Rightarrow> (('r, 'z) perf_scheme, (('r, 'z) perf_scheme, unit) go) go) \<Rightarrow> string \<Rightarrow> string \<Rightarrow>
     (('r, 'z) perf_scheme, unit) go \<Rightarrow> bool \<Rightarrow> bool \<Rightarrow> (('r, 'z) perf_scheme, unit) go" where
  "runNonSilo e ns forwards testDir snapDir bench enableInput enableOutput =
     andThen (findBin e ''firecracker'') (\<lambda>firecrackerBin.
     andThen (findBin e ''jailer'') (\<lambda>jailerBin.
     andThen ns (\<lambda>(netns, nscloser). deferring nscloser (
     andThen (forwards netns) (\<lambda>fclose. deferring fclose (
     andThen (benchOutput e enableOutput ''nosilo.stdout'') (\<lambda>out.
     deferring (closeOutput e enableOutput ''nosilo.stdout'' out) (
     let conf = nosiloMachine testDir netns enableInput out firecrackerBin jailerBin in
     andThen (onBare (StartFirecrackerMachine (ph_fc e) conf (ph_evs e))) (\<lambda>started.
     if \<not> started then panic NilDeref else
     reading (\<lambda>s. VMPath (pm_machine s)) (\<lambda>vmPath.
     andThen (forEach nosiloFiles (\<lambda>d. act e (LinkTestFile (filepath_Join [snapDir, d]) (filepath_Join [vmPath, d])))) (\<lambda>_.
     nosiloBench e conf bench)))))))))))"

section \<open>The program\<close>

text \<open>
  The flags. \<open>pg_template\<close> and \<open>pg_pvm\<close> are \<open>None\<close> if they are not given and the host's values are used; \<open>pg_silo\<close> is
  what is decoded from the configurations, or the default ones if they are not given.
\<close>

record perf_flags =
  pg_prof :: bool
  pg_testdir :: string
  pg_snapdir :: string
  pg_bluedir :: string
  pg_noCleanup :: bool
  pg_sync :: bool
  pg_cpus :: int
  pg_memory :: int
  pg_template :: "string option"
  pg_pvm :: "bool option"
  pg_enableOutput :: bool
  pg_enableInput :: bool
  pg_nosilo :: bool
  pg_count :: int
  pg_silo :: "(goerr + run_config list) option"
  pg_valkey :: bool
  pg_valkeynum :: int

definition defaultConfig :: "string \<Rightarrow> run_config" where
  "defaultConfig n = \<lparr>rcf_Name = n, rcf_UseCow = True, rcf_UseSharedBase = True, rcf_UseSparseFile = False,
     rcf_UseVolatility = False, rcf_UseWriteCache = False, rcf_WriteCacheMin = [], rcf_WriteCacheMax = [],
     rcf_WriteCacheBlocksize = [], rcf_BlockSize = 1024 * 1024, rcf_GrabPeriod = 0, rcf_NoMapShared = True,
     rcf_GrabFailsafe = False, rcf_DirectMemory = True, rcf_S3Sync = False, rcf_S3Secure = False, rcf_S3SecretKey = [],
     rcf_S3Endpoint = [], rcf_S3Concurrency = 0, rcf_S3Bucket = [], rcf_S3AccessKey = [], rcf_S3Prefix = [],
     rcf_S3BlockShift = 0, rcf_S3OnlyDirty = False, rcf_S3MaxAge = [], rcf_S3MinChanged = 0, rcf_S3Limit = 0,
     rcf_S3CheckPeriod = [], rcf_MigrateAfter = ''90s'', rcf_MigrateInterval = [], rcf_MigrationCompression = True,
     rcf_MigrationConcurrency = 0, rcf_NumPipes = 0, rcf_VMCPUs = 0, rcf_VMMemory = 0\<rparr>"

definition defaultConfigs :: "run_config list" where
  "defaultConfigs = map defaultConfig [''silo_plain'', ''silo'']"

definition perfPorts :: "bool \<Rightarrow> (nat \<times> nat) list" where
  "perfPorts valkey = (if valkey then [(6379, 3333)] else [(4567, 4567), (4568, 4568)])"

definition perfVM :: "string \<Rightarrow> string \<Rightarrow> perf_flags \<Rightarrow> string \<Rightarrow> bool \<Rightarrow> vm_config" where
  "perfVM bootArgs bootArgsNoPVM fl template pvm = \<lparr>vc_CPUCount = pg_cpus fl, vc_MemorySize = pg_memory fl,
     vc_CPUTemplate = (case pg_template fl of Some t \<Rightarrow> t | None \<Rightarrow> template),
     vc_BootArgs = (if (case pg_pvm fl of Some b \<Rightarrow> b | None \<Rightarrow> pvm) then bootArgs else bootArgsNoPVM)\<rparr>"

text \<open>The snapshot is made in an empty directory, with a namespace and ports of its own.\<close>

definition perfSnapshot ::
    "('x) perf_env_scheme \<Rightarrow> vm_config \<Rightarrow> perf_flags \<Rightarrow> (('r, 'z) perf_scheme, unit) go" where
  "perfSnapshot e vm fl =
     orCrash (act e (RemoveTestDir (pg_snapdir fl))) (\<lambda>_.
     orCrash (act e (MakeTestDir (pg_snapdir fl))) (\<lambda>_.
     orCrash (getNetNs e) (\<lambda>(snapNs, snapNsCloser).
     orCrash (doForwards e snapNs (perfPorts (pg_valkey fl)) []) (\<lambda>fcloser.
     orCrash (setupPerfSnapshot e snapNs vm (pg_sync fl) (pg_bluedir fl) (pg_snapdir fl)) (\<lambda>_.
     andThen fcloser (\<lambda>_. snapNsCloser))))))"

text \<open>
  One configuration after the other, each with new peers. \<open>runs\<close> is what each run with Silo is; an error of one ends
  the program.
\<close>

definition runConfigs ::
    "(run_config \<Rightarrow> (('r, 'z) perf_scheme, unit) go) \<Rightarrow> run_config list \<Rightarrow> (('r, 'z) perf_scheme, unit) go" where
  "runConfigs runs confs = forEach confs (\<lambda>c.
     andThen (update (\<lambda>s. s\<lparr>j_peers := []\<rparr>)) (\<lambda>_. orCrash (runs c) ret))"

text \<open>\<open>bench\<close> is the benchmark of the run without Silo; its error ends the program there.\<close>

definition perf_main ::
    "('x) perf_env_scheme \<Rightarrow> ('y) peer_env_scheme \<Rightarrow> (rt_config \<Rightarrow> ('r, 'w) runtime_provider_scheme) \<Rightarrow> (bool \<Rightarrow> 'r peer) \<Rightarrow>
     ('v) mig_env_scheme \<Rightarrow> (nat \<Rightarrow> 'r peer silo_dirty) \<Rightarrow> (nat \<Rightarrow> goerr) \<Rightarrow> string \<Rightarrow> string \<Rightarrow>
     (run_config \<Rightarrow> bench_event list) \<Rightarrow> nat \<Rightarrow> nat \<Rightarrow> (nat \<Rightarrow> nat list) \<Rightarrow> perf_flags \<Rightarrow> (('r, 'z) perf_scheme, unit) go" where
  "perf_main e pe rp fresh me silo lost bootArgs bootArgsNoPVM evs ticks1 ticks2 perm fl =
     orCrash (onBare (GetCPUTemplate (ph_fc e))) (\<lambda>template.
     orCrash (onBare (IsPVMHost (ph_fc e))) (\<lambda>pvm.
     (case (case pg_silo fl of None \<Rightarrow> Inr defaultConfigs | Some c \<Rightarrow> c) of Inl x \<Rightarrow> panic x | Inr base \<Rightarrow>
     orCrash (act e (MakeTestDir (pg_testdir fl))) (\<lambda>_.
     deferring (whenM (\<not> pg_noCleanup fl) (actIgnore e (RemoveTestDir (pg_testdir fl)))) (
     orCrash (SetupNAT e [] ''dra'') (\<lambda>natCloser. deferring natCloser (
     andThen (perfSnapshot e (perfVM bootArgs bootArgsNoPVM fl template pvm) fl) (\<lambda>_.
     let forwards = (\<lambda>ns. doForwards e ns (perfPorts (pg_valkey fl)) []) in
     andThen (runConfigs (\<lambda>c. runSilo e pe rp fresh me silo lost (pg_testdir fl) (pg_snapdir fl) (getNetNs e) forwards c
       (pg_enableInput fl) (pg_enableOutput fl) (evs c)) (siloConfigs (pg_count fl) base)) (\<lambda>_.
     whenM (pg_nosilo fl) (orCrash (runNonSilo e (getNetNs e) forwards (pg_testdir fl) (pg_snapdir fl)
       (orCrash (if pg_valkey fl then benchValkey e (pg_prof fl) ''nosilo'' 3333 (pg_valkeynum fl) perm
         else benchCICD e (pg_prof fl) ''nosilo'' ticks1 ticks2) ret)
       (pg_enableInput fl) (pg_enableOutput fl)) ret))))))))))"

section \<open>Following the peers\<close>

lemma stays_parts [stays]:
  fixes I :: "('r, 'z) perf_scheme \<Rightarrow> bool"
  shows "(\<And>s f. I s \<Longrightarrow> I (pm_pool_update f s)) \<Longrightarrow> stays_inv I (onPool pool)"
    "(\<And>s f. I s \<Longrightarrow> I (pm_fwd_update f s)) \<Longrightarrow> stays_inv I (onForwards fwd)"
    "(\<And>s f. I s \<Longrightarrow> I (pm_machine_update f s)) \<Longrightarrow> stays_inv I (onBare machine)"
    "(\<And>s f. I s \<Longrightarrow> I (j_host_update f s)) \<Longrightarrow> stays_inv I (onHost host)"
  by (auto simp: stays_inv_def onPool_def onForwards_def onBare_def onHost_def split: prod.splits)

lemma gives_getNetNs:
  fixes f :: "('r, 'z) perf_scheme \<Rightarrow> 'x"
  assumes "\<And>s g. f (pm_pool_update g s) = f s"
  shows "gives f snd (getNetNs e)"
proof -
  have "leaves f (getNetNs e)"
    unfolding getNetNs_def by (intro leavesI stays) (simp add: assms)
  moreover have "leaves f (closer (onPool m))" for m
    by (intro leavesI stays) (simp add: assms)
  ultimately show ?thesis
    by (auto simp: gives_def getNetNs_def andThen_Ok_iff ret_def)
qed

lemma gives_SetupNAT:
  fixes f :: "('r, 'z) perf_scheme \<Rightarrow> 'x"
  assumes "\<And>s g. f (pm_pool_update g s) = f s"
  shows "gives f (\<lambda>x. x) (SetupNAT e i pre)"
proof -
  have "leaves f (SetupNAT e i pre)"
    unfolding SetupNAT_def Let_def by (intro leavesI stays) (simp add: assms)
  moreover have "leaves f (closer (onPool m))" for m
    by (intro leavesI stays) (simp add: assms)
  ultimately show ?thesis
    by (auto simp: gives_def SetupNAT_def andThen_Ok_iff ret_def Let_def)
qed

lemma gives_ForwardPort:
  fixes f :: "('r, 'z) perf_scheme \<Rightarrow> 'x"
  assumes "\<And>s g. f (pm_fwd_update g s) = f s"
  shows "gives f (\<lambda>x. x) (ForwardPort e ns protocol src dst)"
proof -
  have "leaves f (ForwardPort e ns protocol src dst)"
    unfolding ForwardPort_def by (intro leavesI stays) (simp add: assms)
  moreover have "leaves f (closer (onForwards m))" for m
    by (intro leavesI stays) (simp add: assms)
  ultimately show ?thesis
    by (auto simp: gives_def ForwardPort_def andThen_Ok_iff ret_def)
qed

lemma gives_doForwards:
  fixes f :: "('r, 'z) perf_scheme \<Rightarrow> 'x"
  assumes f: "\<And>s g. f (pm_fwd_update g s) = f s"
  shows "\<forall>c \<in> set closers. leaves f c \<Longrightarrow> gives f (\<lambda>x. x) (doForwards e ns fs closers)"
proof (induction fs arbitrary: closers)
  case Nil
  then have "leaves f (forEach closers (\<lambda>c. c))"
    by (auto simp: leaves_def intro!: stays_forEach)
  then show ?case by (simp add: gives_def leaves_ret) (simp add: ret_def)
next
  case (Cons p fs)
  have step: "gives f (\<lambda>x. x) (doForwards e ns fs (closers @ [c]))" if "leaves f c" for c
    by (rule Cons.IH) (use Cons.prems that in auto)
  show ?case
  proof (cases p)
    case (Pair src dst)
    note port = gives_ForwardPort[of f e ns "''tcp''" src dst, OF f]
    have "leaves f (doForwards e ns (p # fs) closers)"
      unfolding Pair doForwards.simps
      by (rule leaves_given(1)[OF port]) (use step in \<open>auto simp: gives_def\<close>)
    moreover have "leaves f x" if "doForwards e ns (p # fs) closers s = (Ok x, t)" for s x t
      using that step port[unfolded gives_def]
      unfolding Pair doForwards.simps andThen_Ok_iff gives_def by blast
    ultimately show ?thesis by (simp add: gives_def)
  qed
qed

lemma leaves_machine_parts:
  shows "leaves j_peers (findBin e n :: (('r, 'z) perf_scheme, _) go)"
    "leaves j_peers (benchOutput e out name :: (('r, 'z) perf_scheme, _) go)"
    "leaves j_peers (closeOutput e out name p :: (('r, 'z) perf_scheme, _) go)"
    "leaves j_peers (onBare m :: (('r, 'z) perf_scheme, _) go)"
    "leaves j_peers (act e c :: (('r, 'z) perf_scheme, _) go)"
    "leaves j_peers (actIgnore e c :: (('r, 'z) perf_scheme, _) go)"
  unfolding findBin_def benchOutput_def closeOutput_def by (intro leavesI stays; simp)+

lemma leaves_benchmarks:
  shows "leaves j_peers (benchCICD e b n k l :: (('r, 'z) perf_scheme, _) go)"
    "leaves j_peers (benchValkey e b n port i perm :: (('r, 'z) perf_scheme, _) go)"
proof -
  have port: "stays_inv (\<lambda>s :: ('r, 'z) perf_scheme. j_peers s = ps) (portCallback e port k)" for ps port k
    by (induction k) (auto intro!: stays)
  show "leaves j_peers (benchCICD e b n k l :: (('r, 'z) perf_scheme, _) go)"
    unfolding benchCICD_def Let_def by (intro leavesI stays port; simp)
  have connect: "stays_inv (\<lambda>s :: ('r, 'z) perf_scheme. j_peers s = ps) (valkeyConnect e addr k)" for ps addr k
    by (induction k) (auto intro!: stays)
  show "leaves j_peers (benchValkey e b n port i perm :: (('r, 'z) perf_scheme, _) go)"
    unfolding benchValkey_def Let_def by (intro leavesI stays connect; simp)
qed

lemma leaves_runNonSilo:
  assumes ns: "gives j_peers snd ns" and forwards: "\<And>n. gives j_peers (\<lambda>x. x) (forwards n)" and bench: "leaves j_peers bench"
  shows "leaves j_peers (runNonSilo e ns forwards testDir snapDir bench enableInput enableOutput :: (('r, 'z) perf_scheme, _) go)"
proof -
  have run: "leaves j_peers (nosiloBench e conf bench)" for conf
    unfolding nosiloBench_def Let_def by (intro leaves_andThen leaves_machine_parts bench)
  have machine: "leaves j_peers (andThen (onBare (StartFirecrackerMachine (ph_fc e) conf (ph_evs e))) (\<lambda>started.
     if \<not> started then panic NilDeref else
     reading (\<lambda>s. VMPath (pm_machine s)) (\<lambda>vmPath.
     andThen (forEach nosiloFiles (\<lambda>d. act e (LinkTestFile (filepath_Join [snapDir, d]) (filepath_Join [vmPath, d])))) (\<lambda>_.
     nosiloBench e conf bench))))" for conf
    by (intro leavesI stays; simp add: run[unfolded leaves_def])
  show ?thesis
    unfolding runNonSilo_def Let_def case_prod_beta
    by (intro leaves_andThen leaves_deferring leaves_given(1)[OF ns] leaves_given(1)[OF forwards] leaves_machine_parts machine)
qed

lemma leaves_perfSnapshot: "leaves j_peers (perfSnapshot e vm fl :: (('r, 'z) perf_scheme, _) go)"
proof -
  have snapshot: "leaves j_peers (setupPerfSnapshot e netns vm sync blueDir snapDir :: (('r, 'z) perf_scheme, _) go)" for netns sync blueDir snapDir
    unfolding setupPerfSnapshot_def findBin_def Let_def by (intro leavesI stays; simp)
  show ?thesis
    unfolding perfSnapshot_def case_prod_beta
    by (intro leaves_orCrash leaves_machine_parts leaves_given(2)[OF gives_getNetNs] leaves_given(2)[OF gives_doForwards] snapshot leaves_andThen)
      auto
qed

lemma leaves_keeps: "leaves j_peers m \<Longrightarrow> oneRuns st s \<Longrightarrow> wp m (\<lambda>_. oneRuns st) s"
  by (rule leaves_wp[where f = j_peers]) (simp_all add: oneRuns_def)

text \<open>Each run starts with no peers of its own.\<close>

lemma runConfigs_follows:
  fixes s :: "('r, 'z) perf_scheme"
  assumes "oneRuns st s"
    and "\<And>c t. c \<in> set confs \<Longrightarrow> j_peers t = [] \<Longrightarrow> wp (runs c) (\<lambda>_. oneRuns st) (t :: ('r, 'z) perf_scheme)"
  shows "wp (runConfigs runs confs) (\<lambda>_. oneRuns st) s"
  unfolding runConfigs_def
proof (rule wp_forEach[where I = "oneRuns st"])
  show "wp (andThen (update (\<lambda>s. s\<lparr>j_peers := []\<rparr>)) (\<lambda>_. orCrash (runs c) ret))
      (loopQ (oneRuns st) (\<lambda>_. oneRuns st)) t" if "c \<in> set confs" for c t
    unfolding wp_andThen wp_update thenQ.simps orCrash_def wp_attempt
    by (rule wp_mono[OF assms(2)[OF that]], simp, rename_tac r u, case_tac r) (simp_all add: wp_ret wp_panic)
qed (simp_all add: assms(1))

lemma perf_main_follows:
  fixes s :: "('r, 'z) perf_scheme"
  assumes contract: "\<And>conf. peer_contract (rp conf) st" and fresh: "\<And>b. st (p_runtime (fresh b))"
    and hooks_only: "\<And>k df s. (dm_step df)\<^sup>*\<^sup>* s (snd (silo k df s))" and s: "oneRuns st s"
  shows "wp (perf_main e pe rp fresh me silo lost bootArgs bootArgsNoPVM evs ticks1 ticks2 perm fl) (\<lambda>_. oneRuns st) s"
proof -
  let ?I = "oneRuns st :: ('r, 'z) perf_scheme \<Rightarrow> bool"
  let ?fwd = "\<lambda>ns. doForwards e ns (perfPorts (pg_valkey fl)) []"
  let ?run = "\<lambda>c. runSilo e pe rp fresh me silo lost (pg_testdir fl) (pg_snapdir fl) (getNetNs e) ?fwd c
     (pg_enableInput fl) (pg_enableOutput fl) (evs c)"
  let ?bare = "whenM (pg_nosilo fl) (orCrash (runNonSilo e (getNetNs e) ?fwd (pg_testdir fl) (pg_snapdir fl)
     (orCrash (if pg_valkey fl then benchValkey e (pg_prof fl) ''nosilo'' 3333 (pg_valkeynum fl) perm
       else benchCICD e (pg_prof fl) ''nosilo'' ticks1 ticks2) ret)
     (pg_enableInput fl) (pg_enableOutput fl)) ret) :: (('r, 'z) perf_scheme, unit) go"
  have fwd: "gives j_peers (\<lambda>x. x) (?fwd ns :: (('r, 'z) perf_scheme, _) go)" for ns by (rule gives_doForwards) simp_all
  have bench: "leaves j_peers (orCrash (if v then benchValkey e (pg_prof fl) ''nosilo'' 3333 (pg_valkeynum fl) perm
      else benchCICD e (pg_prof fl) ''nosilo'' ticks1 ticks2) ret :: (('r, 'z) perf_scheme, unit) go)" for v
    by (intro leaves_orCrash leaves_ret) (simp add: leaves_benchmarks)
  have bare: "leaves j_peers ?bare"
    by (intro leaves_whenM leaves_orCrash leaves_runNonSilo gives_getNetNs fwd bench leaves_ret) simp
  have runs: "wp (runConfigs ?run confs) (\<lambda>_. ?I) t" if "?I t" for confs t
    by (rule runConfigs_follows[OF that]) (rule runSilo_follows[OF contract fresh hooks_only gives_getNetNs fwd]; simp)
  have served: "wp (deferring closer (andThen (perfSnapshot e vm fl) (\<lambda>_. andThen (runConfigs ?run confs) (\<lambda>_. ?bare)))) (\<lambda>_. ?I) t"
    if "?I t" "leaves j_peers closer" for vm confs closer t
    by (intro defer_leaves that seq_rule(1)[OF leaves_keeps[OF leaves_perfSnapshot]] seq_rule(1)[OF runs] leaves_keeps[OF bare]) (simp_all add: that)
  have nat: "wp (orCrash (SetupNAT e [] ''dra'') (\<lambda>closer. deferring closer
      (andThen (perfSnapshot e vm fl) (\<lambda>_. andThen (runConfigs ?run confs) (\<lambda>_. ?bare))))) (\<lambda>_. ?I) t"
    if "?I t" for vm confs t
  proof -
    have same: "?I u" if "j_peers u = j_peers t" for u using \<open>?I t\<close> that by (simp add: oneRuns_def)
    have given: "gives j_peers (\<lambda>x. x) (SetupNAT e [] ''dra'' :: (('r, 'z) perf_scheme, _) go)"
      by (rule gives_SetupNAT) simp
    show ?thesis
      unfolding orCrash_def[of "SetupNAT e [] ''dra''"] wp_attempt
      by (rule gives_wp[OF given], rename_tac r u, case_tac r) (simp_all add: same served wp_panic)
  qed
  have clean: "leaves j_peers (whenM b (actIgnore e c) :: (('r, 'z) perf_scheme, unit) go)" for b c
    by (intro leaves_whenM leaves_machine_parts)
  have dir: "wp (orCrash (act e c) (\<lambda>_. deferring (whenM b (actIgnore e d)) (orCrash (SetupNAT e [] ''dra'') (\<lambda>closer.
      deferring closer (andThen (perfSnapshot e vm fl) (\<lambda>_. andThen (runConfigs ?run confs) (\<lambda>_. ?bare))))))) (\<lambda>_. ?I) t"
    if "?I t" for c b d vm confs t
    by (intro seq_rule(2)[OF leaves_keeps[OF leaves_machine_parts(5) that]] defer_leaves clean nat)
  let ?base = "case pg_silo fl of None \<Rightarrow> Inr defaultConfigs | Some c \<Rightarrow> c"
  show ?thesis
    unfolding perf_main_def Let_def
    by (intro seq_rule(2)[OF leaves_keeps[OF leaves_machine_parts(4)]]; (rule s | assumption | cases ?base; simp only: sum.case wp_panic dir)?)
qed

section \<open>The machine of the run without Silo\<close>

definition alive :: "('z) fc_machine_scheme \<Rightarrow> bool" where
  "alive m \<longleftrightarrow> \<not> machine_closed m \<and> cmdErr m = None"

lemma started_alive: "wp (StartFirecrackerMachine e conf evs) (if_ok (\<lambda>started s. started \<longrightarrow> alive s)) s"
  for s :: "('z) fc_machine_scheme"
proof -
  have "wp (waitForSocket e sock evs) (if_ok (\<lambda>started s. started \<longrightarrow> alive s)) t"
    if "cmdErr t = None" "\<not> machine_closed t" for sock and t :: "('z) fc_machine_scheme"
    by (rule wp_mono[OF waitForSocket_wp[OF that(1)]], rename_tac r u, case_tac r) (use that(2) in \<open>auto simp: alive_def\<close>)
  then show ?thesis
    unfolding StartFirecrackerMachine_def Let_def by (intro ok_rules) (simp add: if_ok_weaken)
qed

lemma alive_parts:
  shows "leaves f m \<Longrightarrow> stays_inv (\<lambda>s. P (f s)) m"
    and "stays_inv P m' \<Longrightarrow> stays_inv (\<lambda>t. P (pm_machine t)) (onBare m')"
proof -
  show "leaves f m \<Longrightarrow> stays_inv (\<lambda>s. P (f s)) m"
    by (rule staysI, rule leaves_wp[of f m], assumption) metis
  show "stays_inv P m' \<Longrightarrow> stays_inv (\<lambda>t. P (pm_machine t)) (onBare m')"
    by (auto simp: stays_inv_def onBare_def split: prod.splits)
qed

lemma ok_onBare:
  "wp m (if_ok P) (pm_machine t) \<Longrightarrow> wp (onBare m) (if_ok (\<lambda>x t. P x (pm_machine t))) t"
  by (auto simp: wp_def onBare_def if_ok_def split: prod.splits res.splits)

lemma ok_then: "(\<And>x t. wp (k x) (if_ok P) t) \<Longrightarrow> wp (andThen m k) (if_ok P) s"
  by (rule ok_andThen(1), rule if_okI)

lemma ok_given:
  "gives f d m \<Longrightarrow> (\<And>x t. leaves f (d x) \<Longrightarrow> wp (k x) (if_ok P) t) \<Longrightarrow> wp (andThen m k) (if_ok P) s"
  by (rule ok_andThen(1), rule gives_wp, assumption, rename_tac r t, case_tac r) simp_all

lemma ok_defer_leaves:
  "leaves f d \<Longrightarrow> wp m (if_ok (\<lambda>_ t. P (f t))) s \<Longrightarrow> wp (deferring d m) (if_ok (\<lambda>_ t. P (f t))) s"
  by (rule ok_deferring, erule if_ok_weaken, rule leaves_wp, assumption) (simp add: if_calm_def)

lemma perf_trace [simp]: "pm_machine (trace_update g s) = pm_machine s"
  by (cases s) simp

lemma leaves_machine:
  shows "leaves pm_machine (findBin e n :: (('r, 'z) perf_scheme, _) go)"
    "leaves pm_machine (benchOutput e out name :: (('r, 'z) perf_scheme, _) go)"
    "leaves pm_machine (closeOutput e out name p :: (('r, 'z) perf_scheme, _) go)"
    "leaves pm_machine (act e c :: (('r, 'z) perf_scheme, _) go)"
  unfolding findBin_def benchOutput_def closeOutput_def by (intro leavesI stays; simp)+

lemma runNonSilo_leaves_machine:
  fixes s :: "('r, 'z) perf_scheme"
  assumes bench: "leaves pm_machine bench"
  shows "wp (runNonSilo e (getNetNs e) (\<lambda>ns. doForwards e ns ports []) testDir snapDir bench enableInput enableOutput)
     (if_ok (\<lambda>_ t. alive (pm_machine t))) s"
proof -
  let ?A = "\<lambda>t :: ('r, 'z) perf_scheme. alive (pm_machine t)"
  have api: "stays_inv alive (ResumeSnapshot fc conf a b)" "stays_inv alive (remoteCall fc c)" "stays_inv alive (act fc c)"
    "stays_inv alive (reading VMPath (\<lambda>p. act fc (call p)))"
    for fc :: fc_env and conf a b c and call :: "string \<Rightarrow> fc_call"
    unfolding ResumeSnapshot_def remoteCall_def by (intro stays; simp add: alive_def)+
  have run: "stays_inv ?A (nosiloBench e conf bench)" for conf
    unfolding nosiloBench_def Let_def
    by (intro stays_andThen alive_parts(2) api alive_parts(1)[OF bench])
  have link: "stays_inv ?A (forEach nosiloFiles (\<lambda>d. act e (LinkTestFile (f d) (g d))))" for f g
    by (intro stays; simp)
  have started: "wp (andThen (onBare (StartFirecrackerMachine (ph_fc e) conf (ph_evs e))) (\<lambda>started.
     if \<not> started then panic NilDeref else
     reading (\<lambda>s. VMPath (pm_machine s)) (\<lambda>vmPath.
     andThen (forEach nosiloFiles (\<lambda>d. act e (LinkTestFile (filepath_Join [snapDir, d]) (filepath_Join [vmPath, d])))) (\<lambda>_.
     nosiloBench e conf bench)))) (if_ok (\<lambda>_. ?A)) t" for conf t
    by (intro ok_andThen(1) if_ok_weaken[OF ok_onBare[OF started_alive]])
      (auto simp: wp_panic wp_reading if_ok_def intro!: stays_wp[OF stays_andThen(1)[OF link run]] split: res.split)
  show ?thesis
    unfolding runNonSilo_def Let_def case_prod_beta
    by (rule ok_then, rule ok_then, rule ok_given[where f = pm_machine, OF gives_getNetNs], simp, rule ok_defer_leaves, assumption,
        rule ok_given[where f = pm_machine, OF gives_doForwards], simp, simp, rule ok_defer_leaves, assumption,
        rule ok_then, rule ok_defer_leaves, rule leaves_machine(3), rule started)
qed

section \<open>Properties\<close>

text \<open>
  C10. Whatever the configurations, and whatever the pool, the snapshot, the devices, the pipes and the other calls do,
  whenever the timer fires and whatever the machine's memory holds, at no end of the program two peers of a run have a
  machine that runs: the machine that arrived is resumed only once the one that was sent is stopped, errors included.
\<close>

theorem perf_runs_one_machine:
  fixes s :: "(rt_sys, 'z) perf_scheme"
  assumes "\<And>k df s. (dm_step df)\<^sup>*\<^sup>* s (snd (silo k df s))" and "\<And>b. \<not> rt_running (p_runtime (fresh b))"
    and "j_peers s = []"
  shows "wp (perf_main e pe (\<lambda>conf. firecrackerRuntime fe conf start exit) fresh me silo lost bootArgs bootArgsNoPVM
       evs ticks1 ticks2 perm fl)
     (\<lambda>_ s'. \<forall>i j. i < j \<and> j < length (j_peers s') \<longrightarrow>
        \<not> rt_running (p_runtime (j_peers s' ! i)) \<or> \<not> rt_running (p_runtime (j_peers s' ! j))) s"
  by (rule wp_mono[OF perf_main_follows[where st = "\<lambda>x. \<not> rt_running x" and fresh = fresh]])
    (simp_all add: firecracker.peer_contract_axioms assms oneRuns_def)

section \<open>Examples\<close>

definition bench_demo :: bench_env where
  "bench_demo = journey_env.extend journey_demo \<lparr>sentMemory = (\<lambda>_ _. (0, [])),
     arrivedMemory = (\<lambda>_ _. (0, [])), availability = (\<lambda>_ _. (1, 1)), parseDuration = (\<lambda>_. Inr 90)\<rparr>"

definition silo_config :: run_config where
  "silo_config = \<lparr>rcf_Name = ''silo'', rcf_UseCow = True, rcf_UseSharedBase = True, rcf_UseSparseFile = False,
     rcf_UseVolatility = False, rcf_UseWriteCache = False, rcf_WriteCacheMin = [], rcf_WriteCacheMax = [],
     rcf_WriteCacheBlocksize = [], rcf_BlockSize = 1024 * 1024, rcf_GrabPeriod = 0, rcf_NoMapShared = True,
     rcf_GrabFailsafe = True, rcf_DirectMemory = True, rcf_S3Sync = False, rcf_S3Secure = False, rcf_S3SecretKey = [],
     rcf_S3Endpoint = [], rcf_S3Concurrency = 0, rcf_S3Bucket = [], rcf_S3AccessKey = [], rcf_S3Prefix = [],
     rcf_S3BlockShift = 0, rcf_S3OnlyDirty = False, rcf_S3MaxAge = [], rcf_S3MinChanged = 0, rcf_S3Limit = 0,
     rcf_S3CheckPeriod = [], rcf_MigrateAfter = ''90s'', rcf_MigrateInterval = ''30s'', rcf_MigrationCompression = True,
     rcf_MigrationConcurrency = 0, rcf_NumPipes = 2, rcf_VMCPUs = 1, rcf_VMMemory = 1024\<rparr>"

definition perf_start :: "rt_sys perf" where
  "perf_start = bench.extend (journey.extend journey_start (bench.fields \<lparr>trace = []\<rparr>))
     (perf.fields empty_nat fwd_demo_start fc_start)"

definition fresh_bench :: "bool \<Rightarrow> rt_sys peer" where
  "fresh_bench grab = peer_fresh\<lparr>p_runtime := (p_runtime peer_fresh)\<lparr>rt_GrabMemory := grab\<rparr>\<rparr>"

definition perf_demo :: perf_env where
  "perf_demo = bench_env.extend bench_demo (perf_env.fields calm_nat fwd_demo
     ((fc_demo None)\<lparr>hostFile := \<lambda>_. ''vendor_id : GenuineIntel''\<rparr>) run_demo (\<lambda>p. map fst (claimable p)) (Inr ''eth0'') [Tick])"

definition perf_flags_demo :: perf_flags where
  "perf_flags_demo = \<lparr>pg_prof = False, pg_testdir = ''testdir'', pg_snapdir = ''snapdir'', pg_bluedir = ''bluedir'',
     pg_noCleanup = False, pg_sync = True, pg_cpus = 1, pg_memory = 1024, pg_template = None, pg_pvm = None,
     pg_enableOutput = False, pg_enableInput = False, pg_nosilo = True, pg_count = 1, pg_silo = Some (Inr [silo_config]),
     pg_valkey = False, pg_valkeynum = 1000\<rparr>"

theorem perf_runs_one_machine_witness:
  "\<exists>r s. perf_main perf_demo peer_demo (\<lambda>conf. firecrackerRuntime (rt_demo None) conf [Tick] (Some (MachineErr ErrSignalKilled)))
       fresh_bench mig_demo (\<lambda>_. one_cycle) (\<lambda>_. IoEOF) ''console=ttyS0'' ''console=ttyS0'' (\<lambda>_. [TimerFired, BenchDone])
       1 1 (\<lambda>n. [0..<n]) perf_flags_demo perf_start = (r, s) \<and>
     (\<forall>i j. i < j \<and> j < length (j_peers s) \<longrightarrow>
        \<not> rt_running (p_runtime (j_peers s ! i)) \<or> \<not> rt_running (p_runtime (j_peers s ! j)))"
proof -
  have start: "\<not> rt_running (p_runtime (fresh_bench b))" "j_peers perf_start = []" for b
    using fresh_start by (simp_all add: fresh_bench_def perf_start_def journey.defs bench.defs perf.defs journey_start_def)
  show ?thesis
    using perf_runs_one_machine[of "\<lambda>_. one_cycle" fresh_bench perf_start perf_demo peer_demo "rt_demo None" "[Tick]"
        "Some (MachineErr ErrSignalKilled)" mig_demo "\<lambda>_. IoEOF" "''console=ttyS0''" "''console=ttyS0''"
        "\<lambda>_. [TimerFired, BenchDone]" 1 1 "\<lambda>n. [0..<n]" perf_flags_demo, OF one_cycle_hooks_only start]
    unfolding wp_def by (auto split: prod.splits)
qed

end
