(* ===== verification/Stats.thy ===== *)
theory Stats
  imports Benchmark "HOL-Library.Word"
begin

unbundle bit_operations_syntax

text \<open>
  The numbers that the benchmark shows: the metrics that keep what Silo gives them (\<^verbatim>\<open>pkg/testutil/dummy_metrics.go\<close>),
  what is computed from them for each device (\<^verbatim>\<open>cmd/drafter-perf/output.go\<close>) and for each migration (the table in
  \<^verbatim>\<open>migrateNow\<close>, \<^verbatim>\<open>runtime-silo.go\<close>). Printing the tables is left out. Silo's objects are type variables, and functions read
  their numbers, which are 64-bit words.
\<close>

section \<open>Metrics that are kept\<close>

type_synonym 'v by_id = "string \<rightharpoonup> (string \<rightharpoonup> 'v)"

record ('m, 'c, 'y, 's, 'p, 't, 'f) dummy_metrics =
  metricsById :: "'m by_id"
  cowById :: "'c by_id"
  syncerById :: "'y by_id"
  s3ById :: "'s by_id"
  protocolById :: "'p by_id"
  toProtocolById :: "'t by_id"
  fromProtocolById :: "'f by_id"

definition NewDummyMetrics :: "('m, 'c, 'y, 's, 'p, 't, 'f) dummy_metrics" where
  "NewDummyMetrics = \<lparr>metricsById = Map.empty, cowById = Map.empty, syncerById = Map.empty, s3ById = Map.empty,
     protocolById = Map.empty, toProtocolById = Map.empty, fromProtocolById = Map.empty\<rparr>"

text \<open>Every getter and every adder does the same with its own map.\<close>

definition getById :: "'v by_id \<Rightarrow> string \<Rightarrow> string \<Rightarrow> 'v option" where
  "getById m i n = (case m i of None \<Rightarrow> None | Some byid \<Rightarrow> byid n)"

definition addById :: "'v by_id \<Rightarrow> string \<Rightarrow> string \<Rightarrow> 'v \<Rightarrow> 'v by_id" where
  "addById m i n v = (let byid = (case m i of None \<Rightarrow> Map.empty | Some byid \<Rightarrow> byid) in m(i \<mapsto> byid(n \<mapsto> v)))"

definition GetModuleMetrics :: "('m, 'c, 'y, 's, 'p, 't, 'f) dummy_metrics \<Rightarrow> string \<Rightarrow> string \<Rightarrow> 'm option" where
  "GetModuleMetrics dm = getById (metricsById dm)"

definition GetCow :: "('m, 'c, 'y, 's, 'p, 't, 'f) dummy_metrics \<Rightarrow> string \<Rightarrow> string \<Rightarrow> 'c option" where
  "GetCow dm = getById (cowById dm)"

definition GetSyncer :: "('m, 'c, 'y, 's, 'p, 't, 'f) dummy_metrics \<Rightarrow> string \<Rightarrow> string \<Rightarrow> 'y option" where
  "GetSyncer dm = getById (syncerById dm)"

definition GetS3Storage :: "('m, 'c, 'y, 's, 'p, 't, 'f) dummy_metrics \<Rightarrow> string \<Rightarrow> string \<Rightarrow> 's option" where
  "GetS3Storage dm = getById (s3ById dm)"

definition GetProtocol :: "('m, 'c, 'y, 's, 'p, 't, 'f) dummy_metrics \<Rightarrow> string \<Rightarrow> string \<Rightarrow> 'p option" where
  "GetProtocol dm = getById (protocolById dm)"

definition GetToProtocol :: "('m, 'c, 'y, 's, 'p, 't, 'f) dummy_metrics \<Rightarrow> string \<Rightarrow> string \<Rightarrow> 't option" where
  "GetToProtocol dm = getById (toProtocolById dm)"

definition GetFromProtocol :: "('m, 'c, 'y, 's, 'p, 't, 'f) dummy_metrics \<Rightarrow> string \<Rightarrow> string \<Rightarrow> 'f option" where
  "GetFromProtocol dm = getById (fromProtocolById dm)"

definition dm_AddMetrics ::
    "string \<Rightarrow> string \<Rightarrow> 'm \<Rightarrow> ('m, 'c, 'y, 's, 'p, 't, 'f) dummy_metrics \<Rightarrow> ('m, 'c, 'y, 's, 'p, 't, 'f) dummy_metrics" where
  "dm_AddMetrics i n v dm = dm\<lparr>metricsById := addById (metricsById dm) i n v\<rparr>"

definition dm_AddCopyOnWrite ::
    "string \<Rightarrow> string \<Rightarrow> 'c \<Rightarrow> ('m, 'c, 'y, 's, 'p, 't, 'f) dummy_metrics \<Rightarrow> ('m, 'c, 'y, 's, 'p, 't, 'f) dummy_metrics" where
  "dm_AddCopyOnWrite i n v dm = dm\<lparr>cowById := addById (cowById dm) i n v\<rparr>"

definition dm_AddSyncer ::
    "string \<Rightarrow> string \<Rightarrow> 'y \<Rightarrow> ('m, 'c, 'y, 's, 'p, 't, 'f) dummy_metrics \<Rightarrow> ('m, 'c, 'y, 's, 'p, 't, 'f) dummy_metrics" where
  "dm_AddSyncer i n v dm = dm\<lparr>syncerById := addById (syncerById dm) i n v\<rparr>"

definition dm_AddS3Storage ::
    "string \<Rightarrow> string \<Rightarrow> 's \<Rightarrow> ('m, 'c, 'y, 's, 'p, 't, 'f) dummy_metrics \<Rightarrow> ('m, 'c, 'y, 's, 'p, 't, 'f) dummy_metrics" where
  "dm_AddS3Storage i n v dm = dm\<lparr>s3ById := addById (s3ById dm) i n v\<rparr>"

definition dm_AddProtocol ::
    "string \<Rightarrow> string \<Rightarrow> 'p \<Rightarrow> ('m, 'c, 'y, 's, 'p, 't, 'f) dummy_metrics \<Rightarrow> ('m, 'c, 'y, 's, 'p, 't, 'f) dummy_metrics" where
  "dm_AddProtocol i n v dm = dm\<lparr>protocolById := addById (protocolById dm) i n v\<rparr>"

definition dm_AddToProtocol ::
    "string \<Rightarrow> string \<Rightarrow> 't \<Rightarrow> ('m, 'c, 'y, 's, 'p, 't, 'f) dummy_metrics \<Rightarrow> ('m, 'c, 'y, 's, 'p, 't, 'f) dummy_metrics" where
  "dm_AddToProtocol i n v dm = dm\<lparr>toProtocolById := addById (toProtocolById dm) i n v\<rparr>"

definition dm_AddFromProtocol ::
    "string \<Rightarrow> string \<Rightarrow> 'f \<Rightarrow> ('m, 'c, 'y, 's, 'p, 't, 'f) dummy_metrics \<Rightarrow> ('m, 'c, 'y, 's, 'p, 't, 'f) dummy_metrics" where
  "dm_AddFromProtocol i n v dm = dm\<lparr>fromProtocolById := addById (fromProtocolById dm) i n v\<rparr>"

text \<open>Nothing is ever removed, so that what a closed peer did can still be shown.\<close>

definition RemoveAllID :: "string \<Rightarrow> ('m, 'c, 'y, 's, 'p, 't, 'f) dummy_metrics \<Rightarrow> ('m, 'c, 'y, 's, 'p, 't, 'f) dummy_metrics" where
  "RemoveAllID i dm = dm"

lemma getById_addById:
  "getById (addById m i n v) j k = (if j = i \<and> k = n then Some v else getById m j k)"
  by (auto simp: getById_def addById_def Let_def split: option.split)

section \<open>Statistics of a device\<close>

record io_counts =
  ReadOps :: "64 word"
  ReadBytes :: "64 word"
  WriteOps :: "64 word"
  WriteBytes :: "64 word"

record device_metrics =
  DiskReadOps :: "64 word"
  DiskReadBytes :: "64 word"
  DiskWriteOps :: "64 word"
  DiskWriteBytes :: "64 word"
  InReadOps :: "64 word"
  InReadBytes :: "64 word"
  InWriteOps :: "64 word"
  InWriteBytes :: "64 word"
  ChangedBlocks :: "64 word"
  ChangedBytes :: "64 word"

text \<open>\<open>counts\<close> reads the counters of a module; \<open>difference\<close> is what a copy-on-write layer says it changed.\<close>

definition getSiloDeviceStats ::
    "('m \<Rightarrow> io_counts) \<Rightarrow> ('c \<Rightarrow> goerr + int \<times> int) \<Rightarrow> ('m, 'c, 'y, 's, 'p, 't, 'f) dummy_metrics \<Rightarrow> string \<Rightarrow> string \<Rightarrow>
     device_metrics option" where
  "getSiloDeviceStats counts difference dm n device =
     (case GetModuleMetrics dm n device of None \<Rightarrow> None | Some met \<Rightarrow>
     (case GetModuleMetrics dm n (''device_'' @ device) of None \<Rightarrow> None | Some devmet \<Rightarrow>
      (let m = counts met; d = counts devmet;
         stats = \<lparr>DiskReadOps = ReadOps d, DiskReadBytes = ReadBytes d, DiskWriteOps = WriteOps d,
           DiskWriteBytes = WriteBytes d, InReadOps = ReadOps m, InReadBytes = ReadBytes m, InWriteOps = WriteOps m,
           InWriteBytes = WriteBytes m, ChangedBlocks = 0, ChangedBytes = 0\<rparr>
       in case GetModuleMetrics dm n (''device_rodev_'' @ device) of None \<Rightarrow> Some stats | Some rodev \<Rightarrow>
         (let r = counts rodev;
            stats = stats\<lparr>DiskReadOps := DiskReadOps stats + ReadOps r, DiskReadBytes := DiskReadBytes stats + ReadBytes r,
              DiskWriteOps := DiskWriteOps stats + WriteOps r, DiskWriteBytes := DiskWriteBytes stats + WriteBytes r\<rparr>
          in case GetCow dm n device of None \<Rightarrow> Some stats | Some cow \<Rightarrow>
            (case difference cow of Inl _ \<Rightarrow> Some stats | Inr (blocks, bytes) \<Rightarrow>
              Some (stats\<lparr>ChangedBlocks := word_of_int blocks, ChangedBytes := word_of_int bytes\<rparr>))))))"

text \<open>One row of the table, for a device that has statistics: with the writes to S3 and the reads from it.\<close>

record device_row =
  row_name :: string
  row_stats :: device_metrics
  row_s3puts :: "64 word \<times> 64 word"
  row_s3gets :: "64 word \<times> 64 word"

definition deviceRow ::
    "('m \<Rightarrow> io_counts) \<Rightarrow> ('c \<Rightarrow> goerr + int \<times> int) \<Rightarrow> ('s \<Rightarrow> io_counts) \<Rightarrow>
     ('m, 'c, 'y, 's, 'p, 't, 'f) dummy_metrics \<Rightarrow> string \<Rightarrow> string \<Rightarrow> device_row option" where
  "deviceRow counts difference s3counts dm n r = map_option (\<lambda>stats. \<lparr>row_name = r, row_stats = stats,
       row_s3puts = (case GetS3Storage dm n (''s3sync_'' @ r) of None \<Rightarrow> (0, 0) | Some s \<Rightarrow> (WriteOps (s3counts s), WriteBytes (s3counts s))),
       row_s3gets = (case GetS3Storage dm n (''s3grab_'' @ r) of None \<Rightarrow> (0, 0) | Some s \<Rightarrow> (ReadOps (s3counts s), ReadBytes (s3counts s)))\<rparr>)
     (getSiloDeviceStats counts difference dm n r)"

definition ShowDeviceStats ::
    "('m \<Rightarrow> io_counts) \<Rightarrow> ('c \<Rightarrow> goerr + int \<times> int) \<Rightarrow> ('s \<Rightarrow> io_counts) \<Rightarrow>
     ('m, 'c, 'y, 's, 'p, 't, 'f) dummy_metrics \<Rightarrow> string \<Rightarrow> device_row list" where
  "ShowDeviceStats counts difference s3counts dm n = List.map_filter (deviceRow counts difference s3counts dm n) [''disk'', ''oci'', ''memory'']"

section \<open>Where the blocks of a migration came from\<close>

text \<open>
  Every index is looked up in a slice with one entry for each block; one that is not in it is a panic. Blocks from the
  other peer are marked with 2, and 1 is added to those from other sources.
\<close>

fun markAll :: "(int \<Rightarrow> int) \<Rightarrow> int list \<Rightarrow> nat list \<Rightarrow> int list option" where
  "markAll f xs [] = Some xs"
| "markAll f xs (v # vs) = (if v < length xs then markAll f (xs[v := f (xs ! v)]) vs else None)"

text \<open>How many blocks came only from other sources, only from the peer, and from both.\<close>

definition countOrigins :: "nat \<Rightarrow> nat list \<Rightarrow> nat list \<Rightarrow> (nat \<times> nat \<times> nat) option" where
  "countOrigins n p2p alt = (case markAll (\<lambda>_. 2) (replicate n 0) p2p of None \<Rightarrow> None
     | Some xs \<Rightarrow> (case markAll (\<lambda>x. x OR 1) xs alt of None \<Rightarrow> None
       | Some ys \<Rightarrow> Some (length (filter ((=) 1) ys), length (filter ((=) 2) ys), length (filter ((=) 3) ys))))"

lemma markAll_once:
  assumes "\<And>x. f (f x) = f x"
  shows "\<forall>v \<in> set vs. v < length xs \<Longrightarrow>
    markAll f xs vs = Some (map (\<lambda>i. if i \<in> set vs then f (xs ! i) else xs ! i) [0..<length xs])"
proof (induction vs arbitrary: xs)
  case Nil
  then show ?case by (simp add: map_nth)
next
  case (Cons v vs)
  then show ?case
    by (auto simp: nth_list_update assms intro!: nth_equalityI)
qed

lemma markAll_out: "(\<exists>ys. markAll f xs vs = Some ys) \<longleftrightarrow> (\<forall>v \<in> set vs. v < length xs)"
  by (induction vs arbitrary: xs) auto

lemma markAll_length: "markAll f xs vs = Some ys \<Longrightarrow> length ys = length xs"
  by (induction vs arbitrary: xs) (auto split: if_splits)

lemma length_filter_upt: "length (filter (\<lambda>i. P i) [0..<n]) = card {i. i < n \<and> P i}"
  using length_filter_conv_card[of P "[0..<n]"] by (simp cong: conj_cong)

lemma countOrigins_correct:
  "countOrigins n p2p alt = (if \<forall>v \<in> set p2p \<union> set alt. v < n
     then Some (card (set alt - set p2p), card (set p2p - set alt), card (set p2p \<inter> set alt)) else None)"
proof (cases "\<forall>v \<in> set p2p \<union> set alt. v < n")
  case True
  let ?xs = "map (\<lambda>i. if i \<in> set p2p then 2 else 0 :: int) [0..<n]"
  let ?g = "\<lambda>i. if i \<in> set alt then (if i \<in> set p2p then 3 else 1) else if i \<in> set p2p then 2 else 0 :: int"
  have "markAll (\<lambda>_. 2) (replicate n 0) p2p = Some ?xs"
    using True by (subst markAll_once) (auto intro!: nth_equalityI)
  moreover have "markAll (\<lambda>x. x OR 1) ?xs alt = Some (map ?g [0..<n])"
    using True by (subst markAll_once) (auto simp: or.assoc intro!: nth_equalityI)
  moreover have "{i. i < n \<and> 1 = ?g i} = set alt - set p2p" "{i. i < n \<and> 2 = ?g i} = set p2p - set alt"
    "{i. i < n \<and> 3 = ?g i} = set p2p \<inter> set alt"
    using True by auto
  ultimately show ?thesis
    using True by (simp add: countOrigins_def filter_map comp_def length_filter_upt del: markAll.simps)
next
  case False
  have "countOrigins n p2p alt = None"
  proof (cases "markAll (\<lambda>_. 2) (replicate n 0) p2p")
    case (Some xs)
    then have "length xs = n" "\<forall>v \<in> set p2p. v < n"
      using markAll_length[OF Some] markAll_out[of "\<lambda>_. 2" "replicate n 0" p2p] by auto
    then have "markAll (\<lambda>x. x OR 1) xs alt = None"
      using markAll_out[of "\<lambda>x. x OR 1" xs alt] False by (meson UnE not_None_eq)
    with Some show ?thesis by (simp add: countOrigins_def)
  qed (simp add: countOrigins_def)
  then show ?thesis using False by simp
qed

section \<open>The table of a migration\<close>

record sent_counts =
  SentWriteAtBytes :: "64 word"
  SentWriteAtCompBytes :: "64 word"
  SentWriteAtCompDataBytes :: "64 word"
  SentWriteAtHashBytes :: "64 word"
  SentYouAlreadyHaveBytes :: "64 word"

record arrived_blocks =
  NumBlocks :: nat
  AvailableP2P :: "nat list"
  AvailableAltSources :: "nat list"
  DuplicateP2P :: "nat list"

definition blocksBytes :: "run_config \<Rightarrow> nat \<Rightarrow> 64 word" where
  "blocksBytes c k = of_nat k * ucast (rcf_BlockSize c)"

text \<open>The columns after the name, in their order.\<close>

definition migrationRow :: "run_config \<Rightarrow> sent_counts \<Rightarrow> arrived_blocks \<Rightarrow> 64 word list option" where
  "migrationRow c to from' = map_option (\<lambda>(onlyAlt, onlyP2P, both).
     [SentWriteAtBytes to, SentWriteAtCompBytes to, SentWriteAtCompDataBytes to, SentWriteAtHashBytes to,
      SentYouAlreadyHaveBytes to, blocksBytes c (length (AvailableP2P from')), blocksBytes c (length (AvailableAltSources from')),
      blocksBytes c (length (DuplicateP2P from')), blocksBytes c onlyP2P, blocksBytes c onlyAlt, blocksBytes c both])
     (countOrigins (NumBlocks from') (AvailableP2P from') (AvailableAltSources from'))"

text \<open>
  One row for each device and one with the sums, which start at zero. The protocols are always those of the first two
  peers; one that is missing is a nil pointer, and no table (\<open>None\<close>) is a panic.
\<close>

definition deviceMigration ::
    "('t \<Rightarrow> sent_counts) \<Rightarrow> ('f \<Rightarrow> arrived_blocks) \<Rightarrow> ('m, 'c, 'y, 's, 'p, 't, 'f) dummy_metrics \<Rightarrow> run_config \<Rightarrow> string \<Rightarrow>
     64 word list option" where
  "deviceMigration sent arrived dm c n =
     (case GetToProtocol dm (rcf_Name c @ ''-0'') n of None \<Rightarrow> None | Some to \<Rightarrow>
     (case GetFromProtocol dm (rcf_Name c @ ''-1'') n of None \<Rightarrow> None | Some fr \<Rightarrow> migrationRow c (sent to) (arrived fr)))"

definition migrationTable ::
    "('t \<Rightarrow> sent_counts) \<Rightarrow> ('f \<Rightarrow> arrived_blocks) \<Rightarrow> ('m, 'c, 'y, 's, 'p, 't, 'f) dummy_metrics \<Rightarrow> run_config \<Rightarrow>
     (string \<times> 64 word list) list option" where
  "migrationTable sent arrived dm c = (let names = KnownNames @ [DeviceOCIName] in
     map_option (\<lambda>rows. zip names rows @ [(''total'', fold (map2 (+)) rows (replicate 11 0))])
       (those (map (deviceMigration sent arrived dm c) names)))"

text \<open>
  With no block listed twice, what came from the peer is what came only from it and what came from both. The sums of the
  columns respect that, modulo the width of a word.
\<close>

lemma migrationRow_adds_up:
  assumes "migrationRow c to from' = Some row" and "distinct (AvailableP2P from')" and "distinct (AvailableAltSources from')"
  shows "row ! 5 = row ! 8 + row ! 10" "row ! 6 = row ! 9 + row ! 10"
proof -
  let ?p = "set (AvailableP2P from')" and ?a = "set (AvailableAltSources from')"
  have "length (AvailableP2P from') = card (?p - ?a) + card (?p \<inter> ?a)"
    "length (AvailableAltSources from') = card (?a - ?p) + card (?p \<inter> ?a)"
    using card_Diff_subset_Int[of ?p ?a] card_mono[of ?p "?p \<inter> ?a"] card_Diff_subset_Int[of ?a ?p] card_mono[of ?a "?p \<inter> ?a"]
      distinct_card[OF assms(2)] distinct_card[OF assms(3)] by (auto simp: Int_commute)
  then show "row ! 5 = row ! 8 + row ! 10" "row ! 6 = row ! 9 + row ! 10"
    using assms(1) by (auto simp: migrationRow_def countOrigins_correct blocksBytes_def algebra_simps split: if_splits)
qed

section \<open>Numbers as text\<close>

text \<open>Division with rounding to the nearest, and of a tie to the even number.\<close>

definition roundHalfEven :: "nat \<Rightarrow> nat \<Rightarrow> nat" where
  "roundHalfEven a b = (let q = a div b; r = a mod b in if 2 * r < b \<or> 2 * r = b \<and> even q then q else Suc q)"

text \<open>The 64-bit floating-point number of a number: at most 53 bits are kept.\<close>

fun excessBits :: "nat \<Rightarrow> nat" where
  "excessBits b = (if b < 2 ^ 53 then 0 else Suc (excessBits (b div 2)))"

declare excessBits.simps [simp del]

definition asFloat :: "nat \<Rightarrow> nat" where
  "asFloat b = roundHalfEven b (2 ^ excessBits b) * 2 ^ excessBits b"

text \<open>Dividing by a power of two is exact; the quotient is printed with one digit.\<close>

definition oneDecimal :: "nat \<Rightarrow> nat \<Rightarrow> string" where
  "oneDecimal b unit = (let t = roundHalfEven (10 * asFloat b) unit in show_nat (t div 10) @ ''.'' @ show_nat (t mod 10))"

definition formatBytes :: "64 word \<Rightarrow> string" where
  "formatBytes b = (if b < 1024 then show_nat (unat b) @ ''b''
     else if b < 1024 * 1024 then oneDecimal (unat b) 1024 @ ''k''
     else if b < 1024 * 1024 * 1024 then oneDecimal (unat b) (1024 * 1024) @ ''m''
     else oneDecimal (unat b) (1024 * 1024 * 1024) @ ''g'')"

lemma roundHalfEven_near:
  assumes "0 < b"
  shows "2 * a \<le> 2 * (roundHalfEven a b * b) + b" "2 * (roundHalfEven a b * b) \<le> 2 * a + b"
proof -
  define q r where qr: "q = a div b" "r = a mod b"
  have "a = q * b + r" "r < b"
    using assms by (simp_all add: qr)
  then show "2 * a \<le> 2 * (roundHalfEven a b * b) + b" "2 * (roundHalfEven a b * b) \<le> 2 * a + b"
    by (simp_all add: roundHalfEven_def Let_def flip: qr)
qed

lemma asFloat_small: "b < 2 ^ 53 \<Longrightarrow> asFloat b = b"
  by (simp add: asFloat_def roundHalfEven_def excessBits.simps)

text \<open>Up to a pebibyte the number that is printed is the right one, to half a unit of its last digit.\<close>

lemma oneDecimal_near:
  assumes "b < 2 ^ 53" and "0 < unit"
  shows "\<exists>t. oneDecimal b unit = show_nat (t div 10) @ ''.'' @ show_nat (t mod 10) \<and>
    2 * (10 * b) \<le> 2 * (t * unit) + unit \<and> 2 * (t * unit) \<le> 2 * (10 * b) + unit"
  using roundHalfEven_near[OF assms(2), of "10 * b"] asFloat_small[OF assms(1)]
  by (intro exI[of _ "roundHalfEven (10 * b) unit"]) (simp add: oneDecimal_def Let_def)

text \<open>The durations are printed by the standard library.\<close>

definition Summary :: "(nat \<Rightarrow> string) \<Rightarrow> run_config \<Rightarrow> string" where
  "Summary duration c = rcf_Name c @ (if rcf_UseVolatility c then '' VolatilityMonitor'' else []) @
     (if rcf_UseCow c then '' COW'' else []) @ (if rcf_UseSparseFile c then '' SparseFile'' else []) @
     (if rcf_UseWriteCache c then '' WriteCache'' else []) @ (if rcf_NoMapShared c then '' NoMapShared'' else []) @
     '' bs='' @ show_nat (unat (rcf_BlockSize c)) @ '' grab='' @ duration (rcf_GrabPeriod c)"

end
