(* ===== verification/Spec2Isabelle.thy ===== *)
theory Spec2Isabelle
  imports Package Utils AgentClient MockRuntime NetJourney PerfMain Stats
begin

text \<open>
  A verification library for drafter, which migrates running Firecracker virtual machines between hosts.

  \<^bold>\<open>The program.\<close> A peer (\<^verbatim>\<open>pkg/peer\<close>) owns a runtime (\<^verbatim>\<open>pkg/runtimes\<close>), mostly the Firecracker
  one, which starts a machine's process, resumes its snapshot, flushes its memory and suspends it, and talks to an
  agent in the guest (\<^verbatim>\<open>pkg/ipc\<close>). The devices of a machine live in a device group of the storage
  library Silo; \<^verbatim>\<open>pkg/common/migrations.go\<close> builds it from files or from another peer, and sends it to
  another peer. While it is sent, Silo calls the hooks of the dirty manager (\<^verbatim>\<open>dirty_manager.go\<close>), which
  decide when the machine is suspended (\<^verbatim>\<open>vm_state.go\<close>) and when authority goes to the other side. Beside that,
  \<^verbatim>\<open>pkg/network\<close> keeps a pool of network namespaces with address translation and port forwarding,
  \<^verbatim>\<open>snapshotter.go\<close> makes the first snapshot of a machine, and \<^verbatim>\<open>package.go\<close> archives it. The programs
  under \<^verbatim>\<open>cmd\<close> put these together: the services, the peer, the two ends in the guest, and three programs that move
  a machine through a chain of peers.

  \<^bold>\<open>Conventions.\<close> \<open>GoErrors\<close> has every sentinel error; \<open>Prelude\<close> has the outcome of a call (a value, an error,
  a panic), computations over a state with Go's control patterns (return the error, wrap it, defer, loop), the
  trace of calls to the world outside, weakest preconditions (\<open>wp\<close>, collected in \<open>go_wp\<close>), invariants of
  computations (\<open>stays_inv\<close>, collected in \<open>stays\<close>) and reachability in a step relation. The operating system, Silo
  and other packages are parameters: an environment answers each call, given the calls so far, and nothing is
  assumed about the answers unless a theorem says so. Logging, and timing that is only logged, is left out.

  \<^bold>\<open>Theories and code.\<close>
  \<^item> \<open>VmState\<close>, \<open>DirtyManager\<close>, \<open>DirtySteps\<close>, \<open>DirtySafety\<close>: the suspend state and the dirty manager, first as
    sequential operations, then as a step relation with a program counter for each device's goroutine, which the
    operations refine. Proved of every interleaving: authority moves once and only from a suspended machine, the
    machine is suspended once and when every device is ready, no channel is closed twice; the cycles are bounded.
  \<^item> \<open>DeviceNames\<close>, \<open>Schemas\<close>, \<open>Migrations\<close>: \<^verbatim>\<open>migrations.go\<close>. The schema of a device is a function of its
    configuration; a migration to a pipe is safe for any use Silo makes of the hooks.
  \<^item> \<open>IpManager\<close>, \<open>Namespace\<close>, \<open>NatPool\<close>, \<open>Forwarder\<close>: \<^verbatim>\<open>pkg/network\<close>. The address tables, one namespace
    with its packet-filter rules, the pool, and port forwarding with the goroutines of \<open>concurrentMap\<close>.
  \<^item> \<open>GoStrings\<close>, \<open>Package\<close>, \<open>Utils\<close>: \<^verbatim>\<open>package.go\<close>, the packager, padding and loop devices.
  \<^item> \<open>Machine\<close>, \<open>MemoryGrab\<close>, \<open>Runtime\<close>: \<^verbatim>\<open>pkg/runtimes/firecracker/machine.go\<close> and \<^verbatim>\<open>runtime.go\<close>. The state
    \<open>rt_sys\<close> extends the machine's with the running flag, the trackers of dirty memory and the contents of the
    memory device. The grabber of memory is proved to end and to bring the device up to date.
  \<^item> \<open>Liveness\<close>, \<open>Snapshot\<close>: \<^verbatim>\<open>liveness.go\<close> and \<^verbatim>\<open>snapshotter.go\<close>. What the snapshotter writes as the configuration
    is what the runtime reads back.
  \<^item> \<open>Runtimes\<close>: the interface as a record of operations, its contract as the locale \<open>runtime_contract\<close>, and
    its three implementations, each an interpretation.
  \<^item> \<open>Peer\<close>: \<^verbatim>\<open>peer.go\<close> over any runtime with the interface. The contract, with the safety of the dirty
    phase, gives that a peer hands over only a machine that has stopped.
  \<^item> \<open>MockRuntime\<close>: the runtime of the tests, a fourth interpretation.
  \<^item> \<open>AgentRpc\<close>, \<open>AgentClient\<close>, \<open>Vsock\<close>: \<^verbatim>\<open>pkg/ipc\<close>, the sockets of the guest and the two programs in it. The
    listening goroutine and the callers of \<open>GetRemote\<close> are steps; the client runs the same code from the other end.
  \<^item> \<open>PeerMain\<close>, \<open>Commands\<close>: \<^verbatim>\<open>cmd/drafter-peer\<close> and the programs for the pool, port forwarding and the snapshotter.
    However the peer's program ends, a machine that was handed over does not run there.
  \<^item> \<open>Journey\<close>, \<open>NetJourney\<close>: \<^verbatim>\<open>cmd/drafter-migtest\<close>, \<^verbatim>\<open>cmd/drafter-mignettest\<close>. Several peers are in one state, and
    what a receiver gets is what the sender's trace says was sent; at no end of a program two of the peers' machines run.
    The pipe that is the input of their machines (\<^verbatim>\<open>NewOutputPusher\<close>) is in \<open>Journey\<close>.
  \<^item> \<open>Benchmark\<close>, \<open>PerfMain\<close>: \<^verbatim>\<open>cmd/drafter-perf\<close>, where the pool, the ports, the snapshotter, the peers and a machine
    without a peer meet, each with its own part of the state.
  \<^item> \<open>Stats\<close>: the metrics that are kept (\<^verbatim>\<open>pkg/testutil/dummy_metrics.go\<close>) and the numbers that \<^verbatim>\<open>cmd/drafter-perf\<close>
    computes from them for its tables. The blocks of a migration are counted by where they came from: proved equal to
    the sizes of the sets; a number that is printed with a unit is right to half of its last digit.

  \<^bold>\<open>Interfaces.\<close> \<open>once_op\<close> (\<open>VmState\<close>): an operation that takes effect once; suspending the state manager, closing
  the pool and suspending the runtime are instances. \<open>invariant_system\<close> (\<open>Prelude\<close>): a step relation and its
  invariant; the dirty phase, \<open>concurrentMap\<close> and the agent's server are instances. \<open>runtime_contract\<close> (\<open>Runtimes\<close>):
  what a migration relies on, which gives, as a sublocale, the contract \<open>outside\<close> (\<open>Peer\<close>) under which the
  dirty phase is followed. \<open>peer_contract\<close> adds what starting and closing keep, for the programs with several
  peers, and \<open>closing_contract\<close> (\<open>NetJourney\<close>) that a close without an error stops the machine. Each
  runtime of the code interprets \<open>peer_contract\<close>.

  \<^bold>\<open>Bounds.\<close> There is no fuel. Loops that wait are given the list of the events they meet, or the number of their
  ticks, and end with it by their timeout; one that has no timeout never ends then, which is a panic of the model. The
  comparison of memory is a partial function, with \<open>None\<close> for the loop that wraps around at the top of the addresses;
  it is proved to return for the ranges that end below it. Addresses are 64-bit words.

  \<^bold>\<open>Not modelled.\<close> The device group, protocol and storage modules of Silo, the RPC library, the goroutine manager
  and the encodings of tar, zstd and JSON other than the one number of the configuration, which are other packages.
  The parsing of flags (a record holds what is parsed), the web servers of the metrics, what is only logged, measured or
  printed, other than the numbers of \<open>Stats\<close>, and the set-up of a pool and a forwarded port for the tests
  (\<^verbatim>\<open>pkg/testutil/nat.go\<close>), which goes on after a failed assertion and runs its cleanup in the test framework.
\<close>

end
